theory Spec2Isabelle
  imports Main "HOL-Library.Sublist" "HOL-Library.Log_Nat"
begin

section \<open>Python values used by DNA.py\<close>

text \<open>
  The text given to \<open>clean_dna\<close> is arbitrary, so there a Python \<open>str\<close> is the
  list of its Unicode code points (\<open>pystr\<close>). The cleaned sequence, the motifs and
  the codons are ASCII, and the functions that work on them take a \<^typ>\<open>string\<close>,
  one \<^typ>\<open>char\<close> per character; \<open>ascii\<close> gives the code points of such a
  string. Lengths, indices and counts are never negative in DNA.py and are natural
  numbers here.

  The exceptions that the operations used by DNA.py can raise are values of
  \<open>py_error\<close>; a function that contains such an operation returns \<open>py_error + 'a\<close>.
\<close>

datatype py_error = ZeroDivisionError | ValueError

definition bind_err :: "py_error + 'a \<Rightarrow> ('a \<Rightarrow> py_error + 'b) \<Rightarrow> py_error + 'b" where
  "bind_err r f = (case r of Inl e \<Rightarrow> Inl e | Inr v \<Rightarrow> f v)"

type_synonym pychar = nat

type_synonym pystr = "pychar list"

definition ascii :: "string \<Rightarrow> pystr" where
  "ascii s = map of_char s"

text \<open>
  \<open>str.upper\<close> replaces each character by its upper-case form, which for some
  characters is two or three characters long. \<open>UPPER_TABLE\<close> lists every code point
  that \<open>str.upper\<close> changes with its upper-case form, in ascending order: the table of
  CPython 3.11, which is that of Unicode 14.0.0. Every other code point is unchanged.
\<close>

definition UPPER_TABLE :: "(pychar \<times> pystr) list" where
  "UPPER_TABLE =
    [(0x61, [0x41]), (0x62, [0x42]), (0x63, [0x43]), (0x64, [0x44]), (0x65, [0x45]),
     (0x66, [0x46]), (0x67, [0x47]), (0x68, [0x48]), (0x69, [0x49]), (0x6A, [0x4A]),
     (0x6B, [0x4B]), (0x6C, [0x4C]), (0x6D, [0x4D]), (0x6E, [0x4E]), (0x6F, [0x4F]),
     (0x70, [0x50]), (0x71, [0x51]), (0x72, [0x52]), (0x73, [0x53]), (0x74, [0x54]),
     (0x75, [0x55]), (0x76, [0x56]), (0x77, [0x57]), (0x78, [0x58]), (0x79, [0x59]),
     (0x7A, [0x5A]), (0xB5, [0x39C]), (0xDF, [0x53, 0x53]), (0xE0, [0xC0]), (0xE1, [0xC1]),
     (0xE2, [0xC2]), (0xE3, [0xC3]), (0xE4, [0xC4]), (0xE5, [0xC5]), (0xE6, [0xC6]),
     (0xE7, [0xC7]), (0xE8, [0xC8]), (0xE9, [0xC9]), (0xEA, [0xCA]), (0xEB, [0xCB]),
     (0xEC, [0xCC]), (0xED, [0xCD]), (0xEE, [0xCE]), (0xEF, [0xCF]), (0xF0, [0xD0]),
     (0xF1, [0xD1]), (0xF2, [0xD2]), (0xF3, [0xD3]), (0xF4, [0xD4]), (0xF5, [0xD5]),
     (0xF6, [0xD6]), (0xF8, [0xD8]), (0xF9, [0xD9]), (0xFA, [0xDA]), (0xFB, [0xDB]),
     (0xFC, [0xDC]), (0xFD, [0xDD]), (0xFE, [0xDE]), (0xFF, [0x178]), (0x101, [0x100]),
     (0x103, [0x102]), (0x105, [0x104]), (0x107, [0x106]), (0x109, [0x108]), (0x10B, [0x10A]),
     (0x10D, [0x10C]), (0x10F, [0x10E]), (0x111, [0x110]), (0x113, [0x112]), (0x115, [0x114]),
     (0x117, [0x116]), (0x119, [0x118]), (0x11B, [0x11A]), (0x11D, [0x11C]), (0x11F, [0x11E]),
     (0x121, [0x120]), (0x123, [0x122]), (0x125, [0x124]), (0x127, [0x126]), (0x129, [0x128]),
     (0x12B, [0x12A]), (0x12D, [0x12C]), (0x12F, [0x12E]), (0x131, [0x49]), (0x133, [0x132]),
     (0x135, [0x134]), (0x137, [0x136]), (0x13A, [0x139]), (0x13C, [0x13B]), (0x13E, [0x13D]),
     (0x140, [0x13F]), (0x142, [0x141]), (0x144, [0x143]), (0x146, [0x145]), (0x148, [0x147]),
     (0x149, [0x2BC, 0x4E]), (0x14B, [0x14A]), (0x14D, [0x14C]), (0x14F, [0x14E]),
     (0x151, [0x150]), (0x153, [0x152]), (0x155, [0x154]), (0x157, [0x156]), (0x159, [0x158]),
     (0x15B, [0x15A]), (0x15D, [0x15C]), (0x15F, [0x15E]), (0x161, [0x160]), (0x163, [0x162]),
     (0x165, [0x164]), (0x167, [0x166]), (0x169, [0x168]), (0x16B, [0x16A]), (0x16D, [0x16C]),
     (0x16F, [0x16E]), (0x171, [0x170]), (0x173, [0x172]), (0x175, [0x174]), (0x177, [0x176]),
     (0x17A, [0x179]), (0x17C, [0x17B]), (0x17E, [0x17D]), (0x17F, [0x53]), (0x180, [0x243]),
     (0x183, [0x182]), (0x185, [0x184]), (0x188, [0x187]), (0x18C, [0x18B]), (0x192, [0x191]),
     (0x195, [0x1F6]), (0x199, [0x198]), (0x19A, [0x23D]), (0x19E, [0x220]), (0x1A1, [0x1A0]),
     (0x1A3, [0x1A2]), (0x1A5, [0x1A4]), (0x1A8, [0x1A7]), (0x1AD, [0x1AC]), (0x1B0, [0x1AF]),
     (0x1B4, [0x1B3]), (0x1B6, [0x1B5]), (0x1B9, [0x1B8]), (0x1BD, [0x1BC]), (0x1BF, [0x1F7]),
     (0x1C5, [0x1C4]), (0x1C6, [0x1C4]), (0x1C8, [0x1C7]), (0x1C9, [0x1C7]), (0x1CB, [0x1CA]),
     (0x1CC, [0x1CA]), (0x1CE, [0x1CD]), (0x1D0, [0x1CF]), (0x1D2, [0x1D1]), (0x1D4, [0x1D3]),
     (0x1D6, [0x1D5]), (0x1D8, [0x1D7]), (0x1DA, [0x1D9]), (0x1DC, [0x1DB]), (0x1DD, [0x18E]),
     (0x1DF, [0x1DE]), (0x1E1, [0x1E0]), (0x1E3, [0x1E2]), (0x1E5, [0x1E4]), (0x1E7, [0x1E6]),
     (0x1E9, [0x1E8]), (0x1EB, [0x1EA]), (0x1ED, [0x1EC]), (0x1EF, [0x1EE]),
     (0x1F0, [0x4A, 0x30C]), (0x1F2, [0x1F1]), (0x1F3, [0x1F1]), (0x1F5, [0x1F4]),
     (0x1F9, [0x1F8]), (0x1FB, [0x1FA]), (0x1FD, [0x1FC]), (0x1FF, [0x1FE]), (0x201, [0x200]),
     (0x203, [0x202]), (0x205, [0x204]), (0x207, [0x206]), (0x209, [0x208]), (0x20B, [0x20A]),
     (0x20D, [0x20C]), (0x20F, [0x20E]), (0x211, [0x210]), (0x213, [0x212]), (0x215, [0x214]),
     (0x217, [0x216]), (0x219, [0x218]), (0x21B, [0x21A]), (0x21D, [0x21C]), (0x21F, [0x21E]),
     (0x223, [0x222]), (0x225, [0x224]), (0x227, [0x226]), (0x229, [0x228]), (0x22B, [0x22A]),
     (0x22D, [0x22C]), (0x22F, [0x22E]), (0x231, [0x230]), (0x233, [0x232]), (0x23C, [0x23B]),
     (0x23F, [0x2C7E]), (0x240, [0x2C7F]), (0x242, [0x241]), (0x247, [0x246]), (0x249, [0x248]),
     (0x24B, [0x24A]), (0x24D, [0x24C]), (0x24F, [0x24E]), (0x250, [0x2C6F]), (0x251, [0x2C6D]),
     (0x252, [0x2C70]), (0x253, [0x181]), (0x254, [0x186]), (0x256, [0x189]), (0x257, [0x18A]),
     (0x259, [0x18F]), (0x25B, [0x190]), (0x25C, [0xA7AB]), (0x260, [0x193]), (0x261, [0xA7AC]),
     (0x263, [0x194]), (0x265, [0xA78D]), (0x266, [0xA7AA]), (0x268, [0x197]), (0x269, [0x196]),
     (0x26A, [0xA7AE]), (0x26B, [0x2C62]), (0x26C, [0xA7AD]), (0x26F, [0x19C]),
     (0x271, [0x2C6E]), (0x272, [0x19D]), (0x275, [0x19F]), (0x27D, [0x2C64]), (0x280, [0x1A6]),
     (0x282, [0xA7C5]), (0x283, [0x1A9]), (0x287, [0xA7B1]), (0x288, [0x1AE]), (0x289, [0x244]),
     (0x28A, [0x1B1]), (0x28B, [0x1B2]), (0x28C, [0x245]), (0x292, [0x1B7]), (0x29D, [0xA7B2]),
     (0x29E, [0xA7B0]), (0x345, [0x399]), (0x371, [0x370]), (0x373, [0x372]), (0x377, [0x376]),
     (0x37B, [0x3FD]), (0x37C, [0x3FE]), (0x37D, [0x3FF]), (0x390, [0x399, 0x308, 0x301]),
     (0x3AC, [0x386]), (0x3AD, [0x388]), (0x3AE, [0x389]), (0x3AF, [0x38A]),
     (0x3B0, [0x3A5, 0x308, 0x301]), (0x3B1, [0x391]), (0x3B2, [0x392]), (0x3B3, [0x393]),
     (0x3B4, [0x394]), (0x3B5, [0x395]), (0x3B6, [0x396]), (0x3B7, [0x397]), (0x3B8, [0x398]),
     (0x3B9, [0x399]), (0x3BA, [0x39A]), (0x3BB, [0x39B]), (0x3BC, [0x39C]), (0x3BD, [0x39D]),
     (0x3BE, [0x39E]), (0x3BF, [0x39F]), (0x3C0, [0x3A0]), (0x3C1, [0x3A1]), (0x3C2, [0x3A3]),
     (0x3C3, [0x3A3]), (0x3C4, [0x3A4]), (0x3C5, [0x3A5]), (0x3C6, [0x3A6]), (0x3C7, [0x3A7]),
     (0x3C8, [0x3A8]), (0x3C9, [0x3A9]), (0x3CA, [0x3AA]), (0x3CB, [0x3AB]), (0x3CC, [0x38C]),
     (0x3CD, [0x38E]), (0x3CE, [0x38F]), (0x3D0, [0x392]), (0x3D1, [0x398]), (0x3D5, [0x3A6]),
     (0x3D6, [0x3A0]), (0x3D7, [0x3CF]), (0x3D9, [0x3D8]), (0x3DB, [0x3DA]), (0x3DD, [0x3DC]),
     (0x3DF, [0x3DE]), (0x3E1, [0x3E0]), (0x3E3, [0x3E2]), (0x3E5, [0x3E4]), (0x3E7, [0x3E6]),
     (0x3E9, [0x3E8]), (0x3EB, [0x3EA]), (0x3ED, [0x3EC]), (0x3EF, [0x3EE]), (0x3F0, [0x39A]),
     (0x3F1, [0x3A1]), (0x3F2, [0x3F9]), (0x3F3, [0x37F]), (0x3F5, [0x395]), (0x3F8, [0x3F7]),
     (0x3FB, [0x3FA]), (0x430, [0x410]), (0x431, [0x411]), (0x432, [0x412]), (0x433, [0x413]),
     (0x434, [0x414]), (0x435, [0x415]), (0x436, [0x416]), (0x437, [0x417]), (0x438, [0x418]),
     (0x439, [0x419]), (0x43A, [0x41A]), (0x43B, [0x41B]), (0x43C, [0x41C]), (0x43D, [0x41D]),
     (0x43E, [0x41E]), (0x43F, [0x41F]), (0x440, [0x420]), (0x441, [0x421]), (0x442, [0x422]),
     (0x443, [0x423]), (0x444, [0x424]), (0x445, [0x425]), (0x446, [0x426]), (0x447, [0x427]),
     (0x448, [0x428]), (0x449, [0x429]), (0x44A, [0x42A]), (0x44B, [0x42B]), (0x44C, [0x42C]),
     (0x44D, [0x42D]), (0x44E, [0x42E]), (0x44F, [0x42F]), (0x450, [0x400]), (0x451, [0x401]),
     (0x452, [0x402]), (0x453, [0x403]), (0x454, [0x404]), (0x455, [0x405]), (0x456, [0x406]),
     (0x457, [0x407]), (0x458, [0x408]), (0x459, [0x409]), (0x45A, [0x40A]), (0x45B, [0x40B]),
     (0x45C, [0x40C]), (0x45D, [0x40D]), (0x45E, [0x40E]), (0x45F, [0x40F]), (0x461, [0x460]),
     (0x463, [0x462]), (0x465, [0x464]), (0x467, [0x466]), (0x469, [0x468]), (0x46B, [0x46A]),
     (0x46D, [0x46C]), (0x46F, [0x46E]), (0x471, [0x470]), (0x473, [0x472]), (0x475, [0x474]),
     (0x477, [0x476]), (0x479, [0x478]), (0x47B, [0x47A]), (0x47D, [0x47C]), (0x47F, [0x47E]),
     (0x481, [0x480]), (0x48B, [0x48A]), (0x48D, [0x48C]), (0x48F, [0x48E]), (0x491, [0x490]),
     (0x493, [0x492]), (0x495, [0x494]), (0x497, [0x496]), (0x499, [0x498]), (0x49B, [0x49A]),
     (0x49D, [0x49C]), (0x49F, [0x49E]), (0x4A1, [0x4A0]), (0x4A3, [0x4A2]), (0x4A5, [0x4A4]),
     (0x4A7, [0x4A6]), (0x4A9, [0x4A8]), (0x4AB, [0x4AA]), (0x4AD, [0x4AC]), (0x4AF, [0x4AE]),
     (0x4B1, [0x4B0]), (0x4B3, [0x4B2]), (0x4B5, [0x4B4]), (0x4B7, [0x4B6]), (0x4B9, [0x4B8]),
     (0x4BB, [0x4BA]), (0x4BD, [0x4BC]), (0x4BF, [0x4BE]), (0x4C2, [0x4C1]), (0x4C4, [0x4C3]),
     (0x4C6, [0x4C5]), (0x4C8, [0x4C7]), (0x4CA, [0x4C9]), (0x4CC, [0x4CB]), (0x4CE, [0x4CD]),
     (0x4CF, [0x4C0]), (0x4D1, [0x4D0]), (0x4D3, [0x4D2]), (0x4D5, [0x4D4]), (0x4D7, [0x4D6]),
     (0x4D9, [0x4D8]), (0x4DB, [0x4DA]), (0x4DD, [0x4DC]), (0x4DF, [0x4DE]), (0x4E1, [0x4E0]),
     (0x4E3, [0x4E2]), (0x4E5, [0x4E4]), (0x4E7, [0x4E6]), (0x4E9, [0x4E8]), (0x4EB, [0x4EA]),
     (0x4ED, [0x4EC]), (0x4EF, [0x4EE]), (0x4F1, [0x4F0]), (0x4F3, [0x4F2]), (0x4F5, [0x4F4]),
     (0x4F7, [0x4F6]), (0x4F9, [0x4F8]), (0x4FB, [0x4FA]), (0x4FD, [0x4FC]), (0x4FF, [0x4FE]),
     (0x501, [0x500]), (0x503, [0x502]), (0x505, [0x504]), (0x507, [0x506]), (0x509, [0x508]),
     (0x50B, [0x50A]), (0x50D, [0x50C]), (0x50F, [0x50E]), (0x511, [0x510]), (0x513, [0x512]),
     (0x515, [0x514]), (0x517, [0x516]), (0x519, [0x518]), (0x51B, [0x51A]), (0x51D, [0x51C]),
     (0x51F, [0x51E]), (0x521, [0x520]), (0x523, [0x522]), (0x525, [0x524]), (0x527, [0x526]),
     (0x529, [0x528]), (0x52B, [0x52A]), (0x52D, [0x52C]), (0x52F, [0x52E]), (0x561, [0x531]),
     (0x562, [0x532]), (0x563, [0x533]), (0x564, [0x534]), (0x565, [0x535]), (0x566, [0x536]),
     (0x567, [0x537]), (0x568, [0x538]), (0x569, [0x539]), (0x56A, [0x53A]), (0x56B, [0x53B]),
     (0x56C, [0x53C]), (0x56D, [0x53D]), (0x56E, [0x53E]), (0x56F, [0x53F]), (0x570, [0x540]),
     (0x571, [0x541]), (0x572, [0x542]), (0x573, [0x543]), (0x574, [0x544]), (0x575, [0x545]),
     (0x576, [0x546]), (0x577, [0x547]), (0x578, [0x548]), (0x579, [0x549]), (0x57A, [0x54A]),
     (0x57B, [0x54B]), (0x57C, [0x54C]), (0x57D, [0x54D]), (0x57E, [0x54E]), (0x57F, [0x54F]),
     (0x580, [0x550]), (0x581, [0x551]), (0x582, [0x552]), (0x583, [0x553]), (0x584, [0x554]),
     (0x585, [0x555]), (0x586, [0x556]), (0x587, [0x535, 0x552]), (0x10D0, [0x1C90]),
     (0x10D1, [0x1C91]), (0x10D2, [0x1C92]), (0x10D3, [0x1C93]), (0x10D4, [0x1C94]),
     (0x10D5, [0x1C95]), (0x10D6, [0x1C96]), (0x10D7, [0x1C97]), (0x10D8, [0x1C98]),
     (0x10D9, [0x1C99]), (0x10DA, [0x1C9A]), (0x10DB, [0x1C9B]), (0x10DC, [0x1C9C]),
     (0x10DD, [0x1C9D]), (0x10DE, [0x1C9E]), (0x10DF, [0x1C9F]), (0x10E0, [0x1CA0]),
     (0x10E1, [0x1CA1]), (0x10E2, [0x1CA2]), (0x10E3, [0x1CA3]), (0x10E4, [0x1CA4]),
     (0x10E5, [0x1CA5]), (0x10E6, [0x1CA6]), (0x10E7, [0x1CA7]), (0x10E8, [0x1CA8]),
     (0x10E9, [0x1CA9]), (0x10EA, [0x1CAA]), (0x10EB, [0x1CAB]), (0x10EC, [0x1CAC]),
     (0x10ED, [0x1CAD]), (0x10EE, [0x1CAE]), (0x10EF, [0x1CAF]), (0x10F0, [0x1CB0]),
     (0x10F1, [0x1CB1]), (0x10F2, [0x1CB2]), (0x10F3, [0x1CB3]), (0x10F4, [0x1CB4]),
     (0x10F5, [0x1CB5]), (0x10F6, [0x1CB6]), (0x10F7, [0x1CB7]), (0x10F8, [0x1CB8]),
     (0x10F9, [0x1CB9]), (0x10FA, [0x1CBA]), (0x10FD, [0x1CBD]), (0x10FE, [0x1CBE]),
     (0x10FF, [0x1CBF]), (0x13F8, [0x13F0]), (0x13F9, [0x13F1]), (0x13FA, [0x13F2]),
     (0x13FB, [0x13F3]), (0x13FC, [0x13F4]), (0x13FD, [0x13F5]), (0x1C80, [0x412]),
     (0x1C81, [0x414]), (0x1C82, [0x41E]), (0x1C83, [0x421]), (0x1C84, [0x422]),
     (0x1C85, [0x422]), (0x1C86, [0x42A]), (0x1C87, [0x462]), (0x1C88, [0xA64A]),
     (0x1D79, [0xA77D]), (0x1D7D, [0x2C63]), (0x1D8E, [0xA7C6]), (0x1E01, [0x1E00]),
     (0x1E03, [0x1E02]), (0x1E05, [0x1E04]), (0x1E07, [0x1E06]), (0x1E09, [0x1E08]),
     (0x1E0B, [0x1E0A]), (0x1E0D, [0x1E0C]), (0x1E0F, [0x1E0E]), (0x1E11, [0x1E10]),
     (0x1E13, [0x1E12]), (0x1E15, [0x1E14]), (0x1E17, [0x1E16]), (0x1E19, [0x1E18]),
     (0x1E1B, [0x1E1A]), (0x1E1D, [0x1E1C]), (0x1E1F, [0x1E1E]), (0x1E21, [0x1E20]),
     (0x1E23, [0x1E22]), (0x1E25, [0x1E24]), (0x1E27, [0x1E26]), (0x1E29, [0x1E28]),
     (0x1E2B, [0x1E2A]), (0x1E2D, [0x1E2C]), (0x1E2F, [0x1E2E]), (0x1E31, [0x1E30]),
     (0x1E33, [0x1E32]), (0x1E35, [0x1E34]), (0x1E37, [0x1E36]), (0x1E39, [0x1E38]),
     (0x1E3B, [0x1E3A]), (0x1E3D, [0x1E3C]), (0x1E3F, [0x1E3E]), (0x1E41, [0x1E40]),
     (0x1E43, [0x1E42]), (0x1E45, [0x1E44]), (0x1E47, [0x1E46]), (0x1E49, [0x1E48]),
     (0x1E4B, [0x1E4A]), (0x1E4D, [0x1E4C]), (0x1E4F, [0x1E4E]), (0x1E51, [0x1E50]),
     (0x1E53, [0x1E52]), (0x1E55, [0x1E54]), (0x1E57, [0x1E56]), (0x1E59, [0x1E58]),
     (0x1E5B, [0x1E5A]), (0x1E5D, [0x1E5C]), (0x1E5F, [0x1E5E]), (0x1E61, [0x1E60]),
     (0x1E63, [0x1E62]), (0x1E65, [0x1E64]), (0x1E67, [0x1E66]), (0x1E69, [0x1E68]),
     (0x1E6B, [0x1E6A]), (0x1E6D, [0x1E6C]), (0x1E6F, [0x1E6E]), (0x1E71, [0x1E70]),
     (0x1E73, [0x1E72]), (0x1E75, [0x1E74]), (0x1E77, [0x1E76]), (0x1E79, [0x1E78]),
     (0x1E7B, [0x1E7A]), (0x1E7D, [0x1E7C]), (0x1E7F, [0x1E7E]), (0x1E81, [0x1E80]),
     (0x1E83, [0x1E82]), (0x1E85, [0x1E84]), (0x1E87, [0x1E86]), (0x1E89, [0x1E88]),
     (0x1E8B, [0x1E8A]), (0x1E8D, [0x1E8C]), (0x1E8F, [0x1E8E]), (0x1E91, [0x1E90]),
     (0x1E93, [0x1E92]), (0x1E95, [0x1E94]), (0x1E96, [0x48, 0x331]), (0x1E97, [0x54, 0x308]),
     (0x1E98, [0x57, 0x30A]), (0x1E99, [0x59, 0x30A]), (0x1E9A, [0x41, 0x2BE]),
     (0x1E9B, [0x1E60]), (0x1EA1, [0x1EA0]), (0x1EA3, [0x1EA2]), (0x1EA5, [0x1EA4]),
     (0x1EA7, [0x1EA6]), (0x1EA9, [0x1EA8]), (0x1EAB, [0x1EAA]), (0x1EAD, [0x1EAC]),
     (0x1EAF, [0x1EAE]), (0x1EB1, [0x1EB0]), (0x1EB3, [0x1EB2]), (0x1EB5, [0x1EB4]),
     (0x1EB7, [0x1EB6]), (0x1EB9, [0x1EB8]), (0x1EBB, [0x1EBA]), (0x1EBD, [0x1EBC]),
     (0x1EBF, [0x1EBE]), (0x1EC1, [0x1EC0]), (0x1EC3, [0x1EC2]), (0x1EC5, [0x1EC4]),
     (0x1EC7, [0x1EC6]), (0x1EC9, [0x1EC8]), (0x1ECB, [0x1ECA]), (0x1ECD, [0x1ECC]),
     (0x1ECF, [0x1ECE]), (0x1ED1, [0x1ED0]), (0x1ED3, [0x1ED2]), (0x1ED5, [0x1ED4]),
     (0x1ED7, [0x1ED6]), (0x1ED9, [0x1ED8]), (0x1EDB, [0x1EDA]), (0x1EDD, [0x1EDC]),
     (0x1EDF, [0x1EDE]), (0x1EE1, [0x1EE0]), (0x1EE3, [0x1EE2]), (0x1EE5, [0x1EE4]),
     (0x1EE7, [0x1EE6]), (0x1EE9, [0x1EE8]), (0x1EEB, [0x1EEA]), (0x1EED, [0x1EEC]),
     (0x1EEF, [0x1EEE]), (0x1EF1, [0x1EF0]), (0x1EF3, [0x1EF2]), (0x1EF5, [0x1EF4]),
     (0x1EF7, [0x1EF6]), (0x1EF9, [0x1EF8]), (0x1EFB, [0x1EFA]), (0x1EFD, [0x1EFC]),
     (0x1EFF, [0x1EFE]), (0x1F00, [0x1F08]), (0x1F01, [0x1F09]), (0x1F02, [0x1F0A]),
     (0x1F03, [0x1F0B]), (0x1F04, [0x1F0C]), (0x1F05, [0x1F0D]), (0x1F06, [0x1F0E]),
     (0x1F07, [0x1F0F]), (0x1F10, [0x1F18]), (0x1F11, [0x1F19]), (0x1F12, [0x1F1A]),
     (0x1F13, [0x1F1B]), (0x1F14, [0x1F1C]), (0x1F15, [0x1F1D]), (0x1F20, [0x1F28]),
     (0x1F21, [0x1F29]), (0x1F22, [0x1F2A]), (0x1F23, [0x1F2B]), (0x1F24, [0x1F2C]),
     (0x1F25, [0x1F2D]), (0x1F26, [0x1F2E]), (0x1F27, [0x1F2F]), (0x1F30, [0x1F38]),
     (0x1F31, [0x1F39]), (0x1F32, [0x1F3A]), (0x1F33, [0x1F3B]), (0x1F34, [0x1F3C]),
     (0x1F35, [0x1F3D]), (0x1F36, [0x1F3E]), (0x1F37, [0x1F3F]), (0x1F40, [0x1F48]),
     (0x1F41, [0x1F49]), (0x1F42, [0x1F4A]), (0x1F43, [0x1F4B]), (0x1F44, [0x1F4C]),
     (0x1F45, [0x1F4D]), (0x1F50, [0x3A5, 0x313]), (0x1F51, [0x1F59]),
     (0x1F52, [0x3A5, 0x313, 0x300]), (0x1F53, [0x1F5B]), (0x1F54, [0x3A5, 0x313, 0x301]),
     (0x1F55, [0x1F5D]), (0x1F56, [0x3A5, 0x313, 0x342]), (0x1F57, [0x1F5F]), (0x1F60, [0x1F68]),
     (0x1F61, [0x1F69]), (0x1F62, [0x1F6A]), (0x1F63, [0x1F6B]), (0x1F64, [0x1F6C]),
     (0x1F65, [0x1F6D]), (0x1F66, [0x1F6E]), (0x1F67, [0x1F6F]), (0x1F70, [0x1FBA]),
     (0x1F71, [0x1FBB]), (0x1F72, [0x1FC8]), (0x1F73, [0x1FC9]), (0x1F74, [0x1FCA]),
     (0x1F75, [0x1FCB]), (0x1F76, [0x1FDA]), (0x1F77, [0x1FDB]), (0x1F78, [0x1FF8]),
     (0x1F79, [0x1FF9]), (0x1F7A, [0x1FEA]), (0x1F7B, [0x1FEB]), (0x1F7C, [0x1FFA]),
     (0x1F7D, [0x1FFB]), (0x1F80, [0x1F08, 0x399]), (0x1F81, [0x1F09, 0x399]),
     (0x1F82, [0x1F0A, 0x399]), (0x1F83, [0x1F0B, 0x399]), (0x1F84, [0x1F0C, 0x399]),
     (0x1F85, [0x1F0D, 0x399]), (0x1F86, [0x1F0E, 0x399]), (0x1F87, [0x1F0F, 0x399]),
     (0x1F88, [0x1F08, 0x399]), (0x1F89, [0x1F09, 0x399]), (0x1F8A, [0x1F0A, 0x399]),
     (0x1F8B, [0x1F0B, 0x399]), (0x1F8C, [0x1F0C, 0x399]), (0x1F8D, [0x1F0D, 0x399]),
     (0x1F8E, [0x1F0E, 0x399]), (0x1F8F, [0x1F0F, 0x399]), (0x1F90, [0x1F28, 0x399]),
     (0x1F91, [0x1F29, 0x399]), (0x1F92, [0x1F2A, 0x399]), (0x1F93, [0x1F2B, 0x399]),
     (0x1F94, [0x1F2C, 0x399]), (0x1F95, [0x1F2D, 0x399]), (0x1F96, [0x1F2E, 0x399]),
     (0x1F97, [0x1F2F, 0x399]), (0x1F98, [0x1F28, 0x399]), (0x1F99, [0x1F29, 0x399]),
     (0x1F9A, [0x1F2A, 0x399]), (0x1F9B, [0x1F2B, 0x399]), (0x1F9C, [0x1F2C, 0x399]),
     (0x1F9D, [0x1F2D, 0x399]), (0x1F9E, [0x1F2E, 0x399]), (0x1F9F, [0x1F2F, 0x399]),
     (0x1FA0, [0x1F68, 0x399]), (0x1FA1, [0x1F69, 0x399]), (0x1FA2, [0x1F6A, 0x399]),
     (0x1FA3, [0x1F6B, 0x399]), (0x1FA4, [0x1F6C, 0x399]), (0x1FA5, [0x1F6D, 0x399]),
     (0x1FA6, [0x1F6E, 0x399]), (0x1FA7, [0x1F6F, 0x399]), (0x1FA8, [0x1F68, 0x399]),
     (0x1FA9, [0x1F69, 0x399]), (0x1FAA, [0x1F6A, 0x399]), (0x1FAB, [0x1F6B, 0x399]),
     (0x1FAC, [0x1F6C, 0x399]), (0x1FAD, [0x1F6D, 0x399]), (0x1FAE, [0x1F6E, 0x399]),
     (0x1FAF, [0x1F6F, 0x399]), (0x1FB0, [0x1FB8]), (0x1FB1, [0x1FB9]),
     (0x1FB2, [0x1FBA, 0x399]), (0x1FB3, [0x391, 0x399]), (0x1FB4, [0x386, 0x399]),
     (0x1FB6, [0x391, 0x342]), (0x1FB7, [0x391, 0x342, 0x399]), (0x1FBC, [0x391, 0x399]),
     (0x1FBE, [0x399]), (0x1FC2, [0x1FCA, 0x399]), (0x1FC3, [0x397, 0x399]),
     (0x1FC4, [0x389, 0x399]), (0x1FC6, [0x397, 0x342]), (0x1FC7, [0x397, 0x342, 0x399]),
     (0x1FCC, [0x397, 0x399]), (0x1FD0, [0x1FD8]), (0x1FD1, [0x1FD9]),
     (0x1FD2, [0x399, 0x308, 0x300]), (0x1FD3, [0x399, 0x308, 0x301]), (0x1FD6, [0x399, 0x342]),
     (0x1FD7, [0x399, 0x308, 0x342]), (0x1FE0, [0x1FE8]), (0x1FE1, [0x1FE9]),
     (0x1FE2, [0x3A5, 0x308, 0x300]), (0x1FE3, [0x3A5, 0x308, 0x301]), (0x1FE4, [0x3A1, 0x313]),
     (0x1FE5, [0x1FEC]), (0x1FE6, [0x3A5, 0x342]), (0x1FE7, [0x3A5, 0x308, 0x342]),
     (0x1FF2, [0x1FFA, 0x399]), (0x1FF3, [0x3A9, 0x399]), (0x1FF4, [0x38F, 0x399]),
     (0x1FF6, [0x3A9, 0x342]), (0x1FF7, [0x3A9, 0x342, 0x399]), (0x1FFC, [0x3A9, 0x399]),
     (0x214E, [0x2132]), (0x2170, [0x2160]), (0x2171, [0x2161]), (0x2172, [0x2162]),
     (0x2173, [0x2163]), (0x2174, [0x2164]), (0x2175, [0x2165]), (0x2176, [0x2166]),
     (0x2177, [0x2167]), (0x2178, [0x2168]), (0x2179, [0x2169]), (0x217A, [0x216A]),
     (0x217B, [0x216B]), (0x217C, [0x216C]), (0x217D, [0x216D]), (0x217E, [0x216E]),
     (0x217F, [0x216F]), (0x2184, [0x2183]), (0x24D0, [0x24B6]), (0x24D1, [0x24B7]),
     (0x24D2, [0x24B8]), (0x24D3, [0x24B9]), (0x24D4, [0x24BA]), (0x24D5, [0x24BB]),
     (0x24D6, [0x24BC]), (0x24D7, [0x24BD]), (0x24D8, [0x24BE]), (0x24D9, [0x24BF]),
     (0x24DA, [0x24C0]), (0x24DB, [0x24C1]), (0x24DC, [0x24C2]), (0x24DD, [0x24C3]),
     (0x24DE, [0x24C4]), (0x24DF, [0x24C5]), (0x24E0, [0x24C6]), (0x24E1, [0x24C7]),
     (0x24E2, [0x24C8]), (0x24E3, [0x24C9]), (0x24E4, [0x24CA]), (0x24E5, [0x24CB]),
     (0x24E6, [0x24CC]), (0x24E7, [0x24CD]), (0x24E8, [0x24CE]), (0x24E9, [0x24CF]),
     (0x2C30, [0x2C00]), (0x2C31, [0x2C01]), (0x2C32, [0x2C02]), (0x2C33, [0x2C03]),
     (0x2C34, [0x2C04]), (0x2C35, [0x2C05]), (0x2C36, [0x2C06]), (0x2C37, [0x2C07]),
     (0x2C38, [0x2C08]), (0x2C39, [0x2C09]), (0x2C3A, [0x2C0A]), (0x2C3B, [0x2C0B]),
     (0x2C3C, [0x2C0C]), (0x2C3D, [0x2C0D]), (0x2C3E, [0x2C0E]), (0x2C3F, [0x2C0F]),
     (0x2C40, [0x2C10]), (0x2C41, [0x2C11]), (0x2C42, [0x2C12]), (0x2C43, [0x2C13]),
     (0x2C44, [0x2C14]), (0x2C45, [0x2C15]), (0x2C46, [0x2C16]), (0x2C47, [0x2C17]),
     (0x2C48, [0x2C18]), (0x2C49, [0x2C19]), (0x2C4A, [0x2C1A]), (0x2C4B, [0x2C1B]),
     (0x2C4C, [0x2C1C]), (0x2C4D, [0x2C1D]), (0x2C4E, [0x2C1E]), (0x2C4F, [0x2C1F]),
     (0x2C50, [0x2C20]), (0x2C51, [0x2C21]), (0x2C52, [0x2C22]), (0x2C53, [0x2C23]),
     (0x2C54, [0x2C24]), (0x2C55, [0x2C25]), (0x2C56, [0x2C26]), (0x2C57, [0x2C27]),
     (0x2C58, [0x2C28]), (0x2C59, [0x2C29]), (0x2C5A, [0x2C2A]), (0x2C5B, [0x2C2B]),
     (0x2C5C, [0x2C2C]), (0x2C5D, [0x2C2D]), (0x2C5E, [0x2C2E]), (0x2C5F, [0x2C2F]),
     (0x2C61, [0x2C60]), (0x2C65, [0x23A]), (0x2C66, [0x23E]), (0x2C68, [0x2C67]),
     (0x2C6A, [0x2C69]), (0x2C6C, [0x2C6B]), (0x2C73, [0x2C72]), (0x2C76, [0x2C75]),
     (0x2C81, [0x2C80]), (0x2C83, [0x2C82]), (0x2C85, [0x2C84]), (0x2C87, [0x2C86]),
     (0x2C89, [0x2C88]), (0x2C8B, [0x2C8A]), (0x2C8D, [0x2C8C]), (0x2C8F, [0x2C8E]),
     (0x2C91, [0x2C90]), (0x2C93, [0x2C92]), (0x2C95, [0x2C94]), (0x2C97, [0x2C96]),
     (0x2C99, [0x2C98]), (0x2C9B, [0x2C9A]), (0x2C9D, [0x2C9C]), (0x2C9F, [0x2C9E]),
     (0x2CA1, [0x2CA0]), (0x2CA3, [0x2CA2]), (0x2CA5, [0x2CA4]), (0x2CA7, [0x2CA6]),
     (0x2CA9, [0x2CA8]), (0x2CAB, [0x2CAA]), (0x2CAD, [0x2CAC]), (0x2CAF, [0x2CAE]),
     (0x2CB1, [0x2CB0]), (0x2CB3, [0x2CB2]), (0x2CB5, [0x2CB4]), (0x2CB7, [0x2CB6]),
     (0x2CB9, [0x2CB8]), (0x2CBB, [0x2CBA]), (0x2CBD, [0x2CBC]), (0x2CBF, [0x2CBE]),
     (0x2CC1, [0x2CC0]), (0x2CC3, [0x2CC2]), (0x2CC5, [0x2CC4]), (0x2CC7, [0x2CC6]),
     (0x2CC9, [0x2CC8]), (0x2CCB, [0x2CCA]), (0x2CCD, [0x2CCC]), (0x2CCF, [0x2CCE]),
     (0x2CD1, [0x2CD0]), (0x2CD3, [0x2CD2]), (0x2CD5, [0x2CD4]), (0x2CD7, [0x2CD6]),
     (0x2CD9, [0x2CD8]), (0x2CDB, [0x2CDA]), (0x2CDD, [0x2CDC]), (0x2CDF, [0x2CDE]),
     (0x2CE1, [0x2CE0]), (0x2CE3, [0x2CE2]), (0x2CEC, [0x2CEB]), (0x2CEE, [0x2CED]),
     (0x2CF3, [0x2CF2]), (0x2D00, [0x10A0]), (0x2D01, [0x10A1]), (0x2D02, [0x10A2]),
     (0x2D03, [0x10A3]), (0x2D04, [0x10A4]), (0x2D05, [0x10A5]), (0x2D06, [0x10A6]),
     (0x2D07, [0x10A7]), (0x2D08, [0x10A8]), (0x2D09, [0x10A9]), (0x2D0A, [0x10AA]),
     (0x2D0B, [0x10AB]), (0x2D0C, [0x10AC]), (0x2D0D, [0x10AD]), (0x2D0E, [0x10AE]),
     (0x2D0F, [0x10AF]), (0x2D10, [0x10B0]), (0x2D11, [0x10B1]), (0x2D12, [0x10B2]),
     (0x2D13, [0x10B3]), (0x2D14, [0x10B4]), (0x2D15, [0x10B5]), (0x2D16, [0x10B6]),
     (0x2D17, [0x10B7]), (0x2D18, [0x10B8]), (0x2D19, [0x10B9]), (0x2D1A, [0x10BA]),
     (0x2D1B, [0x10BB]), (0x2D1C, [0x10BC]), (0x2D1D, [0x10BD]), (0x2D1E, [0x10BE]),
     (0x2D1F, [0x10BF]), (0x2D20, [0x10C0]), (0x2D21, [0x10C1]), (0x2D22, [0x10C2]),
     (0x2D23, [0x10C3]), (0x2D24, [0x10C4]), (0x2D25, [0x10C5]), (0x2D27, [0x10C7]),
     (0x2D2D, [0x10CD]), (0xA641, [0xA640]), (0xA643, [0xA642]), (0xA645, [0xA644]),
     (0xA647, [0xA646]), (0xA649, [0xA648]), (0xA64B, [0xA64A]), (0xA64D, [0xA64C]),
     (0xA64F, [0xA64E]), (0xA651, [0xA650]), (0xA653, [0xA652]), (0xA655, [0xA654]),
     (0xA657, [0xA656]), (0xA659, [0xA658]), (0xA65B, [0xA65A]), (0xA65D, [0xA65C]),
     (0xA65F, [0xA65E]), (0xA661, [0xA660]), (0xA663, [0xA662]), (0xA665, [0xA664]),
     (0xA667, [0xA666]), (0xA669, [0xA668]), (0xA66B, [0xA66A]), (0xA66D, [0xA66C]),
     (0xA681, [0xA680]), (0xA683, [0xA682]), (0xA685, [0xA684]), (0xA687, [0xA686]),
     (0xA689, [0xA688]), (0xA68B, [0xA68A]), (0xA68D, [0xA68C]), (0xA68F, [0xA68E]),
     (0xA691, [0xA690]), (0xA693, [0xA692]), (0xA695, [0xA694]), (0xA697, [0xA696]),
     (0xA699, [0xA698]), (0xA69B, [0xA69A]), (0xA723, [0xA722]), (0xA725, [0xA724]),
     (0xA727, [0xA726]), (0xA729, [0xA728]), (0xA72B, [0xA72A]), (0xA72D, [0xA72C]),
     (0xA72F, [0xA72E]), (0xA733, [0xA732]), (0xA735, [0xA734]), (0xA737, [0xA736]),
     (0xA739, [0xA738]), (0xA73B, [0xA73A]), (0xA73D, [0xA73C]), (0xA73F, [0xA73E]),
     (0xA741, [0xA740]), (0xA743, [0xA742]), (0xA745, [0xA744]), (0xA747, [0xA746]),
     (0xA749, [0xA748]), (0xA74B, [0xA74A]), (0xA74D, [0xA74C]), (0xA74F, [0xA74E]),
     (0xA751, [0xA750]), (0xA753, [0xA752]), (0xA755, [0xA754]), (0xA757, [0xA756]),
     (0xA759, [0xA758]), (0xA75B, [0xA75A]), (0xA75D, [0xA75C]), (0xA75F, [0xA75E]),
     (0xA761, [0xA760]), (0xA763, [0xA762]), (0xA765, [0xA764]), (0xA767, [0xA766]),
     (0xA769, [0xA768]), (0xA76B, [0xA76A]), (0xA76D, [0xA76C]), (0xA76F, [0xA76E]),
     (0xA77A, [0xA779]), (0xA77C, [0xA77B]), (0xA77F, [0xA77E]), (0xA781, [0xA780]),
     (0xA783, [0xA782]), (0xA785, [0xA784]), (0xA787, [0xA786]), (0xA78C, [0xA78B]),
     (0xA791, [0xA790]), (0xA793, [0xA792]), (0xA794, [0xA7C4]), (0xA797, [0xA796]),
     (0xA799, [0xA798]), (0xA79B, [0xA79A]), (0xA79D, [0xA79C]), (0xA79F, [0xA79E]),
     (0xA7A1, [0xA7A0]), (0xA7A3, [0xA7A2]), (0xA7A5, [0xA7A4]), (0xA7A7, [0xA7A6]),
     (0xA7A9, [0xA7A8]), (0xA7B5, [0xA7B4]), (0xA7B7, [0xA7B6]), (0xA7B9, [0xA7B8]),
     (0xA7BB, [0xA7BA]), (0xA7BD, [0xA7BC]), (0xA7BF, [0xA7BE]), (0xA7C1, [0xA7C0]),
     (0xA7C3, [0xA7C2]), (0xA7C8, [0xA7C7]), (0xA7CA, [0xA7C9]), (0xA7D1, [0xA7D0]),
     (0xA7D7, [0xA7D6]), (0xA7D9, [0xA7D8]), (0xA7F6, [0xA7F5]), (0xAB53, [0xA7B3]),
     (0xAB70, [0x13A0]), (0xAB71, [0x13A1]), (0xAB72, [0x13A2]), (0xAB73, [0x13A3]),
     (0xAB74, [0x13A4]), (0xAB75, [0x13A5]), (0xAB76, [0x13A6]), (0xAB77, [0x13A7]),
     (0xAB78, [0x13A8]), (0xAB79, [0x13A9]), (0xAB7A, [0x13AA]), (0xAB7B, [0x13AB]),
     (0xAB7C, [0x13AC]), (0xAB7D, [0x13AD]), (0xAB7E, [0x13AE]), (0xAB7F, [0x13AF]),
     (0xAB80, [0x13B0]), (0xAB81, [0x13B1]), (0xAB82, [0x13B2]), (0xAB83, [0x13B3]),
     (0xAB84, [0x13B4]), (0xAB85, [0x13B5]), (0xAB86, [0x13B6]), (0xAB87, [0x13B7]),
     (0xAB88, [0x13B8]), (0xAB89, [0x13B9]), (0xAB8A, [0x13BA]), (0xAB8B, [0x13BB]),
     (0xAB8C, [0x13BC]), (0xAB8D, [0x13BD]), (0xAB8E, [0x13BE]), (0xAB8F, [0x13BF]),
     (0xAB90, [0x13C0]), (0xAB91, [0x13C1]), (0xAB92, [0x13C2]), (0xAB93, [0x13C3]),
     (0xAB94, [0x13C4]), (0xAB95, [0x13C5]), (0xAB96, [0x13C6]), (0xAB97, [0x13C7]),
     (0xAB98, [0x13C8]), (0xAB99, [0x13C9]), (0xAB9A, [0x13CA]), (0xAB9B, [0x13CB]),
     (0xAB9C, [0x13CC]), (0xAB9D, [0x13CD]), (0xAB9E, [0x13CE]), (0xAB9F, [0x13CF]),
     (0xABA0, [0x13D0]), (0xABA1, [0x13D1]), (0xABA2, [0x13D2]), (0xABA3, [0x13D3]),
     (0xABA4, [0x13D4]), (0xABA5, [0x13D5]), (0xABA6, [0x13D6]), (0xABA7, [0x13D7]),
     (0xABA8, [0x13D8]), (0xABA9, [0x13D9]), (0xABAA, [0x13DA]), (0xABAB, [0x13DB]),
     (0xABAC, [0x13DC]), (0xABAD, [0x13DD]), (0xABAE, [0x13DE]), (0xABAF, [0x13DF]),
     (0xABB0, [0x13E0]), (0xABB1, [0x13E1]), (0xABB2, [0x13E2]), (0xABB3, [0x13E3]),
     (0xABB4, [0x13E4]), (0xABB5, [0x13E5]), (0xABB6, [0x13E6]), (0xABB7, [0x13E7]),
     (0xABB8, [0x13E8]), (0xABB9, [0x13E9]), (0xABBA, [0x13EA]), (0xABBB, [0x13EB]),
     (0xABBC, [0x13EC]), (0xABBD, [0x13ED]), (0xABBE, [0x13EE]), (0xABBF, [0x13EF]),
     (0xFB00, [0x46, 0x46]), (0xFB01, [0x46, 0x49]), (0xFB02, [0x46, 0x4C]),
     (0xFB03, [0x46, 0x46, 0x49]), (0xFB04, [0x46, 0x46, 0x4C]), (0xFB05, [0x53, 0x54]),
     (0xFB06, [0x53, 0x54]), (0xFB13, [0x544, 0x546]), (0xFB14, [0x544, 0x535]),
     (0xFB15, [0x544, 0x53B]), (0xFB16, [0x54E, 0x546]), (0xFB17, [0x544, 0x53D]),
     (0xFF41, [0xFF21]), (0xFF42, [0xFF22]), (0xFF43, [0xFF23]), (0xFF44, [0xFF24]),
     (0xFF45, [0xFF25]), (0xFF46, [0xFF26]), (0xFF47, [0xFF27]), (0xFF48, [0xFF28]),
     (0xFF49, [0xFF29]), (0xFF4A, [0xFF2A]), (0xFF4B, [0xFF2B]), (0xFF4C, [0xFF2C]),
     (0xFF4D, [0xFF2D]), (0xFF4E, [0xFF2E]), (0xFF4F, [0xFF2F]), (0xFF50, [0xFF30]),
     (0xFF51, [0xFF31]), (0xFF52, [0xFF32]), (0xFF53, [0xFF33]), (0xFF54, [0xFF34]),
     (0xFF55, [0xFF35]), (0xFF56, [0xFF36]), (0xFF57, [0xFF37]), (0xFF58, [0xFF38]),
     (0xFF59, [0xFF39]), (0xFF5A, [0xFF3A]), (0x10428, [0x10400]), (0x10429, [0x10401]),
     (0x1042A, [0x10402]), (0x1042B, [0x10403]), (0x1042C, [0x10404]), (0x1042D, [0x10405]),
     (0x1042E, [0x10406]), (0x1042F, [0x10407]), (0x10430, [0x10408]), (0x10431, [0x10409]),
     (0x10432, [0x1040A]), (0x10433, [0x1040B]), (0x10434, [0x1040C]), (0x10435, [0x1040D]),
     (0x10436, [0x1040E]), (0x10437, [0x1040F]), (0x10438, [0x10410]), (0x10439, [0x10411]),
     (0x1043A, [0x10412]), (0x1043B, [0x10413]), (0x1043C, [0x10414]), (0x1043D, [0x10415]),
     (0x1043E, [0x10416]), (0x1043F, [0x10417]), (0x10440, [0x10418]), (0x10441, [0x10419]),
     (0x10442, [0x1041A]), (0x10443, [0x1041B]), (0x10444, [0x1041C]), (0x10445, [0x1041D]),
     (0x10446, [0x1041E]), (0x10447, [0x1041F]), (0x10448, [0x10420]), (0x10449, [0x10421]),
     (0x1044A, [0x10422]), (0x1044B, [0x10423]), (0x1044C, [0x10424]), (0x1044D, [0x10425]),
     (0x1044E, [0x10426]), (0x1044F, [0x10427]), (0x104D8, [0x104B0]), (0x104D9, [0x104B1]),
     (0x104DA, [0x104B2]), (0x104DB, [0x104B3]), (0x104DC, [0x104B4]), (0x104DD, [0x104B5]),
     (0x104DE, [0x104B6]), (0x104DF, [0x104B7]), (0x104E0, [0x104B8]), (0x104E1, [0x104B9]),
     (0x104E2, [0x104BA]), (0x104E3, [0x104BB]), (0x104E4, [0x104BC]), (0x104E5, [0x104BD]),
     (0x104E6, [0x104BE]), (0x104E7, [0x104BF]), (0x104E8, [0x104C0]), (0x104E9, [0x104C1]),
     (0x104EA, [0x104C2]), (0x104EB, [0x104C3]), (0x104EC, [0x104C4]), (0x104ED, [0x104C5]),
     (0x104EE, [0x104C6]), (0x104EF, [0x104C7]), (0x104F0, [0x104C8]), (0x104F1, [0x104C9]),
     (0x104F2, [0x104CA]), (0x104F3, [0x104CB]), (0x104F4, [0x104CC]), (0x104F5, [0x104CD]),
     (0x104F6, [0x104CE]), (0x104F7, [0x104CF]), (0x104F8, [0x104D0]), (0x104F9, [0x104D1]),
     (0x104FA, [0x104D2]), (0x104FB, [0x104D3]), (0x10597, [0x10570]), (0x10598, [0x10571]),
     (0x10599, [0x10572]), (0x1059A, [0x10573]), (0x1059B, [0x10574]), (0x1059C, [0x10575]),
     (0x1059D, [0x10576]), (0x1059E, [0x10577]), (0x1059F, [0x10578]), (0x105A0, [0x10579]),
     (0x105A1, [0x1057A]), (0x105A3, [0x1057C]), (0x105A4, [0x1057D]), (0x105A5, [0x1057E]),
     (0x105A6, [0x1057F]), (0x105A7, [0x10580]), (0x105A8, [0x10581]), (0x105A9, [0x10582]),
     (0x105AA, [0x10583]), (0x105AB, [0x10584]), (0x105AC, [0x10585]), (0x105AD, [0x10586]),
     (0x105AE, [0x10587]), (0x105AF, [0x10588]), (0x105B0, [0x10589]), (0x105B1, [0x1058A]),
     (0x105B3, [0x1058C]), (0x105B4, [0x1058D]), (0x105B5, [0x1058E]), (0x105B6, [0x1058F]),
     (0x105B7, [0x10590]), (0x105B8, [0x10591]), (0x105B9, [0x10592]), (0x105BB, [0x10594]),
     (0x105BC, [0x10595]), (0x10CC0, [0x10C80]), (0x10CC1, [0x10C81]), (0x10CC2, [0x10C82]),
     (0x10CC3, [0x10C83]), (0x10CC4, [0x10C84]), (0x10CC5, [0x10C85]), (0x10CC6, [0x10C86]),
     (0x10CC7, [0x10C87]), (0x10CC8, [0x10C88]), (0x10CC9, [0x10C89]), (0x10CCA, [0x10C8A]),
     (0x10CCB, [0x10C8B]), (0x10CCC, [0x10C8C]), (0x10CCD, [0x10C8D]), (0x10CCE, [0x10C8E]),
     (0x10CCF, [0x10C8F]), (0x10CD0, [0x10C90]), (0x10CD1, [0x10C91]), (0x10CD2, [0x10C92]),
     (0x10CD3, [0x10C93]), (0x10CD4, [0x10C94]), (0x10CD5, [0x10C95]), (0x10CD6, [0x10C96]),
     (0x10CD7, [0x10C97]), (0x10CD8, [0x10C98]), (0x10CD9, [0x10C99]), (0x10CDA, [0x10C9A]),
     (0x10CDB, [0x10C9B]), (0x10CDC, [0x10C9C]), (0x10CDD, [0x10C9D]), (0x10CDE, [0x10C9E]),
     (0x10CDF, [0x10C9F]), (0x10CE0, [0x10CA0]), (0x10CE1, [0x10CA1]), (0x10CE2, [0x10CA2]),
     (0x10CE3, [0x10CA3]), (0x10CE4, [0x10CA4]), (0x10CE5, [0x10CA5]), (0x10CE6, [0x10CA6]),
     (0x10CE7, [0x10CA7]), (0x10CE8, [0x10CA8]), (0x10CE9, [0x10CA9]), (0x10CEA, [0x10CAA]),
     (0x10CEB, [0x10CAB]), (0x10CEC, [0x10CAC]), (0x10CED, [0x10CAD]), (0x10CEE, [0x10CAE]),
     (0x10CEF, [0x10CAF]), (0x10CF0, [0x10CB0]), (0x10CF1, [0x10CB1]), (0x10CF2, [0x10CB2]),
     (0x118C0, [0x118A0]), (0x118C1, [0x118A1]), (0x118C2, [0x118A2]), (0x118C3, [0x118A3]),
     (0x118C4, [0x118A4]), (0x118C5, [0x118A5]), (0x118C6, [0x118A6]), (0x118C7, [0x118A7]),
     (0x118C8, [0x118A8]), (0x118C9, [0x118A9]), (0x118CA, [0x118AA]), (0x118CB, [0x118AB]),
     (0x118CC, [0x118AC]), (0x118CD, [0x118AD]), (0x118CE, [0x118AE]), (0x118CF, [0x118AF]),
     (0x118D0, [0x118B0]), (0x118D1, [0x118B1]), (0x118D2, [0x118B2]), (0x118D3, [0x118B3]),
     (0x118D4, [0x118B4]), (0x118D5, [0x118B5]), (0x118D6, [0x118B6]), (0x118D7, [0x118B7]),
     (0x118D8, [0x118B8]), (0x118D9, [0x118B9]), (0x118DA, [0x118BA]), (0x118DB, [0x118BB]),
     (0x118DC, [0x118BC]), (0x118DD, [0x118BD]), (0x118DE, [0x118BE]), (0x118DF, [0x118BF]),
     (0x16E60, [0x16E40]), (0x16E61, [0x16E41]), (0x16E62, [0x16E42]), (0x16E63, [0x16E43]),
     (0x16E64, [0x16E44]), (0x16E65, [0x16E45]), (0x16E66, [0x16E46]), (0x16E67, [0x16E47]),
     (0x16E68, [0x16E48]), (0x16E69, [0x16E49]), (0x16E6A, [0x16E4A]), (0x16E6B, [0x16E4B]),
     (0x16E6C, [0x16E4C]), (0x16E6D, [0x16E4D]), (0x16E6E, [0x16E4E]), (0x16E6F, [0x16E4F]),
     (0x16E70, [0x16E50]), (0x16E71, [0x16E51]), (0x16E72, [0x16E52]), (0x16E73, [0x16E53]),
     (0x16E74, [0x16E54]), (0x16E75, [0x16E55]), (0x16E76, [0x16E56]), (0x16E77, [0x16E57]),
     (0x16E78, [0x16E58]), (0x16E79, [0x16E59]), (0x16E7A, [0x16E5A]), (0x16E7B, [0x16E5B]),
     (0x16E7C, [0x16E5C]), (0x16E7D, [0x16E5D]), (0x16E7E, [0x16E5E]), (0x16E7F, [0x16E5F]),
     (0x1E922, [0x1E900]), (0x1E923, [0x1E901]), (0x1E924, [0x1E902]), (0x1E925, [0x1E903]),
     (0x1E926, [0x1E904]), (0x1E927, [0x1E905]), (0x1E928, [0x1E906]), (0x1E929, [0x1E907]),
     (0x1E92A, [0x1E908]), (0x1E92B, [0x1E909]), (0x1E92C, [0x1E90A]), (0x1E92D, [0x1E90B]),
     (0x1E92E, [0x1E90C]), (0x1E92F, [0x1E90D]), (0x1E930, [0x1E90E]), (0x1E931, [0x1E90F]),
     (0x1E932, [0x1E910]), (0x1E933, [0x1E911]), (0x1E934, [0x1E912]), (0x1E935, [0x1E913]),
     (0x1E936, [0x1E914]), (0x1E937, [0x1E915]), (0x1E938, [0x1E916]), (0x1E939, [0x1E917]),
     (0x1E93A, [0x1E918]), (0x1E93B, [0x1E919]), (0x1E93C, [0x1E91A]), (0x1E93D, [0x1E91B]),
     (0x1E93E, [0x1E91C]), (0x1E93F, [0x1E91D]), (0x1E940, [0x1E91E]), (0x1E941, [0x1E91F]),
     (0x1E942, [0x1E920]), (0x1E943, [0x1E921])]"

definition upper_char :: "pychar \<Rightarrow> pystr" where
  "upper_char c = (case map_of UPPER_TABLE c of None \<Rightarrow> [c] | Some u \<Rightarrow> u)"

definition upper :: "pystr \<Rightarrow> pystr" where
  "upper s = concat (map upper_char s)"

text \<open>\<open>k in d\<close> and \<open>d.get(k, default)\<close> for a dict kept as an association list in
  insertion order.\<close>

definition in_dict :: "'k \<Rightarrow> ('k \<times> 'v) list \<Rightarrow> bool" where
  "in_dict k d = (map_of d k \<noteq> None)"

definition dict_get :: "('k \<times> 'v) list \<Rightarrow> 'k \<Rightarrow> 'v \<Rightarrow> 'v" where
  "dict_get d k dflt = (case map_of d k of None \<Rightarrow> dflt | Some v \<Rightarrow> v)"

text \<open>The slice \<open>s[i:j]\<close> for \<open>0 \<le> i\<close>: it never raises, and is cut at the end of \<open>s\<close>.\<close>

definition slice :: "'a list \<Rightarrow> nat \<Rightarrow> nat \<Rightarrow> 'a list" where
  "slice s i j = take (j - i) (drop i s)"

subsection \<open>Floating point\<close>

text \<open>
  A Python \<open>float\<close> is an IEEE 754 binary64 number. A finite one is modelled by the
  rational number it denotes, and every arithmetic operation rounds the exact result
  to the nearest number with a 53-bit significand, ties to even (\<open>fl\<close>). The exponent
  range is not modelled: the operands in DNA.py are counts and lengths of a string held
  in memory and small constants, far from overflow and underflow. \<open>float('inf')\<close> is
  \<open>PosInf\<close>.
\<close>

type_synonym float64 = rat

datatype pyfloat = Finite float64 | PosInf

definition round_half_even :: "rat \<Rightarrow> int" where
  "round_half_even x =
     (let f = \<lfloor>x\<rfloor>; r = x - of_int f
      in if r < 1 / 2 then f
         else if 1 / 2 < r then f + 1
         else if even f then f else f + 1)"

text \<open>For \<open>x > 0\<close>, the integer \<open>e\<close> with \<open>2 powi e \<le> x < 2 powi (e + 1)\<close>.\<close>

definition ilog2 :: "rat \<Rightarrow> int" where
  "ilog2 x =
     (let (p, q) = quotient_of x; d = bitlen p - bitlen q
      in if 2 powi d \<le> x then d else d - 1)"

definition fl :: "rat \<Rightarrow> float64" where
  "fl x =
     (if x = 0 then 0
      else let e = ilog2 \<bar>x\<bar> - 52
           in sgn x * of_int (round_half_even (\<bar>x\<bar> / 2 powi e)) * 2 powi e)"

text \<open>\<open>a / b\<close> on two ints (true division), \<open>x * k\<close> and \<open>k * x\<close> with an int \<open>k\<close>
  converted to float, and \<open>x / y\<close> on floats.\<close>

definition int_truediv :: "nat \<Rightarrow> nat \<Rightarrow> py_error + float64" where
  "int_truediv a b =
     (if b = 0 then Inl ZeroDivisionError else Inr (fl (of_nat a / of_nat b)))"

definition float_of_int :: "nat \<Rightarrow> float64" where
  "float_of_int k = fl (of_nat k)"

definition float_mul :: "float64 \<Rightarrow> float64 \<Rightarrow> float64" where
  "float_mul x y = fl (x * y)"

definition float_add :: "float64 \<Rightarrow> float64 \<Rightarrow> float64" where
  "float_add x y = fl (x + y)"

definition float_truediv :: "float64 \<Rightarrow> float64 \<Rightarrow> py_error + float64" where
  "float_truediv x y = (if y = 0 then Inl ZeroDivisionError else Inr (fl (x / y)))"

section \<open>Constants\<close>

definition BASE_NOTE_MAP :: "(pychar \<times> nat) list" where
  "BASE_NOTE_MAP =
     [(of_char (CHR ''A''), 60), (of_char (CHR ''T''), 62),
      (of_char (CHR ''C''), 64), (of_char (CHR ''G''), 67)]"

text \<open>The em dash and the en dash of the meanings are written as their UTF-8 bytes.\<close>

definition em_dash :: string where
  "em_dash = [CHR 0xE2, CHR 0x80, CHR 0x94]"

definition en_dash :: string where
  "en_dash = [CHR 0xE2, CHR 0x80, CHR 0x93]"

definition DNA_MEANINGS :: "(string \<times> string) list" where
  "DNA_MEANINGS =
    [(''TATAAA'', ''TATA box (variant: TATAAA) '' @ em_dash @ '' promoter element near TSS.''),
     (''TATATA'', ''TATA box (variant: TATATA) '' @ em_dash @ '' promoter element near TSS.''),
     (''TATATT'', ''TATA box (variant: TATATT) '' @ em_dash @ '' promoter element near TSS.''),
     (''TATAAT'', ''TATA box (variant: TATAAT) '' @ em_dash @ '' promoter element near TSS.''),
     (''TATGAA'', ''TATA-like box (variant: TATGAA) '' @ em_dash @ '' promoter element near TSS.''),
     (''CAAT'', ''CAAT box '' @ em_dash @ '' TF-binding site (often ~50'' @ en_dash
        @ ''200 bp upstream of TSS).''),
     (''CCAAT'', ''CAAT box (CCAAT) '' @ em_dash @ '' TF-binding site (~50'' @ en_dash
        @ ''200 bp upstream of TSS).''),
     (''CAATT'', ''CAAT box (CAATT) '' @ em_dash @ '' TF-binding site (~50'' @ en_dash
        @ ''200 bp upstream of TSS).''),
     (''CCATT'', ''CAAT box (CCATT) '' @ em_dash @ '' TF-binding site (~50'' @ en_dash
        @ ''200 bp upstream of TSS).''),
     (''GGGCGG'', ''GC box (GGGCGG) '' @ em_dash @ '' GC-rich TF-binding site.''),
     (''GGGAGG'', ''GC box (GGGAGG) '' @ em_dash @ '' GC-rich TF-binding site.''),
     (''GGGCCG'', ''GC box (GGGCCG) '' @ em_dash @ '' GC-rich TF-binding site.''),
     (''GCGGGG'', ''GC box (GCGGGG) '' @ em_dash @ '' GC-rich TF-binding site.''),
     (''GAATTC'', ''EcoRI restriction site (GAATTC).''),
     (''GGATCC'', ''BamHI restriction site (GGATCC).''),
     (''AAGCTT'', ''HindIII restriction site (AAGCTT).''),
     (''CTGCAG'', ''PstI restriction site (CTGCAG).''),
     (''CCCGGG'', ''SmaI restriction site (CCCGGG).''),
     (''GCGGCCGC'', ''NotI restriction site (GCGGCCGC).''),
     (''TCTAGA'', ''XbaI restriction site (TCTAGA).''),
     (''GCTAGC'', ''NheI restriction site (GCTAGC).''),
     (''GGTACC'', ''KpnI restriction site (GGTACC).''),
     (''GAGCTC'', ''SacI restriction site (GAGCTC).'')]"

definition STOP_CODONS :: "string set" where
  "STOP_CODONS = {''TAA'', ''TAG'', ''TGA''}"

definition AVG_NT_DA :: float64 where
  "AVG_NT_DA = 330"

section \<open>clean_dna\<close>

definition clean_dna :: "pystr \<Rightarrow> pystr" where
  "clean_dna raw = (let s = upper raw in filter (\<lambda>c. in_dict c BASE_NOTE_MAP) s)"

section \<open>base_counts_and_stats\<close>

text \<open>\<open>Counter(dna)\<close>: a dict from each character that occurs to its number of
  occurrences, in the order of first occurrence.\<close>

fun counter_add :: "'a \<Rightarrow> ('a \<times> nat) list \<Rightarrow> ('a \<times> nat) list" where
  "counter_add c [] = [(c, 1)]"
| "counter_add c ((k, v) # d) = (if k = c then (k, v + 1) # d else (k, v) # counter_add c d)"

definition Counter :: "'a list \<Rightarrow> ('a \<times> nat) list" where
  "Counter xs = fold counter_add xs []"

record stats =
  counts :: "(char \<times> nat) list"
  total :: nat
  gc_percent :: float64
  at_percent :: float64
  at_gc_ratio :: pyfloat
  mw_da :: float64
  mw_kda :: float64

definition base_counts_and_stats :: "string \<Rightarrow> py_error + stats" where
  "base_counts_and_stats dna =
     (let cnts = Counter dna;
          tot = (if dna \<noteq> [] then length dna else 1);
          gc_cnt = dict_get cnts (CHR ''G'') 0 + dict_get cnts (CHR ''C'') 0;
          at_cnt = dict_get cnts (CHR ''A'') 0 + dict_get cnts (CHR ''T'') 0
      in bind_err (int_truediv gc_cnt tot) (\<lambda>gc_frac.
         let gc_pct = float_mul gc_frac (float_of_int 100)
         in bind_err (int_truediv at_cnt tot) (\<lambda>at_frac.
         let at_pct = float_mul at_frac (float_of_int 100)
         in bind_err (if gc_cnt > 0 then map_sum id Finite (int_truediv at_cnt gc_cnt)
                      else Inr PosInf) (\<lambda>ratio.
         let da = float_mul (float_of_int (length dna)) AVG_NT_DA
         in bind_err (float_truediv da 1000) (\<lambda>kda.
         Inr \<lparr>counts = cnts, total = length dna, gc_percent = gc_pct,
              at_percent = at_pct, at_gc_ratio = ratio, mw_da = da, mw_kda = kda\<rparr>)))))"

section \<open>find_motifs\<close>

text \<open>\<open>s.find(sub, start)\<close> for \<open>start \<ge> 0\<close>: the lowest index \<open>i \<ge> start\<close> with
  \<open>s[i:i+len(sub)] == sub\<close>; \<open>None\<close> stands for \<open>-1\<close>.\<close>

function py_find :: "string \<Rightarrow> string \<Rightarrow> nat \<Rightarrow> nat option" where
  "py_find s sub st =
     (if length s < st then None
      else if slice s st (st + length sub) = sub then Some st
      else py_find s sub (st + 1))"
  by pat_completeness auto
termination
  by (relation "measure (\<lambda>(s, sub, st). length s + 1 - st)") auto

declare py_find.simps [simp del]

lemma py_find_bounds: "py_find s sub st = Some i \<Longrightarrow> st \<le> i \<and> i \<le> length s"
proof (induction s sub st rule: py_find.induct)
  case (1 s sub st)
  then show ?case
    by (subst (asm) (2) py_find.simps) (auto split: if_splits)
qed

record motif_entry =
  motif :: string
  start :: nat
  meaning :: string

text \<open>The \<open>while True\<close> loop for one motif; \<open>found\<close> is the list being appended to.\<close>

function motif_loop ::
  "string \<Rightarrow> string \<Rightarrow> string \<Rightarrow> nat \<Rightarrow> motif_entry list \<Rightarrow> motif_entry list" where
  "motif_loop dna m mg st found =
     (case py_find dna m st of
        None \<Rightarrow> found
      | Some idx \<Rightarrow>
          motif_loop dna m mg (idx + 1)
            (found @ [\<lparr>motif = m, start = idx + 1, meaning = mg\<rparr>]))"
  by pat_completeness auto
termination
proof (relation "measure (\<lambda>(dna, m, mg, st, found). length dna + 1 - st)")
  show "wf (measure (\<lambda>(dna, m, mg, st, found). length dna + 1 - st))"
    by simp
next
  fix dna m mg :: string and st idx :: nat and found :: "motif_entry list"
  assume "py_find dna m st = Some idx"
  then have "st \<le> idx \<and> idx \<le> length dna"
    by (rule py_find_bounds)
  then show "((dna, m, mg, idx + 1, found @ [\<lparr>motif = m, start = idx + 1, meaning = mg\<rparr>]),
              (dna, m, mg, st, found))
             \<in> measure (\<lambda>(dna, m, mg, st, found). length dna + 1 - st)"
    by (simp, arith)
qed

declare motif_loop.simps [simp del]

text \<open>The list \<open>found\<close> after the \<open>for\<close> loop over the items of the table.\<close>

definition found_motifs :: "string \<Rightarrow> (string \<times> string) list \<Rightarrow> motif_entry list" where
  "found_motifs dna motifs = fold (\<lambda>(m, mg) found. motif_loop dna m mg 0 found) motifs []"

text \<open>\<open>sorted(found, key=...)\<close> is a stable sort, as \<^const>\<open>sort_key\<close> is.\<close>

definition find_motifs :: "string \<Rightarrow> (string \<times> string) list \<Rightarrow> motif_entry list" where
  "find_motifs dna motifs = sort_key start (found_motifs dna motifs)"

section \<open>find_orfs_all_frames\<close>

text \<open>The dict keys \<open>start\<close> and \<open>end\<close> of an ORF entry are the fields \<open>orf_start\<close> and
  \<open>orf_end\<close>.\<close>

record orf =
  frame :: nat
  orf_start :: nat
  orf_end :: nat
  length_nt :: nat
  length_aa :: nat

text \<open>The inner \<open>while j + 3 <= n\<close> loop: it appends one entry and breaks at the first
  stop codon, or runs off the end and appends nothing. In it \<open>i \<le> j\<close>, so the
  subtraction is the one on integers.\<close>

function inner_loop :: "string \<Rightarrow> nat \<Rightarrow> nat \<Rightarrow> nat \<Rightarrow> nat \<Rightarrow> orf list \<Rightarrow> orf list" where
  "inner_loop dna n frm i j orfs =
     (if j + 3 \<le> n then
        (let cod = slice dna j (j + 3)
         in if cod \<in> STOP_CODONS then
              (let len_nt = (j + 3) - i;
                   len_aa = len_nt div 3
               in orfs @ [\<lparr>frame = frm, orf_start = i + 1, orf_end = j + 3,
                           length_nt = len_nt, length_aa = len_aa\<rparr>])
            else inner_loop dna n frm i (j + 3) orfs)
      else orfs)"
  by pat_completeness auto
termination
  by (relation "measure (\<lambda>(dna, n, frm, i, j, orfs). n + 3 - j)") auto

declare inner_loop.simps [simp del]

text \<open>The outer \<open>while i + 3 <= n\<close> loop of one frame.\<close>

function outer_loop :: "string \<Rightarrow> nat \<Rightarrow> nat \<Rightarrow> nat \<Rightarrow> orf list \<Rightarrow> orf list" where
  "outer_loop dna n frm i orfs =
     (if i + 3 \<le> n then
        (let codon = slice dna i (i + 3)
         in if codon = ''ATG'' then outer_loop dna n frm (i + 3) (inner_loop dna n frm i i orfs)
            else outer_loop dna n frm (i + 3) orfs)
      else orfs)"
  by pat_completeness auto
termination
  by (relation "measure (\<lambda>(dna, n, frm, i, orfs). n + 3 - i)") auto

declare outer_loop.simps [simp del]

definition find_orfs_all_frames :: "string \<Rightarrow> orf list" where
  "find_orfs_all_frames dna =
     (let n = length dna
      in fold (\<lambda>frm orfs. outer_loop dna n frm frm orfs) [0..<3] [])"

section \<open>summarize_orfs\<close>

text \<open>\<open>str(k)\<close> for an int \<open>k \<ge> 0\<close>.\<close>

definition digit_char :: "nat \<Rightarrow> char" where
  "digit_char d = char_of (48 + d)"

function str_nat :: "nat \<Rightarrow> string" where
  "str_nat k = (if k < 10 then [digit_char k] else str_nat (k div 10) @ [digit_char (k mod 10)])"
  by pat_completeness auto
termination
  by (relation "measure id") auto

declare str_nat.simps [simp del]

text \<open>\<open>max(xs, key=f)\<close>: the first item whose key is maximal; \<open>ValueError\<close> on an empty
  list.\<close>

fun max_key :: "('a \<Rightarrow> nat) \<Rightarrow> 'a list \<Rightarrow> py_error + 'a" where
  "max_key f [] = Inl ValueError"
| "max_key f (x # xs) = Inr (fold (\<lambda>item best. if f best < f item then item else best) xs x)"

definition summary_text :: "nat \<Rightarrow> orf \<Rightarrow> string" where
  "summary_text cnt longest =
     ''Total ORFs: '' @ str_nat cnt @ [CHR 0x0A]
     @ ''Longest ORF: frame '' @ str_nat (frame longest)
     @ '' start '' @ str_nat (orf_start longest)
     @ '' end '' @ str_nat (orf_end longest)
     @ '' ('' @ str_nat (length_nt longest) @ '' nt / '' @ str_nat (length_aa longest) @ '' aa)''"

definition summarize_orfs :: "orf list \<Rightarrow> py_error + string" where
  "summarize_orfs orfs =
     (if orfs = [] then Inr ''No ORFs found.''
      else bind_err (max_key length_nt orfs) (\<lambda>longest.
             Inr (summary_text (length orfs) longest)))"

section \<open>Notions used in the proofs\<close>

text \<open>These are not functions of DNA.py. \<open>increasing_from a xs\<close> says that
  \<open>a\<close> followed by \<open>xs\<close> is strictly increasing.\<close>

fun increasing_from :: "nat \<Rightarrow> nat list \<Rightarrow> bool" where
  "increasing_from a [] = True"
| "increasing_from a (x # xs) = (a < x \<and> increasing_from x xs)"

text \<open>\<open>occurs_at s sub k\<close> says that
  \<open>s[k:k+len(sub)] == sub\<close> with the slice inside \<open>s\<close>, and \<open>mk_entry\<close> is the
  entry that \<open>find_motifs\<close> appends for a match at index \<open>k\<close>.\<close>

definition occurs_at :: "string \<Rightarrow> string \<Rightarrow> nat \<Rightarrow> bool" where
  "occurs_at s sub k = (k + length sub \<le> length s \<and> slice s k (k + length sub) = sub)"

definition mk_entry :: "string \<Rightarrow> string \<Rightarrow> nat \<Rightarrow> motif_entry" where
  "mk_entry m mg k = \<lparr>motif = m, start = k + 1, meaning = mg\<rparr>"

text \<open>\<open>stop_at dna j\<close> says that the codon at index \<open>j\<close> is a stop codon;
  \<open>mk_orf\<close> is the entry appended for a start codon at \<open>i\<close> and a stop codon at
  \<open>j\<close>; \<open>orf_at\<close> is what the outer loop appends at index \<open>i\<close>;
  \<open>codon_starts n i\<close> lists the indices the outer loop visits from \<open>i\<close> on; and
  \<open>frame_orfs\<close> lists the entries of one frame.\<close>

definition stop_at :: "string \<Rightarrow> nat \<Rightarrow> bool" where
  "stop_at dna j = (slice dna j (j + 3) \<in> STOP_CODONS)"

definition mk_orf :: "nat \<Rightarrow> nat \<Rightarrow> nat \<Rightarrow> orf" where
  "mk_orf frm i j =
     \<lparr>frame = frm, orf_start = i + 1, orf_end = j + 3,
      length_nt = (j + 3) - i, length_aa = ((j + 3) - i) div 3\<rparr>"

definition orf_at :: "string \<Rightarrow> nat \<Rightarrow> nat \<Rightarrow> nat \<Rightarrow> orf list" where
  "orf_at dna n frm i = (if slice dna i (i + 3) = ''ATG'' then inner_loop dna n frm i i [] else [])"

function codon_starts :: "nat \<Rightarrow> nat \<Rightarrow> nat list" where
  "codon_starts n i = (if i + 3 \<le> n then i # codon_starts n (i + 3) else [])"
  by pat_completeness auto
termination
  by (relation "measure (\<lambda>(n, i). n + 3 - i)") auto

declare codon_starts.simps [simp del]

definition frame_orfs :: "string \<Rightarrow> nat \<Rightarrow> nat \<Rightarrow> orf list" where
  "frame_orfs dna n frm = concat (map (orf_at dna n frm) (codon_starts n frm))"

section \<open>Properties of clean_dna\<close>

subsection \<open>The upper-case table\<close>

lemma increasing_from_distinct:
  "increasing_from a xs \<Longrightarrow> (\<forall>x \<in> set xs. a < x) \<and> distinct xs"
  by (induction xs arbitrary: a) fastforce+

lemma UPPER_TABLE_increasing: "increasing_from 0 (map fst UPPER_TABLE)"
  by (simp add: UPPER_TABLE_def)

lemma UPPER_TABLE_distinct: "distinct (map fst UPPER_TABLE)"
  using increasing_from_distinct [OF UPPER_TABLE_increasing] by simp

lemma bases_eq: "set (ascii ''ATCG'') = {0x41, 0x54, 0x43, 0x47}"
  by (simp add: ascii_def)

lemma letters_eq:
  "set (ascii ''ATCGatcg'') = {0x41, 0x54, 0x43, 0x47, 0x61, 0x74, 0x63, 0x67}"
  by (simp add: ascii_def)

lemma in_dict_BASE_NOTE_MAP: "in_dict c BASE_NOTE_MAP \<longleftrightarrow> c \<in> set (ascii ''ATCG'')"
  by (auto simp: in_dict_def BASE_NOTE_MAP_def ascii_def)

text \<open>The upper-case letters \<open>A\<close>, \<open>T\<close>, \<open>C\<close>, \<open>G\<close> are not changed.\<close>

lemma upper_char_base: "c \<in> set (ascii ''ATCG'') \<Longrightarrow> upper_char c = [c]"
proof -
  assume "c \<in> set (ascii ''ATCG'')"
  then have c: "c = 0x41 \<or> c = 0x54 \<or> c = 0x43 \<or> c = 0x47"
    by (simp add: bases_eq)
  have "0x41 \<notin> set (map fst UPPER_TABLE)" "0x54 \<notin> set (map fst UPPER_TABLE)"
    "0x43 \<notin> set (map fst UPPER_TABLE)" "0x47 \<notin> set (map fst UPPER_TABLE)"
    by (simp_all add: UPPER_TABLE_def)
  with c have "c \<notin> set (map fst UPPER_TABLE)"
    by blast
  then have "c \<notin> fst ` set UPPER_TABLE"
    by simp
  then have "map_of UPPER_TABLE c = None"
    by (rule map_of_eq_None_iff [THEN iffD2])
  then show ?thesis
    by (simp add: upper_char_def)
qed

text \<open>The eight other code points whose upper-case form contains one of the four
  letters: \<open>a\<close>, \<open>t\<close>, \<open>c\<close>, \<open>g\<close>, and U+1E97, U+1E9A, U+FB05, U+FB06.\<close>

lemma upper_char_lower:
  "upper_char 0x61 = [0x41]" "upper_char 0x74 = [0x54]"
  "upper_char 0x63 = [0x43]" "upper_char 0x67 = [0x47]"
proof -
  have "map_of UPPER_TABLE 0x61 = Some [0x41]" "map_of UPPER_TABLE 0x74 = Some [0x54]"
    "map_of UPPER_TABLE 0x63 = Some [0x43]" "map_of UPPER_TABLE 0x67 = Some [0x47]"
    by (rule map_of_is_SomeI [OF UPPER_TABLE_distinct], simp add: UPPER_TABLE_def)+
  then show "upper_char 0x61 = [0x41]" "upper_char 0x74 = [0x54]"
    "upper_char 0x63 = [0x43]" "upper_char 0x67 = [0x47]"
    by (simp_all add: upper_char_def)
qed

lemma upper_char_special:
  "upper_char 0x1E97 = [0x54, 0x308]" "upper_char 0x1E9A = [0x41, 0x2BE]"
  "upper_char 0xFB05 = [0x53, 0x54]" "upper_char 0xFB06 = [0x53, 0x54]"
proof -
  have "map_of UPPER_TABLE 0x1E97 = Some [0x54, 0x308]"
    "map_of UPPER_TABLE 0x1E9A = Some [0x41, 0x2BE]"
    "map_of UPPER_TABLE 0xFB05 = Some [0x53, 0x54]"
    "map_of UPPER_TABLE 0xFB06 = Some [0x53, 0x54]"
    by (rule map_of_is_SomeI [OF UPPER_TABLE_distinct], simp add: UPPER_TABLE_def)+
  then show "upper_char 0x1E97 = [0x54, 0x308]" "upper_char 0x1E9A = [0x41, 0x2BE]"
    "upper_char 0xFB05 = [0x53, 0x54]" "upper_char 0xFB06 = [0x53, 0x54]"
    by (simp_all add: upper_char_def)
qed

text \<open>No other entry of the table has one of the four letters in its upper-case form.\<close>

lemma UPPER_TABLE_other:
  "list_all (\<lambda>(k, v). k \<in> {0x61, 0x74, 0x63, 0x67, 0x1E97, 0x1E9A, 0xFB05, 0xFB06}
     \<or> list_all (\<lambda>x. x \<notin> {0x41, 0x54, 0x43, 0x47}) v) UPPER_TABLE"
  by (simp add: UPPER_TABLE_def)

lemma upper_char_other:
  assumes "c \<notin> {0x41, 0x54, 0x43, 0x47, 0x61, 0x74, 0x63, 0x67, 0x1E97, 0x1E9A, 0xFB05, 0xFB06}"
  shows "filter (\<lambda>x. x \<in> set (ascii ''ATCG'')) (upper_char c) = []"
proof (cases "map_of UPPER_TABLE c")
  case None
  then have "upper_char c = [c]"
    by (simp add: upper_char_def)
  with assms show ?thesis
    by (simp add: bases_eq)
next
  case (Some v)
  then have "(c, v) \<in> set UPPER_TABLE"
    by (rule map_of_SomeD)
  with UPPER_TABLE_other
  have "c \<in> {0x61, 0x74, 0x63, 0x67, 0x1E97, 0x1E9A, 0xFB05, 0xFB06}
        \<or> list_all (\<lambda>x. x \<notin> {0x41, 0x54, 0x43, 0x47}) v"
    unfolding list_all_iff by blast
  with assms have "\<forall>x \<in> set v. x \<notin> {0x41, 0x54, 0x43, 0x47}"
    unfolding list_all_iff by blast
  then have "filter (\<lambda>x. x \<in> set (ascii ''ATCG'')) v = []"
    by (simp add: filter_empty_conv bases_eq)
  with Some show ?thesis
    by (simp add: upper_char_def)
qed

subsection \<open>What each character of the input contributes\<close>

lemma clean_dna_filter:
  "clean_dna raw = filter (\<lambda>c. c \<in> set (ascii ''ATCG'')) (upper raw)"
  by (simp add: clean_dna_def in_dict_BASE_NOTE_MAP)

lemma filter_upper_char:
  "filter (\<lambda>x. x \<in> set (ascii ''ATCG'')) (upper_char c) =
     (if c \<in> set (ascii ''ATCGatcg'') then upper_char c
      else if c = 0x1E97 \<or> c = 0xFB05 \<or> c = 0xFB06 then ascii ''T''
      else if c = 0x1E9A then ascii ''A''
      else [])"
proof (cases "c \<in> {0x41, 0x54, 0x43, 0x47, 0x61, 0x74, 0x63, 0x67,
                     0x1E97, 0x1E9A, 0xFB05, 0xFB06}")
  case False
  then have "c \<notin> set (ascii ''ATCGatcg'')"
    by (simp add: letters_eq)
  with False upper_char_other [OF False] show ?thesis
    by simp
next
  case True
  then consider "c \<in> set (ascii ''ATCG'')" | "c = 0x61" | "c = 0x74" | "c = 0x63" | "c = 0x67"
    | "c = 0x1E97" | "c = 0x1E9A" | "c = 0xFB05" | "c = 0xFB06"
    by (auto simp: bases_eq)
  then show ?thesis
  proof cases
    case 1
    then have "c \<in> set (ascii ''ATCGatcg'')"
      by (auto simp: bases_eq letters_eq)
    with 1 show ?thesis
      by (simp add: upper_char_base)
  qed (simp_all add: upper_char_lower upper_char_special bases_eq letters_eq ascii_def)
qed

lemma clean_dna_kept:
  "clean_dna raw =
     concat (map (\<lambda>c. if c \<in> set (ascii ''ATCGatcg'') then upper_char c
                       else if c = 0x1E97 \<or> c = 0xFB05 \<or> c = 0xFB06 then ascii ''T''
                       else if c = 0x1E9A then ascii ''A''
                       else []) raw)"
proof -
  have "clean_dna raw =
        concat (map (\<lambda>c. filter (\<lambda>x. x \<in> set (ascii ''ATCG'')) (upper_char c)) raw)"
    by (simp add: clean_dna_filter upper_def filter_concat o_def)
  then show ?thesis
    by (simp only: filter_upper_char)
qed

lemma concat_map_filter:
  "concat (map f (filter P xs)) = concat (map (\<lambda>x. if P x then f x else []) xs)"
  by (induction xs) simp_all

lemma clean_dna_plain:
  assumes "set raw \<inter> {0x1E97, 0x1E9A, 0xFB05, 0xFB06} = {}"
  shows "clean_dna raw =
         concat (map upper_char (filter (\<lambda>c. c \<in> set (ascii ''ATCGatcg'')) raw))"
proof -
  have "(if c \<in> set (ascii ''ATCGatcg'') then upper_char c
         else if c = 0x1E97 \<or> c = 0xFB05 \<or> c = 0xFB06 then ascii ''T''
         else if c = 0x1E9A then ascii ''A''
         else []) =
        (if c \<in> set (ascii ''ATCGatcg'') then upper_char c else [])"
    if "c \<in> set raw" for c
    using that assms by auto
  then have "clean_dna raw =
     concat (map (\<lambda>c. if c \<in> set (ascii ''ATCGatcg'') then upper_char c else []) raw)"
    unfolding clean_dna_kept by (intro arg_cong [where f = concat] map_cong refl)
  then show ?thesis
    by (simp only: concat_map_filter)
qed

lemma clean_dna_bases: "set (clean_dna raw) \<subseteq> set (ascii ''ATCG'')"
  unfolding clean_dna_filter by auto

lemma clean_dna_stable:
  assumes "set t \<subseteq> set (ascii ''ATCG'')"
  shows "clean_dna t = t"
proof -
  have "map upper_char t = map (\<lambda>c. [c]) t"
    using assms by (intro map_cong refl upper_char_base) auto
  then have "upper t = concat (map (\<lambda>c. [c]) t)"
    by (simp only: upper_def)
  then have "upper t = t"
    by (simp add: concat_map_singleton)
  moreover have "filter (\<lambda>c. c \<in> set (ascii ''ATCG'')) t = t"
    using assms by (intro filter_True) auto
  ultimately show ?thesis
    by (simp add: clean_dna_filter)
qed

text \<open>
  Claim C8, as the code has it. For every input string, the output of \<open>clean_dna\<close>
  is exactly the subsequence of the uppercased input made of the characters \<open>A\<close>,
  \<open>T\<close>, \<open>C\<close>, \<open>G\<close>; every retained character is one of these four, it is a
  sequence of ASCII characters, and the order is kept. Read on the input: every character
  is dropped except \<open>A\<close>, \<open>T\<close>, \<open>C\<close>, \<open>G\<close>, \<open>a\<close>, \<open>t\<close>, \<open>c\<close>,
  \<open>g\<close>, which give their upper-case letter, and the four code points U+1E97, U+1E9A,
  U+FB05 and U+FB06, whose upper-case forms are two characters long and leave \<open>T\<close>,
  \<open>A\<close>, \<open>T\<close> and \<open>T\<close>. On an input without these four, and so on every ASCII
  input, the output is the uppercased subsequence of the input's characters in
  \<open>ATCGatcg\<close>. The empty input gives the empty sequence, and the function contains no
  operation that can raise.
\<close>

theorem clean_dna_spec:
  "clean_dna raw = filter (\<lambda>c. c \<in> set (ascii ''ATCG'')) (upper raw)
   \<and> set (clean_dna raw) \<subseteq> set (ascii ''ATCG'')
   \<and> (\<exists>s. set s \<subseteq> {CHR ''A'', CHR ''T'', CHR ''C'', CHR ''G''} \<and> clean_dna raw = ascii s)
   \<and> subseq (clean_dna raw) (upper raw)
   \<and> clean_dna raw =
       concat (map (\<lambda>c. if c \<in> set (ascii ''ATCGatcg'') then upper_char c
                         else if c = 0x1E97 \<or> c = 0xFB05 \<or> c = 0xFB06 then ascii ''T''
                         else if c = 0x1E9A then ascii ''A''
                         else []) raw)
   \<and> concat (map upper_char (ascii ''ATCGatcg'')) = ascii ''ATCGATCG''
   \<and> (set raw \<inter> {0x1E97, 0x1E9A, 0xFB05, 0xFB06} = {} \<longrightarrow>
        clean_dna raw =
          concat (map upper_char (filter (\<lambda>c. c \<in> set (ascii ''ATCGatcg'')) raw)))
   \<and> ((\<forall>c \<in> set raw. c < 128) \<longrightarrow>
        clean_dna raw =
          concat (map upper_char (filter (\<lambda>c. c \<in> set (ascii ''ATCGatcg'')) raw)))
   \<and> clean_dna [] = []"
proof (intro conjI impI)
  show "clean_dna raw = filter (\<lambda>c. c \<in> set (ascii ''ATCG'')) (upper raw)"
    by (rule clean_dna_filter)
  show "set (clean_dna raw) \<subseteq> set (ascii ''ATCG'')"
    by (rule clean_dna_bases)
  show "\<exists>s. set s \<subseteq> {CHR ''A'', CHR ''T'', CHR ''C'', CHR ''G''} \<and> clean_dna raw = ascii s"
  proof (intro exI [of _ "map char_of (clean_dna raw)"] conjI)
    have b: "c = 0x41 \<or> c = 0x54 \<or> c = 0x43 \<or> c = 0x47"
      if "c \<in> set (clean_dna raw)" for c
      using that clean_dna_bases [of raw] by (auto simp: bases_eq)
    have "char_of c \<in> {CHR ''A'', CHR ''T'', CHR ''C'', CHR ''G''}"
      if "c \<in> set (clean_dna raw)" for c
      using b [OF that] by (auto simp: char_of_eq_iff)
    then show "set (map char_of (clean_dna raw)) \<subseteq> {CHR ''A'', CHR ''T'', CHR ''C'', CHR ''G''}"
      by auto
    have "of_char (char_of c :: char) = c" if "c \<in> set (clean_dna raw)" for c :: nat
      using b [OF that] by auto
    then have "map (\<lambda>c. of_char (char_of c :: char)) (clean_dna raw) = clean_dna raw"
      by (intro map_idI)
    then show "clean_dna raw = ascii (map char_of (clean_dna raw))"
      by (simp add: ascii_def o_def)
  qed
  show "subseq (clean_dna raw) (upper raw)"
    unfolding clean_dna_filter by (rule subseq_filter_left)
  show "clean_dna raw =
       concat (map (\<lambda>c. if c \<in> set (ascii ''ATCGatcg'') then upper_char c
                         else if c = 0x1E97 \<or> c = 0xFB05 \<or> c = 0xFB06 then ascii ''T''
                         else if c = 0x1E9A then ascii ''A''
                         else []) raw)"
    by (rule clean_dna_kept)
  show "concat (map upper_char (ascii ''ATCGatcg'')) = ascii ''ATCGATCG''"
    by (simp add: ascii_def upper_char_lower upper_char_base bases_eq)
  show "clean_dna [] = []"
    by (simp add: clean_dna_filter upper_def)
next
  assume "set raw \<inter> {0x1E97, 0x1E9A, 0xFB05, 0xFB06} = {}"
  then show "clean_dna raw =
          concat (map upper_char (filter (\<lambda>c. c \<in> set (ascii ''ATCGatcg'')) raw))"
    by (rule clean_dna_plain)
next
  assume "\<forall>c \<in> set raw. c < 128"
  then have "set raw \<inter> {0x1E97, 0x1E9A, 0xFB05, 0xFB06} = {}"
    by auto
  then show "clean_dna raw =
          concat (map upper_char (filter (\<lambda>c. c \<in> set (ascii ''ATCGatcg'')) raw))"
    by (rule clean_dna_plain)
qed

text \<open>An ASCII input with a header mark, blanks, digits and the letter \<open>n\<close>.\<close>

theorem clean_dna_spec_witness:
  "set (ascii ''>s1 atgcn ATG 12'') \<inter> {0x1E97, 0x1E9A, 0xFB05, 0xFB06} = {}
   \<and> list_all (\<lambda>c. c < 128) (ascii ''>s1 atgcn ATG 12'')
   \<and> clean_dna (ascii ''>s1 atgcn ATG 12'') =
       concat (map upper_char
         (filter (\<lambda>c. c \<in> set (ascii ''ATCGatcg'')) (ascii ''>s1 atgcn ATG 12'')))
   \<and> clean_dna (ascii ''>s1 atgcn ATG 12'') = ascii ''ATGCATG''"
proof -
  have h: "set (ascii ''>s1 atgcn ATG 12'') \<inter> {0x1E97, 0x1E9A, 0xFB05, 0xFB06} = {}"
    by (simp add: ascii_def)
  have l: "list_all (\<lambda>c. c < 128) (ascii ''>s1 atgcn ATG 12'')"
    by (simp add: ascii_def)
  then have a: "\<forall>c \<in> set (ascii ''>s1 atgcn ATG 12''). c < 128"
    by (simp only: list_all_iff)
  note t = clean_dna_spec [of "ascii ''>s1 atgcn ATG 12''"]
  note p = t [THEN conjunct2, THEN conjunct2, THEN conjunct2, THEN conjunct2,
    THEN conjunct2, THEN conjunct2, THEN conjunct1, THEN mp, OF h]
  note q = t [THEN conjunct2, THEN conjunct2, THEN conjunct2, THEN conjunct2,
    THEN conjunct2, THEN conjunct2, THEN conjunct2, THEN conjunct1, THEN mp, OF a]
  have "concat (map upper_char
          (filter (\<lambda>c. c \<in> set (ascii ''ATCGatcg'')) (ascii ''>s1 atgcn ATG 12''))) =
        ascii ''ATGCATG''"
    by (simp add: ascii_def upper_char_lower upper_char_base bases_eq)
  with p have r: "clean_dna (ascii ''>s1 atgcn ATG 12'') = ascii ''ATGCATG''"
    by (rule trans)
  show ?thesis
    by (intro conjI) (rule h, rule l, rule q, rule r)
qed

text \<open>
  Claim C8, as stated, has every character of the input that does not case-fold to one
  of the four letters omitted. The text \<open>U+1E97 U+1E9A g\<close> has one such letter,
  \<open>g\<close>; its upper-case form is \<open>T U+0308 A U+02BE G\<close>, and \<open>clean_dna\<close>
  returns \<open>TAG\<close>, not \<open>G\<close>.
\<close>

theorem clean_dna_counterexample:
  "upper [0x1E97, 0x1E9A, 0x67] = [0x54, 0x308, 0x41, 0x2BE, 0x47]
   \<and> clean_dna [0x1E97, 0x1E9A, 0x67] = ascii ''TAG''
   \<and> concat (map upper_char
        (filter (\<lambda>c. c \<in> set (ascii ''ATCGatcg'')) [0x1E97, 0x1E9A, 0x67])) = ascii ''G''
   \<and> ascii ''TAG'' \<noteq> ascii ''G''"
proof (intro conjI)
  show "upper [0x1E97, 0x1E9A, 0x67] = [0x54, 0x308, 0x41, 0x2BE, 0x47]"
    by (simp add: upper_def upper_char_special upper_char_lower)
  show "clean_dna [0x1E97, 0x1E9A, 0x67] = ascii ''TAG''"
    unfolding clean_dna_kept by (simp add: letters_eq upper_char_lower ascii_def)
  show "concat (map upper_char
        (filter (\<lambda>c. c \<in> set (ascii ''ATCGatcg'')) [0x1E97, 0x1E9A, 0x67])) = ascii ''G''"
    by (simp add: letters_eq upper_char_lower ascii_def)
  show "ascii ''TAG'' \<noteq> ascii ''G''"
    by (simp add: ascii_def)
qed

text \<open>
  Claim C9. \<open>clean_dna\<close> is idempotent: cleaning a cleaned sequence gives the
  same sequence, and a sequence over \<open>A\<close>, \<open>T\<close>, \<open>C\<close>,
  \<open>G\<close> is returned unchanged.
\<close>

theorem clean_dna_idempotent:
  "clean_dna (clean_dna s) = clean_dna s
   \<and> (set s \<subseteq> set (ascii ''ATCG'') \<longrightarrow> clean_dna s = s)"
proof (intro conjI impI)
  show "clean_dna (clean_dna s) = clean_dna s"
    using clean_dna_bases by (rule clean_dna_stable)
next
  assume "set s \<subseteq> set (ascii ''ATCG'')"
  then show "clean_dna s = s"
    by (rule clean_dna_stable)
qed

theorem clean_dna_idempotent_witness:
  "clean_dna (clean_dna (ascii ''xaTg-c'')) = clean_dna (ascii ''xaTg-c'')
   \<and> clean_dna (clean_dna [0x1E97, 0x1E9A, 0x67]) = clean_dna [0x1E97, 0x1E9A, 0x67]
   \<and> set (ascii ''GATTACA'') \<subseteq> set (ascii ''ATCG'')
   \<and> clean_dna (ascii ''GATTACA'') = ascii ''GATTACA''"
proof -
  have h: "set (ascii ''GATTACA'') \<subseteq> set (ascii ''ATCG'')"
    by (simp add: ascii_def)
  show ?thesis
    by (intro conjI)
      (rule clean_dna_idempotent [THEN conjunct1], rule clean_dna_idempotent [THEN conjunct1],
       rule h, rule clean_dna_idempotent [THEN conjunct2, THEN mp, OF h])
qed

section \<open>Properties of find_motifs\<close>

lemma occurs_at_iff: "occurs_at s sub k \<longleftrightarrow> k \<le> length s \<and> slice s k (k + length sub) = sub"
proof
  assume "occurs_at s sub k"
  then show "k \<le> length s \<and> slice s k (k + length sub) = sub"
    by (simp add: occurs_at_def)
next
  assume a: "k \<le> length s \<and> slice s k (k + length sub) = sub"
  then have "length (take (length sub) (drop k s)) = length sub"
    by (simp add: slice_def)
  then have "length sub \<le> length s - k"
    by simp
  with a show "occurs_at s sub k"
    by (auto simp: occurs_at_def)
qed

lemma py_find_Some:
  "py_find s sub st = Some i \<Longrightarrow>
     st \<le> i \<and> occurs_at s sub i \<and> (\<forall>k. st \<le> k \<and> k < i \<longrightarrow> \<not> occurs_at s sub k)"
proof (induction s sub st rule: py_find.induct)
  case (1 s sub st)
  show ?case
  proof (cases "length s < st")
    case True
    with "1.prems" show ?thesis
      by (simp add: py_find.simps [of s sub st])
  next
    case le: False
    show ?thesis
    proof (cases "slice s st (st + length sub) = sub")
      case True
      with le "1.prems" have "i = st"
        by (simp add: py_find.simps [of s sub st])
      with le True show ?thesis
        by (auto simp: occurs_at_iff)
    next
      case False
      with le "1.prems" have rec: "py_find s sub (st + 1) = Some i"
        by (simp add: py_find.simps [of s sub st])
      from "1.IH" [OF le False rec]
      have ih: "st + 1 \<le> i" "occurs_at s sub i"
        "\<forall>k. st + 1 \<le> k \<and> k < i \<longrightarrow> \<not> occurs_at s sub k"
        by auto
      have "\<not> occurs_at s sub st"
        using False by (simp add: occurs_at_def)
      with ih show ?thesis
        by (metis Suc_eq_plus1 Suc_leI le_neq_implies_less add_leD1)
    qed
  qed
qed

lemma py_find_None:
  "py_find s sub st = None \<Longrightarrow> st \<le> k \<Longrightarrow> \<not> occurs_at s sub k"
proof (induction s sub st rule: py_find.induct)
  case (1 s sub st)
  show ?case
  proof (cases "length s < st")
    case True
    with "1.prems" show ?thesis
      by (simp add: occurs_at_def)
  next
    case le: False
    from le "1.prems" have ne: "slice s st (st + length sub) \<noteq> sub"
      by (auto simp: py_find.simps [of s sub st] split: if_splits)
    with le "1.prems" have rec: "py_find s sub (st + 1) = None"
      by (simp add: py_find.simps [of s sub st])
    show ?thesis
    proof (cases "k = st")
      case True
      with ne show ?thesis by (simp add: occurs_at_def)
    next
      case False
      with "1.prems" have "st + 1 \<le> k" by simp
      with "1.IH" [OF le ne rec] show ?thesis .
    qed
  qed
qed

lemma motif_loop_eq:
  "motif_loop dna m mg st found =
     found @ map (mk_entry m mg) (filter (occurs_at dna m) [st..<length dna + 1])"
proof (induction dna m mg st found rule: motif_loop.induct)
  case (1 dna m mg st found)
  show ?case
  proof (cases "py_find dna m st")
    case None
    then have "filter (occurs_at dna m) [st..<length dna + 1] = []"
      by (auto simp: filter_empty_conv dest: py_find_None)
    with None show ?thesis
      by (simp add: motif_loop.simps [of dna m mg st found])
  next
    case (Some idx)
    from py_find_Some [OF Some]
    have b: "st \<le> idx" "occurs_at dna m idx"
      "\<forall>k. st \<le> k \<and> k < idx \<longrightarrow> \<not> occurs_at dna m k"
      by auto
    from b(2) have le: "idx \<le> length dna"
      by (simp add: occurs_at_def)
    have split: "[st..<length dna + 1] = [st..<idx] @ idx # [idx + 1..<length dna + 1]"
    proof -
      have "[st..<idx + (length dna + 1 - idx)] =
            [st..<idx] @ [idx..<idx + (length dna + 1 - idx)]"
        using b(1) by (rule upt_add_eq_append)
      moreover have "idx + (length dna + 1 - idx) = length dna + 1"
        using le by simp
      moreover have "[idx..<length dna + 1] = idx # [idx + 1..<length dna + 1]"
        using le by (simp add: upt_conv_Cons)
      ultimately show ?thesis by simp
    qed
    have "filter (occurs_at dna m) [st..<idx] = []"
      using b(3) by (auto simp: filter_empty_conv)
    with b(2) split
    have "filter (occurs_at dna m) [st..<length dna + 1] =
          idx # filter (occurs_at dna m) [idx + 1..<length dna + 1]"
      by simp
    with "1.IH" [OF Some] Some show ?thesis
      by (simp add: motif_loop.simps [of dna m mg st found] mk_entry_def)
  qed
qed

lemma fold_motif_loop:
  "fold (\<lambda>(m, mg) found. motif_loop dna m mg 0 found) motifs acc =
     acc @ concat (map (\<lambda>(m, mg). map (mk_entry m mg)
                          (filter (occurs_at dna m) [0..<length dna + 1])) motifs)"
  by (induction motifs arbitrary: acc) (auto simp: motif_loop_eq)

lemma found_motifs_eq:
  "found_motifs dna motifs =
     concat (map (\<lambda>(m, mg). map (mk_entry m mg)
                   (filter (occurs_at dna m) [0..<length dna + 1])) motifs)"
  by (simp add: found_motifs_def fold_motif_loop)

lemma set_found_one:
  "set (map (mk_entry m mg) (filter (occurs_at dna m) [0..<length dna + 1])) =
     {mk_entry m mg k | k. occurs_at dna m k}"
proof -
  have "occurs_at dna m k \<Longrightarrow> k < length dna + 1" for k
    by (simp add: occurs_at_def)
  then show ?thesis
    by (auto simp del: upt_Suc)
qed

lemma set_found_motifs:
  "set (found_motifs dna motifs) =
     {\<lparr>motif = m, start = k + 1, meaning = mg\<rparr> | m mg k.
        (m, mg) \<in> set motifs \<and> k + length m \<le> length dna
        \<and> slice dna k (k + length m) = m}"
proof -
  have "set (found_motifs dna motifs) =
        (\<Union>p \<in> set motifs. {mk_entry (fst p) (snd p) k | k. occurs_at dna (fst p) k})"
    unfolding found_motifs_eq set_concat set_map image_image
    by (simp only: case_prod_beta set_found_one)
  also have "\<dots> = {\<lparr>motif = m, start = k + 1, meaning = mg\<rparr> | m mg k.
        (m, mg) \<in> set motifs \<and> k + length m \<le> length dna
        \<and> slice dna k (k + length m) = m}"
    by (auto simp: mk_entry_def occurs_at_def)
  finally show ?thesis .
qed

lemma distinct_found_one:
  "distinct (map (mk_entry m mg) (filter (occurs_at dna m) [0..<length dna + 1]))"
proof -
  have "inj_on (mk_entry m mg) A" for A
    by (rule inj_onI) (simp add: mk_entry_def)
  then show ?thesis
    by (simp add: distinct_map del: upt_Suc)
qed

lemma distinct_found_motifs:
  "distinct (map fst motifs) \<Longrightarrow> distinct (found_motifs dna motifs)"
proof (induction motifs)
  case Nil
  then show ?case by (simp add: found_motifs_eq)
next
  case (Cons p motifs)
  obtain m mg where p: "p = (m, mg)" by (cases p)
  from Cons.prems p have notin: "m \<notin> fst ` set motifs" and d: "distinct (map fst motifs)"
    by auto
  have tl: "distinct (found_motifs dna motifs)"
    using Cons.IH d .
  have "motif e \<noteq> m" if "e \<in> set (found_motifs dna motifs)" for e
    using that notin unfolding set_found_motifs by force
  moreover have "motif e = m"
    if "e \<in> set (map (mk_entry m mg) (filter (occurs_at dna m) [0..<length dna + 1]))" for e
    using that by (auto simp: mk_entry_def)
  ultimately have disj:
    "set (map (mk_entry m mg) (filter (occurs_at dna m) [0..<length dna + 1]))
       \<inter> set (found_motifs dna motifs) = {}"
    by blast
  have "found_motifs dna (p # motifs) =
        map (mk_entry m mg) (filter (occurs_at dna m) [0..<length dna + 1])
        @ found_motifs dna motifs"
    by (simp add: found_motifs_eq p)
  with tl disj distinct_found_one [of m mg dna] show ?case
    by (simp only: distinct_append)
qed

text \<open>
  Claim C2. For every sequence and every table with distinct keys (a dict, as the fixed
  table \<open>DNA_MEANINGS\<close> is), the result of \<open>find_motifs\<close> holds exactly one
  entry (motif \<open>m\<close>, start \<open>k + 1\<close>, meaning of \<open>m\<close>) for every motif
  \<open>m\<close> of the table and every index \<open>k\<close> with \<open>dna[k:k+len(m)] == m\<close>,
  overlapping occurrences included, and nothing else.
\<close>

theorem find_motifs_complete:
  assumes "distinct (map fst motifs)"
  shows "set (find_motifs dna motifs) =
           {\<lparr>motif = m, start = k + 1, meaning = mg\<rparr> | m mg k.
              (m, mg) \<in> set motifs \<and> k + length m \<le> length dna
              \<and> slice dna k (k + length m) = m}
         \<and> distinct (find_motifs dna motifs)"
  using assms
  by (simp add: find_motifs_def set_found_motifs distinct_found_motifs)

text \<open>The examples of claim C2: \<open>AA\<close> in \<open>AAAA\<close> is found at positions 1, 2, 3,
  and \<open>GAATTC\<close> in \<open>GAATTCGAATTC\<close> at positions 1 and 7, with the fixed table.\<close>

theorem find_motifs_complete_witness:
  "distinct (map fst DNA_MEANINGS)
   \<and> set (find_motifs ''GAATTCGAATTC'' DNA_MEANINGS) =
           {\<lparr>motif = m, start = k + 1, meaning = mg\<rparr> | m mg k.
              (m, mg) \<in> set DNA_MEANINGS \<and> k + length m \<le> length ''GAATTCGAATTC''
              \<and> slice ''GAATTCGAATTC'' k (k + length m) = m}
   \<and> distinct (find_motifs ''GAATTCGAATTC'' DNA_MEANINGS)
   \<and> find_motifs ''GAATTCGAATTC'' DNA_MEANINGS =
        [\<lparr>motif = ''GAATTC'', start = 1, meaning = ''EcoRI restriction site (GAATTC).''\<rparr>,
         \<lparr>motif = ''GAATTC'', start = 7, meaning = ''EcoRI restriction site (GAATTC).''\<rparr>]
   \<and> find_motifs ''AAAA'' [(''AA'', ''x'')] =
        [\<lparr>motif = ''AA'', start = 1, meaning = ''x''\<rparr>,
         \<lparr>motif = ''AA'', start = 2, meaning = ''x''\<rparr>,
         \<lparr>motif = ''AA'', start = 3, meaning = ''x''\<rparr>]"
proof -
  have d: "distinct (map fst DNA_MEANINGS)"
    by code_simp
  have e1: "find_motifs ''GAATTCGAATTC'' DNA_MEANINGS =
        [\<lparr>motif = ''GAATTC'', start = 1, meaning = ''EcoRI restriction site (GAATTC).''\<rparr>,
         \<lparr>motif = ''GAATTC'', start = 7, meaning = ''EcoRI restriction site (GAATTC).''\<rparr>]"
    by code_simp
  have e2: "find_motifs ''AAAA'' [(''AA'', ''x'')] =
        [\<lparr>motif = ''AA'', start = 1, meaning = ''x''\<rparr>,
         \<lparr>motif = ''AA'', start = 2, meaning = ''x''\<rparr>,
         \<lparr>motif = ''AA'', start = 3, meaning = ''x''\<rparr>]"
    by code_simp
  from d e1 e2 find_motifs_complete [OF d, of "''GAATTCGAATTC''"] show ?thesis
    by (intro conjI) blast+
qed

lemma filter_eq_upt: "filter (\<lambda>j. j = k \<and> Q j) [0..<n] = (if k < n \<and> Q k then [k] else [])"
  by (induction n) auto

lemma filter_start_one:
  "filter (\<lambda>e. start e = k + 1)
     (map (mk_entry m mg) (filter (occurs_at dna m) [0..<length dna + 1])) =
   (if occurs_at dna m k then [mk_entry m mg k] else [])"
proof -
  have "filter (\<lambda>e. start e = k + 1)
          (map (mk_entry m mg) (filter (occurs_at dna m) [0..<length dna + 1])) =
        map (mk_entry m mg) (filter (\<lambda>j. j = k \<and> occurs_at dna m j) [0..<length dna + 1])"
    by (simp add: filter_map o_def mk_entry_def conj_commute)
  also have "\<dots> = (if k < length dna + 1 \<and> occurs_at dna m k then [mk_entry m mg k] else [])"
    by (simp only: filter_eq_upt) simp
  also have "\<dots> = (if occurs_at dna m k then [mk_entry m mg k] else [])"
    by (auto simp: occurs_at_def)
  finally show ?thesis .
qed

lemma filter_start_found:
  "filter (\<lambda>e. start e = k + 1) (found_motifs dna motifs) =
     map (\<lambda>(m, mg). \<lparr>motif = m, start = k + 1, meaning = mg\<rparr>)
       (filter (\<lambda>(m, mg). k + length m \<le> length dna \<and> slice dna k (k + length m) = m) motifs)"
proof (induction motifs)
  case Nil
  then show ?case by (simp add: found_motifs_eq)
next
  case (Cons p motifs)
  obtain m mg where p: "p = (m, mg)" by (cases p)
  have "found_motifs dna (p # motifs) =
        map (mk_entry m mg) (filter (occurs_at dna m) [0..<length dna + 1])
        @ found_motifs dna motifs"
    by (simp add: found_motifs_eq p)
  then have "filter (\<lambda>e. start e = k + 1) (found_motifs dna (p # motifs)) =
        (if occurs_at dna m k then [mk_entry m mg k] else [])
        @ filter (\<lambda>e. start e = k + 1) (found_motifs dna motifs)"
    by (simp only: filter_append filter_start_one)
  with Cons.IH show ?case
    by (simp add: p occurs_at_def mk_entry_def)
qed

text \<open>
  Claim C3. The list returned by \<open>find_motifs\<close> is sorted ascending by start
  position; the entries with one start position stand in the order in which they were
  found, which is the order of their motifs in the table.
\<close>

theorem find_motifs_sorted_stable:
  "sorted (map start (find_motifs dna motifs))
   \<and> (\<forall>p. filter (\<lambda>e. start e = p) (find_motifs dna motifs) =
           filter (\<lambda>e. start e = p) (found_motifs dna motifs))
   \<and> (\<forall>k. filter (\<lambda>e. start e = k + 1) (find_motifs dna motifs) =
           map (\<lambda>(m, mg). \<lparr>motif = m, start = k + 1, meaning = mg\<rparr>)
             (filter (\<lambda>(m, mg). k + length m \<le> length dna
                                  \<and> slice dna k (k + length m) = m) motifs))"
proof -
  have st: "filter (\<lambda>e. start e = p) (find_motifs dna motifs) =
            filter (\<lambda>e. start e = p) (found_motifs dna motifs)" for p
    unfolding find_motifs_def by (rule sort_key_stable)
  have "sorted (map start (find_motifs dna motifs))"
    by (simp add: find_motifs_def)
  with st filter_start_found show ?thesis
    by simp
qed

text \<open>In \<open>CCAATT\<close> the motifs \<open>CAAT\<close> and \<open>CAATT\<close> both start at position 2;
  \<open>CAAT\<close> comes first in the table and in the result.\<close>

theorem find_motifs_sorted_stable_witness:
  "map (\<lambda>e. (motif e, start e)) (find_motifs ''CCAATT'' DNA_MEANINGS) =
     [(''CCAAT'', 1), (''CAAT'', 2), (''CAATT'', 2)]
   \<and> map motif (filter (\<lambda>e. start e = 1 + 1) (find_motifs ''CCAATT'' DNA_MEANINGS)) =
       [''CAAT'', ''CAATT'']"
proof -
  have "map motif (filter (\<lambda>e. start e = 1 + 1) (find_motifs ''CCAATT'' DNA_MEANINGS)) =
        map motif (map (\<lambda>(m, mg). \<lparr>motif = m, start = 1 + 1, meaning = mg\<rparr>)
             (filter (\<lambda>(m, mg). 1 + length m \<le> length ''CCAATT''
                                  \<and> slice ''CCAATT'' 1 (1 + length m) = m) DNA_MEANINGS))"
  proof -
    have "\<forall>k. filter (\<lambda>e. start e = k + 1) (find_motifs ''CCAATT'' DNA_MEANINGS) =
           map (\<lambda>(m, mg). \<lparr>motif = m, start = k + 1, meaning = mg\<rparr>)
             (filter (\<lambda>(m, mg). k + length m \<le> length ''CCAATT''
                                  \<and> slice ''CCAATT'' k (k + length m) = m) DNA_MEANINGS)"
      using find_motifs_sorted_stable [of "''CCAATT''" DNA_MEANINGS] by blast
    then have "filter (\<lambda>e. start e = 1 + 1) (find_motifs ''CCAATT'' DNA_MEANINGS) =
           map (\<lambda>(m, mg). \<lparr>motif = m, start = 1 + 1, meaning = mg\<rparr>)
             (filter (\<lambda>(m, mg). 1 + length m \<le> length ''CCAATT''
                                  \<and> slice ''CCAATT'' 1 (1 + length m) = m) DNA_MEANINGS)"
      by (rule spec)
    then show ?thesis by (rule arg_cong)
  qed
  also have "\<dots> = [''CAAT'', ''CAATT'']"
    by code_simp
  finally have t: "map motif (filter (\<lambda>e. start e = 1 + 1) (find_motifs ''CCAATT'' DNA_MEANINGS)) =
       [''CAAT'', ''CAATT'']" .
  have "map (\<lambda>e. (motif e, start e)) (find_motifs ''CCAATT'' DNA_MEANINGS) =
     [(''CCAAT'', 1), (''CAAT'', 2), (''CAATT'', 2)]"
    by code_simp
  with t show ?thesis by blast
qed

section \<open>Properties of find_orfs_all_frames\<close>

lemma inner_loop_cases:
  "(inner_loop dna n frm i j orfs = orfs \<and> (\<forall>k. j + 3 * k + 3 \<le> n \<longrightarrow> \<not> stop_at dna (j + 3 * k)))
   \<or> (\<exists>k. j + 3 * k + 3 \<le> n \<and> stop_at dna (j + 3 * k)
          \<and> (\<forall>k'<k. \<not> stop_at dna (j + 3 * k'))
          \<and> inner_loop dna n frm i j orfs = orfs @ [mk_orf frm i (j + 3 * k)])"
proof (induction dna n frm i j orfs rule: inner_loop.induct)
  case (1 dna n frm i j orfs)
  show ?case
  proof (cases "j + 3 \<le> n")
    case False
    then have "inner_loop dna n frm i j orfs = orfs"
      by (simp add: inner_loop.simps [of dna n frm i j orfs])
    moreover from False have "\<forall>k. j + 3 * k + 3 \<le> n \<longrightarrow> \<not> stop_at dna (j + 3 * k)"
      by auto
    ultimately show ?thesis by blast
  next
    case le: True
    show ?thesis
    proof (cases "slice dna j (j + 3) \<in> STOP_CODONS")
      case True
      with le have "inner_loop dna n frm i j orfs = orfs @ [mk_orf frm i j]"
        by (simp add: inner_loop.simps [of dna n frm i j orfs] mk_orf_def Let_def)
      with le True have "j + 3 * 0 + 3 \<le> n \<and> stop_at dna (j + 3 * 0)
          \<and> (\<forall>k'<0. \<not> stop_at dna (j + 3 * k'))
          \<and> inner_loop dna n frm i j orfs = orfs @ [mk_orf frm i (j + 3 * 0)]"
        by (simp add: stop_at_def)
      then show ?thesis by blast
    next
      case False
      with le have step: "inner_loop dna n frm i j orfs = inner_loop dna n frm i (j + 3) orfs"
        by (simp add: inner_loop.simps [of dna n frm i j orfs])
      from False have ns: "\<not> stop_at dna j"
        by (simp add: stop_at_def)
      have shift: "j + 3 + 3 * k = j + 3 * Suc k" for k
        by simp
      from "1.IH" [OF le refl False]
      consider
        (none) "inner_loop dna n frm i (j + 3) orfs = orfs"
               "\<forall>k. j + 3 + 3 * k + 3 \<le> n \<longrightarrow> \<not> stop_at dna (j + 3 + 3 * k)"
      | (some) k where "j + 3 + 3 * k + 3 \<le> n" "stop_at dna (j + 3 + 3 * k)"
               "\<forall>k'<k. \<not> stop_at dna (j + 3 + 3 * k')"
               "inner_loop dna n frm i (j + 3) orfs = orfs @ [mk_orf frm i (j + 3 + 3 * k)]"
        by blast
      then show ?thesis
      proof cases
        case none
        have "\<not> stop_at dna (j + 3 * k)" if "j + 3 * k + 3 \<le> n" for k
        proof (cases k)
          case 0
          with ns show ?thesis by simp
        next
          case (Suc k')
          with that none(2) show ?thesis
            by (simp only: shift [symmetric]) blast
        qed
        with none(1) step show ?thesis by simp
      next
        case some
        have "\<not> stop_at dna (j + 3 * k')" if "k' < Suc k" for k'
        proof (cases k')
          case 0
          with ns show ?thesis by simp
        next
          case (Suc k'')
          with that some(3) show ?thesis
            by (simp only: shift [symmetric]) simp
        qed
        with some(1,2,4) step
        have "j + 3 * Suc k + 3 \<le> n \<and> stop_at dna (j + 3 * Suc k)
          \<and> (\<forall>k'<Suc k. \<not> stop_at dna (j + 3 * k'))
          \<and> inner_loop dna n frm i j orfs = orfs @ [mk_orf frm i (j + 3 * Suc k)]"
          by (simp only: shift) simp
        then show ?thesis by blast
      qed
    qed
  qed
qed

lemma inner_loop_append:
  "inner_loop dna n frm i j orfs = orfs @ inner_loop dna n frm i j []"
  using inner_loop_cases [of dna n frm i j orfs] inner_loop_cases [of dna n frm i j "[]"]
  by (metis append_Nil append_Nil2 nat_neq_iff)

lemma outer_loop_eq:
  "outer_loop dna n frm i orfs = orfs @ concat (map (orf_at dna n frm) (codon_starts n i))"
proof (induction dna n frm i orfs rule: outer_loop.induct)
  case (1 dna n frm i orfs)
  show ?case
  proof (cases "i + 3 \<le> n")
    case False
    then show ?thesis
      by (simp add: outer_loop.simps [of dna n frm i orfs] codon_starts.simps [of n i])
  next
    case le: True
    show ?thesis
    proof (cases "slice dna i (i + 3) = ''ATG''")
      case True
      with le have "outer_loop dna n frm i orfs =
                    outer_loop dna n frm (i + 3) (inner_loop dna n frm i i orfs)"
        by (simp add: outer_loop.simps [of dna n frm i orfs])
      also have "\<dots> = inner_loop dna n frm i i orfs
                        @ concat (map (orf_at dna n frm) (codon_starts n (i + 3)))"
        using "1.IH"(1) [OF le refl True] .
      also have "inner_loop dna n frm i i orfs = orfs @ orf_at dna n frm i"
        using True inner_loop_append [of dna n frm i i orfs] by (simp add: orf_at_def)
      finally show ?thesis
        using le by (simp add: codon_starts.simps [of n i])
    next
      case False
      with le have "outer_loop dna n frm i orfs = outer_loop dna n frm (i + 3) orfs"
        by (simp add: outer_loop.simps [of dna n frm i orfs])
      also have "\<dots> = orfs @ concat (map (orf_at dna n frm) (codon_starts n (i + 3)))"
        using "1.IH"(2) [OF le refl False] .
      finally have "outer_loop dna n frm i orfs =
                    orfs @ concat (map (orf_at dna n frm) (codon_starts n (i + 3)))" .
      moreover have "orf_at dna n frm i = []"
        using False by (simp add: orf_at_def)
      ultimately show ?thesis
        using le by (simp add: codon_starts.simps [of n i])
    qed
  qed
qed

lemma find_orfs_all_frames_eq:
  "find_orfs_all_frames dna =
     frame_orfs dna (length dna) 0 @ frame_orfs dna (length dna) 1 @ frame_orfs dna (length dna) 2"
proof -
  have "[0..<3] = [0, 1, 2]"
    by (simp add: upt_rec)
  then show ?thesis
    by (simp add: find_orfs_all_frames_def outer_loop_eq frame_orfs_def Let_def)
qed

lemma codon_starts_set:
  "j \<in> set (codon_starts n i) \<longleftrightarrow> (\<exists>k. j = i + 3 * k) \<and> j + 3 \<le> n"
proof (induction n i rule: codon_starts.induct)
  case (1 n i)
  show ?case
  proof (cases "i + 3 \<le> n")
    case False
    then show ?thesis
      by (auto simp: codon_starts.simps [of n i])
  next
    case True
    have "(\<exists>k. j = i + 3 * k) \<longleftrightarrow> j = i \<or> (\<exists>k. j = i + 3 + 3 * k)"
    proof
      assume "\<exists>k. j = i + 3 * k"
      then obtain k where k: "j = i + 3 * k" ..
      show "j = i \<or> (\<exists>k. j = i + 3 + 3 * k)"
      proof (cases k)
        case 0
        with k show ?thesis by simp
      next
        case (Suc k')
        with k have "j = i + 3 + 3 * k'" by simp
        then show ?thesis by blast
      qed
    next
      assume "j = i \<or> (\<exists>k. j = i + 3 + 3 * k)"
      then show "\<exists>k. j = i + 3 * k"
      proof
        assume "j = i"
        then have "j = i + 3 * 0" by simp
        then show ?thesis ..
      next
        assume "\<exists>k. j = i + 3 + 3 * k"
        then obtain k where "j = i + 3 + 3 * k" ..
        then have "j = i + 3 * Suc k" by simp
        then show ?thesis ..
      qed
    qed
    with True "1.IH" [OF True] show ?thesis
      by (auto simp: codon_starts.simps [of n i])
  qed
qed

lemma codon_starts_sorted: "sorted_wrt (<) (codon_starts n i)"
proof (induction n i rule: codon_starts.induct)
  case (1 n i)
  show ?case
  proof (cases "i + 3 \<le> n")
    case False
    then show ?thesis
      by (simp add: codon_starts.simps [of n i])
  next
    case True
    have "i < j" if "j \<in> set (codon_starts n (i + 3))" for j
      using that by (auto simp: codon_starts_set)
    with True "1.IH" [OF True] show ?thesis
      by (simp add: codon_starts.simps [of n i])
  qed
qed

lemma codon_starts_distinct: "distinct (codon_starts n i)"
  using codon_starts_sorted [of n i] by (simp add: strict_sorted_iff)

lemma orf_at_cases:
  "orf_at dna n frm i = []
   \<or> (\<exists>k. slice dna i (i + 3) = ''ATG'' \<and> i + 3 * k + 3 \<le> n \<and> stop_at dna (i + 3 * k)
          \<and> (\<forall>k'<k. \<not> stop_at dna (i + 3 * k')) \<and> 0 < k
          \<and> orf_at dna n frm i = [mk_orf frm i (i + 3 * k)])"
proof (cases "slice dna i (i + 3) = ''ATG''")
  case False
  then show ?thesis by (simp add: orf_at_def)
next
  case True
  then have ns: "\<not> stop_at dna i"
    by (simp add: stop_at_def STOP_CODONS_def)
  from True have eq: "orf_at dna n frm i = inner_loop dna n frm i i []"
    by (simp add: orf_at_def)
  from inner_loop_cases [of dna n frm i i "[]"] show ?thesis
  proof
    assume "inner_loop dna n frm i i [] = [] \<and>
            (\<forall>k. i + 3 * k + 3 \<le> n \<longrightarrow> \<not> stop_at dna (i + 3 * k))"
    with eq show ?thesis by simp
  next
    assume "\<exists>k. i + 3 * k + 3 \<le> n \<and> stop_at dna (i + 3 * k)
          \<and> (\<forall>k'<k. \<not> stop_at dna (i + 3 * k'))
          \<and> inner_loop dna n frm i i [] = [] @ [mk_orf frm i (i + 3 * k)]"
    then obtain k where k: "i + 3 * k + 3 \<le> n" "stop_at dna (i + 3 * k)"
          "\<forall>k'<k. \<not> stop_at dna (i + 3 * k')"
          "inner_loop dna n frm i i [] = [] @ [mk_orf frm i (i + 3 * k)]"
      by blast
    from k(2) ns have "0 < k"
      by (cases k) auto
    with True k eq show ?thesis
      by auto
  qed
qed

lemma orf_at_fields:
  assumes "e \<in> set (orf_at dna n frm i)"
  shows "frame e = frm \<and> orf_start e = i + 1"
  using assms orf_at_cases [of dna n frm i] by (auto simp: mk_orf_def)

lemma orf_at_invariant:
  assumes "e \<in> set (orf_at dna n frm i)"
  shows "1 \<le> orf_start e \<and> orf_start e < orf_end e \<and> orf_end e \<le> n
         \<and> length_nt e = orf_end e - orf_start e + 1
         \<and> 3 dvd length_nt e \<and> 6 \<le> length_nt e
         \<and> length_aa e = length_nt e div 3
         \<and> slice dna (orf_start e - 1) (orf_start e + 2) = ''ATG''
         \<and> slice dna (orf_end e - 3) (orf_end e) \<in> STOP_CODONS"
proof -
  from assms orf_at_cases [of dna n frm i]
  obtain k where k: "slice dna i (i + 3) = ''ATG''" "i + 3 * k + 3 \<le> n"
      "stop_at dna (i + 3 * k)" "0 < k" "e = mk_orf frm i (i + 3 * k)"
    by auto
  from k(5) have f: "orf_start e = i + 1" "orf_end e = i + 3 * k + 3"
      "length_nt e = 3 * (k + 1)" "length_aa e = (3 * (k + 1)) div 3"
    by (simp_all add: mk_orf_def)
  have pos: "orf_start e - 1 = i" "orf_start e + 2 = i + 3" "orf_end e - 3 = i + 3 * k"
    using f(1,2) by simp_all
  have "slice dna (orf_start e - 1) (orf_start e + 2) = ''ATG''"
    unfolding pos by (rule k(1))
  moreover have "slice dna (orf_end e - 3) (orf_end e) \<in> STOP_CODONS"
    using k(3) by (simp add: stop_at_def f(2))
  moreover have "1 \<le> orf_start e \<and> orf_start e < orf_end e \<and> orf_end e \<le> n
         \<and> length_nt e = orf_end e - orf_start e + 1
         \<and> 3 dvd length_nt e \<and> 6 \<le> length_nt e
         \<and> length_aa e = length_nt e div 3"
    using f k(2,4) by simp
  ultimately show ?thesis by blast
qed

lemma frame_orfs_fields:
  assumes "e \<in> set (frame_orfs dna n frm)"
  shows "frame e = frm \<and> (\<exists>i \<in> set (codon_starts n frm). e \<in> set (orf_at dna n frm i))"
  using assms orf_at_fields unfolding frame_orfs_def by fastforce

lemma sorted_orf_starts:
  "sorted_wrt (<) idxs \<Longrightarrow>
   sorted_wrt (\<lambda>a b. orf_start a < orf_start b) (concat (map (orf_at dna n frm) idxs))"
proof (induction idxs)
  case Nil
  then show ?case by simp
next
  case (Cons i idxs)
  have one: "sorted_wrt (\<lambda>a b. orf_start a < orf_start b) (orf_at dna n frm i)"
    using orf_at_cases [of dna n frm i] by auto
  have "orf_start a < orf_start b"
    if "a \<in> set (orf_at dna n frm i)" "b \<in> set (concat (map (orf_at dna n frm) idxs))" for a b
  proof -
    from that(2) obtain i' where "i' \<in> set idxs" "b \<in> set (orf_at dna n frm i')"
      by auto
    with that(1) Cons.prems orf_at_fields [of a dna n frm i] orf_at_fields [of b dna n frm i']
    show ?thesis by auto
  qed
  with one Cons show ?case
    by (simp add: sorted_wrt_append)
qed

lemma find_orfs_sorted:
  "sorted_wrt (\<lambda>a b. frame a < frame b \<or> (frame a = frame b \<and> orf_start a < orf_start b))
     (find_orfs_all_frames dna)"
proof -
  let ?R = "\<lambda>a b. frame a < frame b \<or> (frame a = frame b \<and> orf_start a < orf_start b)"
  have in_frame: "sorted_wrt ?R (frame_orfs dna (length dna) frm)" for frm
  proof -
    have "sorted_wrt (\<lambda>a b. orf_start a < orf_start b) (frame_orfs dna (length dna) frm)"
      unfolding frame_orfs_def by (rule sorted_orf_starts) (rule codon_starts_sorted)
    then show ?thesis
      by (rule sorted_wrt_mono_rel [rotated]) (auto dest: frame_orfs_fields)
  qed
  have fr: "frame e = frm" if "e \<in> set (frame_orfs dna (length dna) frm)" for e frm
    using that frame_orfs_fields by blast
  show ?thesis
    unfolding find_orfs_all_frames_eq
    by (auto simp: sorted_wrt_append in_frame dest!: fr)
qed

lemma filter_concat_map_none:
  assumes "\<And>x e. x \<in> set xs \<Longrightarrow> e \<in> set (g x) \<Longrightarrow> \<not> P e"
  shows "filter P (concat (map g xs)) = []"
  using assms by (auto simp: filter_empty_conv)

lemma filter_concat_map_unique:
  assumes "distinct xs" "x0 \<in> set xs"
    and "\<And>x e. x \<in> set xs \<Longrightarrow> e \<in> set (g x) \<Longrightarrow> P e \<longleftrightarrow> x = x0"
  shows "filter P (concat (map g xs)) = g x0"
  using assms
proof (induction xs)
  case Nil
  then show ?case by simp
next
  case (Cons x xs)
  show ?case
  proof (cases "x = x0")
    case True
    with Cons.prems(1) have notin: "x0 \<notin> set xs" by simp
    have "filter P (g x0) = g x0"
      using Cons.prems(3) [of x0] True by (intro filter_True) simp
    moreover have "filter P (concat (map g xs)) = []"
    proof (rule filter_concat_map_none)
      fix y e assume "y \<in> set xs" "e \<in> set (g y)"
      with Cons.prems(3) [of y e] notin show "\<not> P e" by auto
    qed
    ultimately show ?thesis using True by simp
  next
    case False
    with Cons.prems(2) have x0: "x0 \<in> set xs" by simp
    have "filter P (g x) = []"
      using Cons.prems(3) [of x] False by (auto simp: filter_empty_conv)
    moreover have "filter P (concat (map g xs)) = g x0"
      using Cons.prems(1) x0 Cons.prems(3) by (intro Cons.IH) auto
    ultimately show ?thesis by simp
  qed
qed

lemma filter_frame:
  assumes "frm < 3"
  shows "filter (\<lambda>e. frame e = frm) (find_orfs_all_frames dna) = frame_orfs dna (length dna) frm"
proof -
  have "[0, 1, 2] = [0..<3]"
    by (simp add: upt_rec)
  then have all: "find_orfs_all_frames dna = concat (map (frame_orfs dna (length dna)) [0..<3])"
    by (simp only: find_orfs_all_frames_eq [of dna] flip: \<open>[0, 1, 2] = [0..<3]\<close>) simp
  show ?thesis
    unfolding all
  proof (rule filter_concat_map_unique)
    show "distinct [0..<3]" by simp
    show "frm \<in> set [0..<3]" using assms by simp
    show "frame e = frm \<longleftrightarrow> x = frm"
      if "x \<in> set [0..<3]" "e \<in> set (frame_orfs dna (length dna) x)" for x e
      using that(2) frame_orfs_fields by blast
  qed
qed

lemma filter_start:
  assumes "i \<in> set (codon_starts n frm)"
  shows "filter (\<lambda>e. orf_start e = i + 1) (frame_orfs dna n frm) = orf_at dna n frm i"
  unfolding frame_orfs_def
proof (rule filter_concat_map_unique)
  show "distinct (codon_starts n frm)" by (rule codon_starts_distinct)
  show "i \<in> set (codon_starts n frm)" by (rule assms)
  show "orf_start e = i + 1 \<longleftrightarrow> x = i"
    if "x \<in> set (codon_starts n frm)" "e \<in> set (orf_at dna n frm x)" for x e
    using orf_at_fields [OF that(2)] by auto
qed

lemma filter_frame_start:
  assumes "frm < 3" "i mod 3 = frm" "i + 3 \<le> length dna"
  shows "filter (\<lambda>e. frame e = frm \<and> orf_start e = i + 1) (find_orfs_all_frames dna) =
         orf_at dna (length dna) frm i"
proof -
  have "i = frm + 3 * (i div 3)"
    using assms(2) by presburger
  with assms(3) have mem: "i \<in> set (codon_starts (length dna) frm)"
    unfolding codon_starts_set by blast
  have "filter (\<lambda>e. frame e = frm \<and> orf_start e = i + 1) (find_orfs_all_frames dna) =
        filter (\<lambda>e. orf_start e = i + 1) (filter (\<lambda>e. frame e = frm) (find_orfs_all_frames dna))"
    by simp
  also have "\<dots> = orf_at dna (length dna) frm i"
    by (simp only: filter_frame [OF assms(1)] filter_start [OF mem])
  finally show ?thesis .
qed

lemma in_frame_index: "i \<le> j \<and> j mod 3 = i mod 3 \<longleftrightarrow> (\<exists>k. j = i + 3 * k)" for i j :: nat
proof
  assume "i \<le> j \<and> j mod 3 = i mod 3"
  then have "j = i + 3 * ((j - i) div 3)"
    by presburger
  then show "\<exists>k. j = i + 3 * k" ..
next
  assume "\<exists>k. j = i + 3 * k"
  then show "i \<le> j \<and> j mod 3 = i mod 3"
    by auto
qed

text \<open>
  Claim C1. Let \<open>i\<close> be an index of frame \<open>frm\<close> in \<open>{0, 1, 2}\<close> with
  \<open>i + 3 \<le> len(dna)\<close> where the codon is \<open>ATG\<close>. If \<open>j\<close> is the smallest
  index of the frame from \<open>i\<close> on with a whole stop codon, the result holds exactly one
  entry with this frame and start \<open>i + 1\<close>, and it has end \<open>j + 3\<close>,
  \<open>length_nt = (j + 3) - i\<close> and \<open>length_aa = length_nt // 3\<close>. If there is no
  such stop codon, the result holds no entry with this frame and start. Every in-frame
  \<open>ATG\<close> is tried, also one inside an ORF already reported.
\<close>

theorem find_orfs_entry:
  assumes "frm < 3" "i mod 3 = frm" "i + 3 \<le> length dna" "slice dna i (i + 3) = ''ATG''"
  shows "(\<forall>j. i \<le> j \<and> j mod 3 = frm \<and> j + 3 \<le> length dna
              \<and> slice dna j (j + 3) \<in> STOP_CODONS
              \<and> (\<forall>j'. i \<le> j' \<and> j' < j \<and> j' mod 3 = frm \<longrightarrow> slice dna j' (j' + 3) \<notin> STOP_CODONS)
            \<longrightarrow> filter (\<lambda>e. frame e = frm \<and> orf_start e = i + 1) (find_orfs_all_frames dna) =
                  [\<lparr>frame = frm, orf_start = i + 1, orf_end = j + 3,
                    length_nt = (j + 3) - i, length_aa = ((j + 3) - i) div 3\<rparr>])
         \<and> ((\<forall>j. i \<le> j \<and> j mod 3 = frm \<and> j + 3 \<le> length dna
                   \<longrightarrow> slice dna j (j + 3) \<notin> STOP_CODONS)
            \<longrightarrow> filter (\<lambda>e. frame e = frm \<and> orf_start e = i + 1) (find_orfs_all_frames dna) = [])"
proof -
  let ?n = "length dna"
  let ?res = "filter (\<lambda>e. frame e = frm \<and> orf_start e = i + 1) (find_orfs_all_frames dna)"
  have res: "?res = inner_loop dna ?n frm i i []"
    using filter_frame_start [OF assms(1-3)] assms(4) by (simp add: orf_at_def)
  have fr: "i \<le> j \<and> j mod 3 = frm \<longleftrightarrow> (\<exists>k. j = i + 3 * k)" for j
    using in_frame_index [of i j] assms(2) by simp
  note cases = inner_loop_cases [of dna ?n frm i i "[]"]
  have found: "?res = [mk_orf frm i j]"
    if j: "i \<le> j" "j mod 3 = frm" "j + 3 \<le> ?n" "slice dna j (j + 3) \<in> STOP_CODONS"
      and least: "\<forall>j'. i \<le> j' \<and> j' < j \<and> j' mod 3 = frm \<longrightarrow> slice dna j' (j' + 3) \<notin> STOP_CODONS"
    for j
  proof -
    from j(1,2) fr obtain k0 where k0: "j = i + 3 * k0" by blast
    from cases show ?thesis
    proof
      assume "inner_loop dna ?n frm i i [] = [] \<and>
              (\<forall>k. i + 3 * k + 3 \<le> ?n \<longrightarrow> \<not> stop_at dna (i + 3 * k))"
      then have "\<not> stop_at dna (i + 3 * k0)"
        using j(3) k0 by blast
      with j(4) k0 show ?thesis
        by (simp add: stop_at_def)
    next
      assume "\<exists>k. i + 3 * k + 3 \<le> ?n \<and> stop_at dna (i + 3 * k)
          \<and> (\<forall>k'<k. \<not> stop_at dna (i + 3 * k'))
          \<and> inner_loop dna ?n frm i i [] = [] @ [mk_orf frm i (i + 3 * k)]"
      then obtain k where k: "i + 3 * k + 3 \<le> ?n" "stop_at dna (i + 3 * k)"
          "\<forall>k'<k. \<not> stop_at dna (i + 3 * k')"
          "inner_loop dna ?n frm i i [] = [] @ [mk_orf frm i (i + 3 * k)]"
        by blast
      have "\<not> k0 < k"
        using k(3) j(4) k0 by (auto simp: stop_at_def)
      moreover have "\<not> k < k0"
      proof
        assume lt: "k < k0"
        then have "i \<le> i + 3 * k \<and> i + 3 * k < j \<and> (i + 3 * k) mod 3 = frm"
          using k0 fr [of "i + 3 * k"] by auto
        with least have "slice dna (i + 3 * k) (i + 3 * k + 3) \<notin> STOP_CODONS"
          by blast
        with k(2) show False
          by (simp add: stop_at_def)
      qed
      ultimately have "k = k0" by simp
      with k(4) k0 res show ?thesis by simp
    qed
  qed
  have none: "?res = []"
    if "\<forall>j. i \<le> j \<and> j mod 3 = frm \<and> j + 3 \<le> ?n \<longrightarrow> slice dna j (j + 3) \<notin> STOP_CODONS"
  proof -
    have "\<not> stop_at dna (i + 3 * k)" if "i + 3 * k + 3 \<le> ?n" for k
      using that \<open>\<forall>j. i \<le> j \<and> j mod 3 = frm \<and> j + 3 \<le> ?n \<longrightarrow> slice dna j (j + 3) \<notin> STOP_CODONS\<close>
        fr [of "i + 3 * k"]
      by (auto simp: stop_at_def)
    with cases res show ?thesis by auto
  qed
  from found none show ?thesis
    by (simp add: mk_orf_def)
qed

text \<open>The example of claim C1, \<open>ATGAAATAG\<close>, and a start codon with no stop
  codon after it in its frame.\<close>

theorem find_orfs_entry_witness:
  "find_orfs_all_frames ''ATGAAATAG'' =
     [\<lparr>frame = 0, orf_start = 1, orf_end = 9, length_nt = 9, length_aa = 3\<rparr>]
   \<and> filter (\<lambda>e. frame e = 0 \<and> orf_start e = 0 + 1) (find_orfs_all_frames ''ATGAAATAG'') =
       [\<lparr>frame = 0, orf_start = 0 + 1, orf_end = 6 + 3,
         length_nt = (6 + 3) - 0, length_aa = ((6 + 3) - 0) div 3\<rparr>]
   \<and> filter (\<lambda>e. frame e = 1 \<and> orf_start e = 1 + 1) (find_orfs_all_frames ''CATGAAACC'') = []"
proof -
  have ev: "find_orfs_all_frames ''ATGAAATAG'' =
     [\<lparr>frame = 0, orf_start = 1, orf_end = 9, length_nt = 9, length_aa = 3\<rparr>]"
    by code_simp
  have small: "j = 0 \<or> j = 1 \<or> j = 2 \<or> j = 3 \<or> j = 4 \<or> j = 5 \<or> j = 6" if "j + 3 \<le> 9" for j :: nat
    using that by arith
  have a: "(0::nat) < 3" "(0::nat) mod 3 = 0" "0 + 3 \<le> length ''ATGAAATAG''"
    "slice ''ATGAAATAG'' 0 (0 + 3) = ''ATG''"
    by (simp_all add: slice_def)
  have j: "(0::nat) \<le> 6 \<and> (6::nat) mod 3 = 0 \<and> 6 + 3 \<le> length ''ATGAAATAG''
           \<and> slice ''ATGAAATAG'' 6 (6 + 3) \<in> STOP_CODONS
           \<and> (\<forall>j'. 0 \<le> j' \<and> j' < 6 \<and> j' mod 3 = 0
                 \<longrightarrow> slice ''ATGAAATAG'' j' (j' + 3) \<notin> STOP_CODONS)"
  proof (intro conjI allI impI)
    fix j' :: nat
    assume "0 \<le> j' \<and> j' < 6 \<and> j' mod 3 = 0"
    then have "j' = 0 \<or> j' = 3" by presburger
    then show "slice ''ATGAAATAG'' j' (j' + 3) \<notin> STOP_CODONS"
      by (auto simp: slice_def STOP_CODONS_def)
  qed (simp_all add: slice_def STOP_CODONS_def)
  have b: "(1::nat) < 3" "(1::nat) mod 3 = 1" "1 + 3 \<le> length ''CATGAAACC''"
    "slice ''CATGAAACC'' 1 (1 + 3) = ''ATG''"
    by (simp_all add: slice_def)
  have k: "\<forall>j. 1 \<le> j \<and> j mod 3 = 1 \<and> j + 3 \<le> length ''CATGAAACC''
               \<longrightarrow> slice ''CATGAAACC'' j (j + 3) \<notin> STOP_CODONS"
  proof (intro allI impI)
    fix j :: nat
    assume "1 \<le> j \<and> j mod 3 = 1 \<and> j + 3 \<le> length ''CATGAAACC''"
    then have "j = 1 \<or> j = 4" by (simp, presburger)
    then show "slice ''CATGAAACC'' j (j + 3) \<notin> STOP_CODONS"
      by (auto simp: slice_def STOP_CODONS_def)
  qed
  have r1: "filter (\<lambda>e. frame e = 0 \<and> orf_start e = 0 + 1) (find_orfs_all_frames ''ATGAAATAG'') =
       [\<lparr>frame = 0, orf_start = 0 + 1, orf_end = 6 + 3,
         length_nt = (6 + 3) - 0, length_aa = ((6 + 3) - 0) div 3\<rparr>]"
    by (rule find_orfs_entry [OF a, THEN conjunct1, THEN spec, THEN mp, OF j])
  have r2: "filter (\<lambda>e. frame e = 1 \<and> orf_start e = 1 + 1) (find_orfs_all_frames ''CATGAAACC'') = []"
    by (rule find_orfs_entry [OF b, THEN conjunct2, THEN mp, OF k])
  show ?thesis
    by (intro conjI) (rule ev, rule r1, rule r2)
qed

text \<open>
  Claim C10. Every entry produced by \<open>find_orfs_all_frames\<close> satisfies
  \<open>1 \<le> start < end \<le> len(dna)\<close>, \<open>length_nt = end - start + 1\<close>,
  \<open>length_nt\<close> is a multiple of 3 and at least 6, \<open>length_aa = length_nt // 3\<close>,
  the codon at the 1-based positions \<open>start..start+2\<close> is \<open>ATG\<close> and the codon at
  \<open>end-2..end\<close> is a stop codon; and the entries are listed in ascending (indeed
  strictly ascending) lexicographic order of (frame, start).
\<close>

theorem find_orfs_invariant:
  "(\<forall>e \<in> set (find_orfs_all_frames dna).
       1 \<le> orf_start e \<and> orf_start e < orf_end e \<and> orf_end e \<le> length dna
       \<and> length_nt e = orf_end e - orf_start e + 1
       \<and> 3 dvd length_nt e \<and> 6 \<le> length_nt e
       \<and> length_aa e = length_nt e div 3
       \<and> slice dna (orf_start e - 1) (orf_start e + 2) = ''ATG''
       \<and> slice dna (orf_end e - 3) (orf_end e) \<in> STOP_CODONS)
   \<and> sorted_wrt (\<lambda>a b. frame a < frame b \<or> (frame a = frame b \<and> orf_start a < orf_start b))
        (find_orfs_all_frames dna)"
proof (rule conjI, rule ballI)
  fix e
  assume "e \<in> set (find_orfs_all_frames dna)"
  then obtain frm where "e \<in> set (frame_orfs dna (length dna) frm)"
    unfolding find_orfs_all_frames_eq by auto
  then obtain i where "e \<in> set (orf_at dna (length dna) frm i)"
    using frame_orfs_fields by blast
  then show "1 \<le> orf_start e \<and> orf_start e < orf_end e \<and> orf_end e \<le> length dna
       \<and> length_nt e = orf_end e - orf_start e + 1
       \<and> 3 dvd length_nt e \<and> 6 \<le> length_nt e
       \<and> length_aa e = length_nt e div 3
       \<and> slice dna (orf_start e - 1) (orf_start e + 2) = ''ATG''
       \<and> slice dna (orf_end e - 3) (orf_end e) \<in> STOP_CODONS"
    by (rule orf_at_invariant)
next
  show "sorted_wrt (\<lambda>a b. frame a < frame b \<or> (frame a = frame b \<and> orf_start a < orf_start b))
        (find_orfs_all_frames dna)"
    by (rule find_orfs_sorted)
qed

theorem find_orfs_invariant_witness:
  "find_orfs_all_frames ''ATGATGTAGCATGCCCTGAATAA'' =
     [\<lparr>frame = 0, orf_start = 1, orf_end = 9, length_nt = 9, length_aa = 3\<rparr>,
      \<lparr>frame = 0, orf_start = 4, orf_end = 9, length_nt = 6, length_aa = 2\<rparr>,
      \<lparr>frame = 1, orf_start = 11, orf_end = 19, length_nt = 9, length_aa = 3\<rparr>]
   \<and> slice ''ATGATGTAGCATGCCCTGAATAA'' (11 - 1) (11 + 2) = ''ATG''
   \<and> slice ''ATGATGTAGCATGCCCTGAATAA'' (19 - 3) 19 \<in> STOP_CODONS
   \<and> sorted_wrt (\<lambda>a b. frame a < frame b \<or> (frame a = frame b \<and> orf_start a < orf_start b))
        (find_orfs_all_frames ''ATGATGTAGCATGCCCTGAATAA'')"
proof -
  let ?e = "\<lparr>frame = 1, orf_start = 11, orf_end = 19, length_nt = 9, length_aa = 3\<rparr>"
  have ev: "find_orfs_all_frames ''ATGATGTAGCATGCCCTGAATAA'' =
     [\<lparr>frame = 0, orf_start = 1, orf_end = 9, length_nt = 9, length_aa = 3\<rparr>,
      \<lparr>frame = 0, orf_start = 4, orf_end = 9, length_nt = 6, length_aa = 2\<rparr>, ?e]"
    by code_simp
  then have mem: "?e \<in> set (find_orfs_all_frames ''ATGATGTAGCATGCCCTGAATAA'')"
    by simp
  note inv = find_orfs_invariant [of "''ATGATGTAGCATGCCCTGAATAA''"]
  from inv [THEN conjunct1, THEN bspec, OF mem]
  have "slice ''ATGATGTAGCATGCCCTGAATAA'' (orf_start ?e - 1) (orf_start ?e + 2) = ''ATG''
        \<and> slice ''ATGATGTAGCATGCCCTGAATAA'' (orf_end ?e - 3) (orf_end ?e) \<in> STOP_CODONS"
    by (elim conjE) (rule conjI)
  then have sl: "slice ''ATGATGTAGCATGCCCTGAATAA'' (11 - 1) (11 + 2) = ''ATG''"
        "slice ''ATGATGTAGCATGCCCTGAATAA'' (19 - 3) 19 \<in> STOP_CODONS"
    by simp_all
  show ?thesis
    by (intro conjI) (rule ev, rule sl(1), rule sl(2), rule inv [THEN conjunct2])
qed

section \<open>Properties of summarize_orfs\<close>

lemma fold_max_decomp:
  fixes f :: "'a \<Rightarrow> nat"
  defines "step \<equiv> (\<lambda>item best. if f best < f item then item else best)"
  shows "\<exists>pre post. x # xs = pre @ fold step xs x # post
           \<and> (\<forall>y \<in> set pre. f y < f (fold step xs x))
           \<and> (\<forall>y \<in> set post. f y \<le> f (fold step xs x))"
proof (induction xs rule: rev_induct)
  case Nil
  have "x # [] = [] @ fold step [] x # []" by simp
  then show ?case by fastforce
next
  case (snoc a xs)
  let ?b = "fold step xs x"
  from snoc obtain pre post where d: "x # xs = pre @ ?b # post"
    "\<forall>y \<in> set pre. f y < f ?b" "\<forall>y \<in> set post. f y \<le> f ?b"
    by blast
  show ?case
  proof (cases "f ?b < f a")
    case True
    then have b': "fold step (xs @ [a]) x = a"
      by (simp add: step_def)
    have "\<forall>y \<in> set (x # xs). f y < f a"
    proof
      fix y assume "y \<in> set (x # xs)"
      then have "y \<in> set pre \<or> y = ?b \<or> y \<in> set post"
        unfolding d(1) by auto
      with d(2,3) True show "f y < f a"
        by (auto intro: less_trans le_less_trans)
    qed
    moreover have "x # xs @ [a] = (x # xs) @ a # []"
      by simp
    ultimately show ?thesis
      unfolding b' by (metis empty_iff list.set(1))
  next
    case False
    then have b': "fold step (xs @ [a]) x = ?b"
      by (simp add: step_def)
    have "x # xs @ [a] = pre @ ?b # (post @ [a])"
      using d(1) by simp
    moreover have "\<forall>y \<in> set (post @ [a]). f y \<le> f ?b"
      using d(3) False by auto
    ultimately show ?thesis
      unfolding b' using d(2) by blast
  qed
qed

lemma max_key_decomp:
  assumes "xs \<noteq> []"
  shows "\<exists>pre b post. xs = pre @ b # post \<and> max_key f xs = Inr b
           \<and> (\<forall>y \<in> set pre. f y < f b) \<and> (\<forall>y \<in> set post. f y \<le> f b)"
proof -
  from assms obtain x xs' where xs: "xs = x # xs'"
    by (cases xs) auto
  from fold_max_decomp [of x xs' f] show ?thesis
    unfolding xs by (simp only: max_key.simps) blast
qed

lemma summarize_orfs_decomp:
  assumes "orfs \<noteq> []"
  shows "\<exists>pre b post. orfs = pre @ b # post
           \<and> summarize_orfs orfs = Inr (summary_text (length orfs) b)
           \<and> (\<forall>y \<in> set pre. length_nt y < length_nt b)
           \<and> (\<forall>y \<in> set post. length_nt y \<le> length_nt b)"
proof -
  from max_key_decomp [OF assms, of length_nt]
  obtain pre b post where d: "orfs = pre @ b # post" "max_key length_nt orfs = Inr b"
    "\<forall>y \<in> set pre. length_nt y < length_nt b" "\<forall>y \<in> set post. length_nt y \<le> length_nt b"
    by blast
  from assms d(2) have "summarize_orfs orfs = Inr (summary_text (length orfs) b)"
    by (simp add: summarize_orfs_def bind_err_def)
  with d(1,3,4) show ?thesis by blast
qed

text \<open>
  Claim C4. On the empty list the summary is \<open>No ORFs found.\<close> On a non-empty list
  the entry reported as longest has the maximal \<open>length_nt\<close> and is the first of the
  list with it. For the list produced by \<open>find_orfs_all_frames\<close> that is the one
  first in frame-then-position order: every other entry of the same \<open>length_nt\<close>
  has a higher frame, or the same frame and a higher start.
\<close>

theorem summarize_orfs_longest:
  "summarize_orfs [] = Inr ''No ORFs found.''
   \<and> (orfs \<noteq> [] \<longrightarrow>
         (\<exists>k < length orfs.
            summarize_orfs orfs = Inr (summary_text (length orfs) (orfs ! k))
            \<and> (\<forall>j < length orfs. length_nt (orfs ! j) \<le> length_nt (orfs ! k))
            \<and> (\<forall>j < k. length_nt (orfs ! j) < length_nt (orfs ! k))))
   \<and> (find_orfs_all_frames dna \<noteq> [] \<longrightarrow>
         (\<exists>L \<in> set (find_orfs_all_frames dna).
            summarize_orfs (find_orfs_all_frames dna) =
              Inr (summary_text (length (find_orfs_all_frames dna)) L)
            \<and> (\<forall>e \<in> set (find_orfs_all_frames dna). length_nt e \<le> length_nt L)
            \<and> (\<forall>e \<in> set (find_orfs_all_frames dna).
                  length_nt e = length_nt L \<longrightarrow>
                  e = L \<or> frame L < frame e
                  \<or> (frame L = frame e \<and> orf_start L < orf_start e))))"
proof (intro conjI impI)
  show "summarize_orfs [] = Inr ''No ORFs found.''"
    by (simp add: summarize_orfs_def)
next
  assume "orfs \<noteq> []"
  from summarize_orfs_decomp [OF this]
  obtain pre b post where d: "orfs = pre @ b # post"
    "summarize_orfs orfs = Inr (summary_text (length orfs) b)"
    "\<forall>y \<in> set pre. length_nt y < length_nt b" "\<forall>y \<in> set post. length_nt y \<le> length_nt b"
    by blast
  let ?k = "length pre"
  have k: "?k < length orfs" "orfs ! ?k = b"
    by (simp_all add: d(1))
  have le: "length_nt (orfs ! j) \<le> length_nt b" if "j < length orfs" for j
  proof -
    from that have "orfs ! j \<in> set orfs" by simp
    then have "orfs ! j \<in> set pre \<or> orfs ! j = b \<or> orfs ! j \<in> set post"
      unfolding d(1) by auto
    with d(3,4) show ?thesis
      by (auto intro: less_imp_le)
  qed
  have lt: "length_nt (orfs ! j) < length_nt b" if "j < ?k" for j
  proof -
    from that have "orfs ! j = pre ! j"
      by (simp add: d(1) nth_append)
    with that d(3) show ?thesis by simp
  qed
  from k d(2) le lt
  show "\<exists>k < length orfs.
            summarize_orfs orfs = Inr (summary_text (length orfs) (orfs ! k))
            \<and> (\<forall>j < length orfs. length_nt (orfs ! j) \<le> length_nt (orfs ! k))
            \<and> (\<forall>j < k. length_nt (orfs ! j) < length_nt (orfs ! k))"
    by (intro exI [of _ ?k]) simp
next
  let ?orfs = "find_orfs_all_frames dna"
  let ?R = "\<lambda>a b. frame a < frame b \<or> (frame a = frame b \<and> orf_start a < orf_start b)"
  assume "?orfs \<noteq> []"
  from summarize_orfs_decomp [OF this]
  obtain pre b post where d: "?orfs = pre @ b # post"
    "summarize_orfs ?orfs = Inr (summary_text (length ?orfs) b)"
    "\<forall>y \<in> set pre. length_nt y < length_nt b" "\<forall>y \<in> set post. length_nt y \<le> length_nt b"
    by blast
  have "sorted_wrt ?R (pre @ b # post)"
    using find_orfs_sorted [of dna] unfolding d(1) .
  then have after: "\<forall>e \<in> set post. ?R b e"
    by (simp add: sorted_wrt_append)
  have mem: "b \<in> set ?orfs"
    unfolding d(1) by simp
  have le: "\<forall>e \<in> set ?orfs. length_nt e \<le> length_nt b"
    unfolding d(1) using d(3,4) by (auto intro: less_imp_le)
  have tie: "\<forall>e \<in> set ?orfs. length_nt e = length_nt b \<longrightarrow> e = b \<or> ?R b e"
    unfolding d(1) using d(3) after by auto
  from mem d(2) le tie
  show "\<exists>L \<in> set ?orfs.
            summarize_orfs ?orfs = Inr (summary_text (length ?orfs) L)
            \<and> (\<forall>e \<in> set ?orfs. length_nt e \<le> length_nt L)
            \<and> (\<forall>e \<in> set ?orfs.
                  length_nt e = length_nt L \<longrightarrow>
                  e = L \<or> frame L < frame e
                  \<or> (frame L = frame e \<and> orf_start L < orf_start e))"
    by (intro bexI [of _ b]) simp_all
qed

text \<open>In \<open>ATGATGTAGCATGCCCTGAATAA\<close> the ORFs of frame 0 at start 1 and of frame 1
  at start 11 both have 9 nucleotides; the summary reports the one of frame 0.\<close>

theorem summarize_orfs_longest_witness:
  "find_orfs_all_frames ''ATGATGTAGCATGCCCTGAATAA'' \<noteq> []
   \<and> (\<exists>k < length (find_orfs_all_frames ''ATGATGTAGCATGCCCTGAATAA'').
            summarize_orfs (find_orfs_all_frames ''ATGATGTAGCATGCCCTGAATAA'') =
              Inr (summary_text (length (find_orfs_all_frames ''ATGATGTAGCATGCCCTGAATAA''))
                     (find_orfs_all_frames ''ATGATGTAGCATGCCCTGAATAA'' ! k))
            \<and> (\<forall>j < length (find_orfs_all_frames ''ATGATGTAGCATGCCCTGAATAA'').
                  length_nt (find_orfs_all_frames ''ATGATGTAGCATGCCCTGAATAA'' ! j)
                  \<le> length_nt (find_orfs_all_frames ''ATGATGTAGCATGCCCTGAATAA'' ! k))
            \<and> (\<forall>j < k. length_nt (find_orfs_all_frames ''ATGATGTAGCATGCCCTGAATAA'' ! j)
                  < length_nt (find_orfs_all_frames ''ATGATGTAGCATGCCCTGAATAA'' ! k)))
   \<and> (\<exists>L \<in> set (find_orfs_all_frames ''ATGATGTAGCATGCCCTGAATAA'').
            summarize_orfs (find_orfs_all_frames ''ATGATGTAGCATGCCCTGAATAA'') =
              Inr (summary_text (length (find_orfs_all_frames ''ATGATGTAGCATGCCCTGAATAA'')) L)
            \<and> (\<forall>e \<in> set (find_orfs_all_frames ''ATGATGTAGCATGCCCTGAATAA'').
                  length_nt e \<le> length_nt L)
            \<and> (\<forall>e \<in> set (find_orfs_all_frames ''ATGATGTAGCATGCCCTGAATAA'').
                  length_nt e = length_nt L \<longrightarrow>
                  e = L \<or> frame L < frame e
                  \<or> (frame L = frame e \<and> orf_start L < orf_start e)))
   \<and> summarize_orfs (find_orfs_all_frames ''ATGATGTAGCATGCCCTGAATAA'') =
       Inr (''Total ORFs: 3'' @ [CHR 0x0A]
            @ ''Longest ORF: frame 0 start 1 end 9 (9 nt / 3 aa)'')
   \<and> summarize_orfs (find_orfs_all_frames ''CATGAAACC'') = Inr ''No ORFs found.''"
proof -
  have ne: "find_orfs_all_frames ''ATGATGTAGCATGCCCTGAATAA'' \<noteq> []"
    by code_simp
  have ev: "summarize_orfs (find_orfs_all_frames ''ATGATGTAGCATGCCCTGAATAA'') =
       Inr (''Total ORFs: 3'' @ [CHR 0x0A]
            @ ''Longest ORF: frame 0 start 1 end 9 (9 nt / 3 aa)'')"
    by code_simp
  have ev0: "summarize_orfs (find_orfs_all_frames ''CATGAAACC'') = Inr ''No ORFs found.''"
    by code_simp
  note t = summarize_orfs_longest [of "find_orfs_all_frames ''ATGATGTAGCATGCCCTGAATAA''"
      "''ATGATGTAGCATGCCCTGAATAA''"]
  show ?thesis
    by (intro conjI) (rule ne, rule t [THEN conjunct2, THEN conjunct1, THEN mp, OF ne],
      rule t [THEN conjunct2, THEN conjunct2, THEN mp, OF ne],
      rule ev, rule ev0)
qed

section \<open>Properties of base_counts_and_stats\<close>

subsection \<open>The counter\<close>

lemma map_of_counter_add:
  "map_of (counter_add c d) =
     (map_of d)(c \<mapsto> (case map_of d c of None \<Rightarrow> 1 | Some v \<Rightarrow> v + 1))"
  by (induction d) (auto simp: fun_eq_iff)

lemma map_of_fold_counter_add:
  "map_of (fold counter_add xs d) c =
     (case map_of d c of
        None \<Rightarrow> if c \<in> set xs then Some (count_list xs c) else None
      | Some v \<Rightarrow> Some (v + count_list xs c))"
proof (induction xs arbitrary: d)
  case Nil
  then show ?case by (simp split: option.splits)
next
  case (Cons x xs)
  show ?case
    by (simp add: Cons.IH map_of_counter_add split: option.splits)
qed

lemma dict_get_Counter: "dict_get (Counter xs) c 0 = count_list xs c"
  by (simp add: dict_get_def Counter_def map_of_fold_counter_add count_list_0_iff)

lemma count_bases:
  assumes "set dna \<subseteq> {CHR ''A'', CHR ''T'', CHR ''C'', CHR ''G''}"
  shows "count_list dna (CHR ''A'') + count_list dna (CHR ''T'')
         + count_list dna (CHR ''C'') + count_list dna (CHR ''G'') = length dna"
  using assms by (induction dna) auto

subsection \<open>The rounding error of binary64 arithmetic\<close>

lemma bitlen_powi:
  assumes "0 < p"
  shows "2 powi (bitlen p - 1) \<le> (of_int p :: rat)" and "(of_int p :: rat) < 2 powi (bitlen p)"
proof -
  from bitlen_bounds [OF assms]
  have b: "2 ^ nat (bitlen p - 1) \<le> p" "p < 2 ^ nat (bitlen p)"
    by simp_all
  have pos: "1 \<le> bitlen p"
    using assms bitlen_eq_zero_iff [of p] bitlen_nonneg [of p] by linarith
  have "(of_int (2 ^ nat (bitlen p - 1)) :: rat) \<le> of_int p"
    using b(1) by (simp only: of_int_le_iff)
  then show "2 powi (bitlen p - 1) \<le> (of_int p :: rat)"
    using pos by (simp add: power_int_def)
  have "(of_int p :: rat) < of_int (2 ^ nat (bitlen p))"
    using b(2) by (simp only: of_int_less_iff)
  then show "(of_int p :: rat) < 2 powi (bitlen p)"
    using pos by (simp add: power_int_def)
qed

lemma ilog2_bounds:
  assumes "0 < x"
  shows "2 powi (ilog2 x) \<le> x" and "x < 2 powi (ilog2 x + 1)"
proof -
  obtain p q where pq: "quotient_of x = (p, q)"
    by (cases "quotient_of x")
  then have q: "0 < q" and x: "x = of_int p / of_int q"
    by (rule quotient_of_denom_pos, rule quotient_of_div)
  from assms q x have p: "0 < p"
    by (simp add: zero_less_divide_iff)
  let ?d = "bitlen p - bitlen q"
  have two: "(0::rat) < 2 powi k" for k
    by (simp add: zero_less_power_int)
  have "of_int p / of_int q < 2 powi (bitlen p) / (2 powi (bitlen q - 1) :: rat)"
    using bitlen_powi [OF p] bitlen_powi [OF q] p two
    by (intro frac_less) simp_all
  also have "\<dots> = 2 powi (?d + 1)"
    by (simp add: power_int_diff [symmetric] algebra_simps)
  finally have up: "x < 2 powi (?d + 1)"
    by (simp only: x)
  have "(2 powi (bitlen p - 1) :: rat) / 2 powi (bitlen q) < of_int p / of_int q"
    using bitlen_powi [OF p] bitlen_powi [OF q] q two
    by (intro frac_less2) simp_all
  also have "(2 powi (bitlen p - 1) :: rat) / 2 powi (bitlen q) = 2 powi (?d - 1)"
    by (simp add: power_int_diff [symmetric] algebra_simps)
  finally have lo: "2 powi (?d - 1) < x"
    by (simp only: x)
  have il: "ilog2 x = (if 2 powi ?d \<le> x then ?d else ?d - 1)"
    by (simp add: ilog2_def pq)
  show "2 powi (ilog2 x) \<le> x"
    using lo by (simp add: il)
  show "x < 2 powi (ilog2 x + 1)"
    using up by (simp add: il)
qed

lemma round_half_even_error: "\<bar>of_int (round_half_even y) - y\<bar> \<le> 1 / 2"
proof -
  have "of_int \<lfloor>y\<rfloor> \<le> y" "y < of_int \<lfloor>y\<rfloor> + 1"
    by linarith+
  then show ?thesis
    by (auto simp: round_half_even_def Let_def)
qed

lemma fl_error:
  assumes "0 < x"
  shows "\<bar>fl x - x\<bar> \<le> x / 2 ^ 53"
proof -
  let ?e = "ilog2 x - 52"
  let ?s = "2 powi ?e :: rat"
  let ?y = "x / ?s"
  have s: "0 < ?s"
    by (simp add: zero_less_power_int)
  have flx: "fl x = of_int (round_half_even ?y) * ?s"
    using assms by (simp add: fl_def Let_def)
  have "fl x - x = (of_int (round_half_even ?y) - ?y) * ?s"
    using s by (simp add: flx algebra_simps)
  then have "\<bar>fl x - x\<bar> = \<bar>of_int (round_half_even ?y) - ?y\<bar> * ?s"
    using s by (simp add: abs_mult)
  also have "\<dots> \<le> (1 / 2) * ?s"
    using s round_half_even_error [of ?y] by (intro mult_right_mono) simp_all
  also have "\<dots> = 2 powi (ilog2 x) / 2 ^ 53"
  proof -
    have "(2::rat) powi (ilog2 x) = 2 powi (?e + 52)"
      by simp
    also have "\<dots> = ?s * 2 ^ 52"
      by (subst power_int_add) simp_all
    finally show ?thesis by simp
  qed
  also have "\<dots> \<le> x / 2 ^ 53"
    using ilog2_bounds(1) [OF assms] by (intro divide_right_mono) simp_all
  finally show ?thesis .
qed

lemma fl_bounds:
  assumes "0 \<le> x"
  shows "(1 - 1 / 2 ^ 53) * x \<le> fl x" and "fl x \<le> (1 + 1 / 2 ^ 53) * x"
proof -
  have "\<bar>fl x - x\<bar> \<le> x / 2 ^ 53"
  proof (cases "x = 0")
    case True
    then show ?thesis by (simp add: fl_def)
  next
    case False
    with assms have "0 < x" by simp
    then show ?thesis by (rule fl_error)
  qed
  then have "x - x / 2 ^ 53 \<le> fl x \<and> fl x \<le> x + x / 2 ^ 53"
    by (simp only: abs_le_iff) linarith
  then show "(1 - 1 / 2 ^ 53) * x \<le> fl x" and "fl x \<le> (1 + 1 / 2 ^ 53) * x"
    by (simp_all add: algebra_simps)
qed

lemma fl_nonneg: "0 \<le> x \<Longrightarrow> 0 \<le> fl x"
proof -
  assume x: "0 \<le> x"
  then have "0 \<le> (1 - 1 / 2 ^ 53) * x"
    by (intro mult_nonneg_nonneg) simp_all
  also have "\<dots> \<le> fl x"
    using x by (rule fl_bounds(1))
  finally show ?thesis .
qed

lemma fl_fl_bounds:
  assumes "0 \<le> a"
  shows "(1 - 1 / 2 ^ 53) * ((1 - 1 / 2 ^ 53) * (a * 100)) \<le> fl (fl a * 100)"
    and "fl (fl a * 100) \<le> (1 + 1 / 2 ^ 53) * ((1 + 1 / 2 ^ 53) * (a * 100))"
proof -
  let ?lo = "1 - 1 / 2 ^ 53 :: rat" and ?hi = "1 + 1 / 2 ^ 53 :: rat"
  have lo: "0 \<le> ?lo" and hi: "0 \<le> ?hi"
    by simp_all
  have y: "0 \<le> fl a * 100"
    using fl_nonneg [OF assms] by simp
  have "?lo * (?lo * (a * 100)) = ?lo * ((?lo * a) * 100)"
    by (simp only: mult.assoc)
  also have "\<dots> \<le> ?lo * (fl a * 100)"
    using fl_bounds(1) [OF assms] lo by (intro mult_left_mono mult_right_mono) simp_all
  also have "\<dots> \<le> fl (fl a * 100)"
    using y by (rule fl_bounds(1))
  finally show "?lo * (?lo * (a * 100)) \<le> fl (fl a * 100)" .
  have "fl (fl a * 100) \<le> ?hi * (fl a * 100)"
    using y by (rule fl_bounds(2))
  also have "\<dots> \<le> ?hi * ((?hi * a) * 100)"
    using fl_bounds(2) [OF assms] hi by (intro mult_left_mono mult_right_mono) simp_all
  also have "\<dots> = ?hi * (?hi * (a * 100))"
    by (simp only: mult.assoc)
  finally show "fl (fl a * 100) \<le> ?hi * (?hi * (a * 100))" .
qed

lemma percent_sum_bound:
  fixes a b :: rat
  assumes "0 \<le> a" "0 \<le> b" "a + b = 1"
  shows "\<bar>fl (fl a * 100) + fl (fl b * 100) - 100\<bar> \<le> 1 / 2 ^ 44"
    and "\<bar>fl (fl (fl a * 100) + fl (fl b * 100)) - 100\<bar> \<le> 1 / 2 ^ 44"
proof -
  let ?lo = "1 - 1 / 2 ^ 53 :: rat" and ?hi = "1 + 1 / 2 ^ 53 :: rat"
  let ?s = "fl (fl a * 100) + fl (fl b * 100)"
  have lo: "0 \<le> ?lo" and hi: "0 \<le> ?hi"
    by simp_all
  have "?lo * (?lo * (a * 100)) + ?lo * (?lo * (b * 100)) = ?lo * (?lo * ((a + b) * 100))"
    by (simp only: distrib_left distrib_right)
  then have lo_eq: "?lo * (?lo * (a * 100)) + ?lo * (?lo * (b * 100)) = ?lo * (?lo * 100)"
    by (simp only: assms(3) mult_1_left)
  have "?hi * (?hi * (a * 100)) + ?hi * (?hi * (b * 100)) = ?hi * (?hi * ((a + b) * 100))"
    by (simp only: distrib_left distrib_right)
  then have hi_eq: "?hi * (?hi * (a * 100)) + ?hi * (?hi * (b * 100)) = ?hi * (?hi * 100)"
    by (simp only: assms(3) mult_1_left)
  have s_lo: "?lo * (?lo * 100) \<le> ?s"
    unfolding lo_eq [symmetric]
    by (intro add_mono fl_fl_bounds(1) assms)
  have s_hi: "?s \<le> ?hi * (?hi * 100)"
    unfolding hi_eq [symmetric]
    by (intro add_mono fl_fl_bounds(2) assms)
  have n1: "100 - 1 / 2 ^ 44 \<le> ?lo * (?lo * 100)"
    by code_simp
  have n2: "?hi * (?hi * 100) \<le> 100 + 1 / 2 ^ 44"
    by code_simp
  from s_lo s_hi n1 n2 show "\<bar>?s - 100\<bar> \<le> 1 / 2 ^ 44"
    by (simp only: abs_le_iff) linarith
  have s0: "0 \<le> ?s"
    using assms by (intro add_nonneg_nonneg fl_nonneg mult_nonneg_nonneg) simp_all
  have "?lo * (?lo * (?lo * 100)) \<le> ?lo * ?s"
    using s_lo lo by (rule mult_left_mono)
  also have "\<dots> \<le> fl ?s"
    using s0 by (rule fl_bounds(1))
  finally have f_lo: "?lo * (?lo * (?lo * 100)) \<le> fl ?s" .
  have "fl ?s \<le> ?hi * ?s"
    using s0 by (rule fl_bounds(2))
  also have "\<dots> \<le> ?hi * (?hi * (?hi * 100))"
    using s_hi hi by (rule mult_left_mono)
  finally have f_hi: "fl ?s \<le> ?hi * (?hi * (?hi * 100))" .
  have n3: "100 - 1 / 2 ^ 44 \<le> ?lo * (?lo * (?lo * 100))"
    by code_simp
  have n4: "?hi * (?hi * (?hi * 100)) \<le> 100 + 1 / 2 ^ 44"
    by code_simp
  from f_lo f_hi n3 n4 show "\<bar>fl ?s - 100\<bar> \<le> 1 / 2 ^ 44"
    by (simp only: abs_le_iff) linarith
qed

lemma fl_100: "fl 100 = 100"
  by code_simp

lemma fl_330: "fl 330 = 330"
  by code_simp

lemma round_half_even_of_int: "round_half_even (of_int m) = m"
  by (simp add: round_half_even_def)

lemma fl_of_nat_exact:
  assumes "k < 2 ^ 53"
  shows "fl (of_nat k) = of_nat k"
proof (cases "k = 0")
  case True
  then show ?thesis by (simp add: fl_def)
next
  case False
  let ?x = "of_nat k :: rat"
  let ?e = "ilog2 ?x - 52"
  from False have pos: "0 < ?x" by simp
  have "?x < of_nat (2 ^ 53)"
    using assms by (simp only: of_nat_less_iff)
  then have lt: "?x < 2 powi 53"
    by simp
  have "\<not> 53 \<le> ilog2 ?x"
  proof
    assume "53 \<le> ilog2 ?x"
    then have "(2::rat) powi 53 \<le> 2 powi (ilog2 ?x)"
      by (intro power_int_increasing) simp_all
    also have "\<dots> \<le> ?x"
      using pos by (rule ilog2_bounds(1))
    finally show False using lt by simp
  qed
  then have e: "?e \<le> 0" by simp
  have "(2::rat) powi (- ?e) = 2 ^ nat (- ?e)"
    using e by (intro power_int_nonneg_exp) simp
  moreover have "(2::rat) powi ?e = inverse (2 powi (- ?e))"
    by (simp only: power_int_minus [symmetric] minus_minus)
  ultimately have "(2::rat) powi ?e = inverse (2 ^ nat (- ?e))"
    by (simp only:)
  then have "?x / 2 powi ?e = ?x * 2 ^ nat (- ?e)"
    by (simp only: divide_inverse inverse_inverse_eq)
  also have "\<dots> = of_int (int k * 2 ^ nat (- ?e))"
    by simp
  finally have y: "?x / 2 powi ?e = of_int (int k * 2 ^ nat (- ?e))" .
  have "fl ?x = of_int (round_half_even (?x / 2 powi ?e)) * 2 powi ?e"
    using pos by (simp add: fl_def Let_def)
  also have "\<dots> = (?x / 2 powi ?e) * 2 powi ?e"
    by (simp only: y round_half_even_of_int)
  also have "\<dots> = ?x"
    by simp
  finally show ?thesis .
qed

lemma stats_unfold:
  "base_counts_and_stats dna =
     Inr \<lparr>counts = Counter dna, total = length dna,
          gc_percent =
            fl (fl (of_nat (count_list dna (CHR ''G'') + count_list dna (CHR ''C''))
                    / of_nat (if dna \<noteq> [] then length dna else 1)) * 100),
          at_percent =
            fl (fl (of_nat (count_list dna (CHR ''A'') + count_list dna (CHR ''T''))
                    / of_nat (if dna \<noteq> [] then length dna else 1)) * 100),
          at_gc_ratio =
            (if 0 < count_list dna (CHR ''G'') + count_list dna (CHR ''C'')
             then Finite (fl (of_nat (count_list dna (CHR ''A'') + count_list dna (CHR ''T''))
                              / of_nat (count_list dna (CHR ''G'') + count_list dna (CHR ''C''))))
             else PosInf),
          mw_da = fl (fl (of_nat (length dna)) * 330),
          mw_kda = fl (fl (fl (of_nat (length dna)) * 330) / 1000)\<rparr>"
  by (simp add: base_counts_and_stats_def Let_def bind_err_def int_truediv_def float_mul_def
      float_of_int_def float_truediv_def AVG_NT_DA_def dict_get_Counter fl_100)

subsection \<open>The statistics\<close>

text \<open>
  Claim C5, as the code has it. For every cleaned sequence of length \<open>L\<close>: the
  returned counts are the numbers of occurrences in the sequence, and those of \<open>A\<close>,
  \<open>T\<close>, \<open>C\<close>, \<open>G\<close> sum to \<open>L\<close>. For a non-empty
  sequence \<open>gc_percent\<close> and \<open>at_percent\<close> are the binary64 results of
  \<open>(gc / L) * 100\<close> and \<open>(at / L) * 100\<close>; the exact percentages sum to 100, and
  the computed ones sum to 100 up to rounding: the sum, exact or rounded once more by the
  float addition, differs from 100 by at most \<open>2 ^ -44\<close>. \<open>mw_da\<close> is the float
  product of \<open>L\<close> and \<open>330.0\<close>, which is \<open>L * 330\<close> exactly below
  \<open>2 ^ 53\<close>, and \<open>mw_kda\<close> is the float quotient \<open>mw_da / 1000.0\<close>; both are
  0 for the empty sequence.
\<close>

theorem stats_composition:
  assumes "set dna \<subseteq> {CHR ''A'', CHR ''T'', CHR ''C'', CHR ''G''}"
  shows "\<exists>st. base_counts_and_stats dna = Inr st
     \<and> total st = length dna
     \<and> dict_get (counts st) (CHR ''A'') 0 + dict_get (counts st) (CHR ''T'') 0
       + dict_get (counts st) (CHR ''C'') 0 + dict_get (counts st) (CHR ''G'') 0 = length dna
     \<and> (dna \<noteq> [] \<longrightarrow>
          gc_percent st =
            fl (fl (of_nat (dict_get (counts st) (CHR ''G'') 0 + dict_get (counts st) (CHR ''C'') 0)
                    / of_nat (length dna)) * 100)
          \<and> at_percent st =
            fl (fl (of_nat (dict_get (counts st) (CHR ''A'') 0 + dict_get (counts st) (CHR ''T'') 0)
                    / of_nat (length dna)) * 100)
          \<and> of_nat (dict_get (counts st) (CHR ''G'') 0 + dict_get (counts st) (CHR ''C'') 0)
              / of_nat (length dna) * 100
            + of_nat (dict_get (counts st) (CHR ''A'') 0 + dict_get (counts st) (CHR ''T'') 0)
              / of_nat (length dna) * 100 = (100 :: rat)
          \<and> \<bar>gc_percent st + at_percent st - 100\<bar> \<le> 1 / 2 ^ 44
          \<and> \<bar>float_add (gc_percent st) (at_percent st) - 100\<bar> \<le> 1 / 2 ^ 44)
     \<and> mw_da st = float_mul (float_of_int (length dna)) AVG_NT_DA
     \<and> float_truediv (mw_da st) 1000 = Inr (mw_kda st)
     \<and> (length dna * 330 < 2 ^ 53 \<longrightarrow> mw_da st = of_nat (length dna) * 330)
     \<and> (dna = [] \<longrightarrow> mw_da st = 0 \<and> mw_kda st = 0)
     \<and> (\<forall>c. dict_get (counts st) c 0 = count_list dna c)"
proof -
  let ?L = "length dna"
  obtain st where st: "base_counts_and_stats dna = Inr st"
    and cnt: "counts st = Counter dna" and tot: "total st = ?L"
    and gcp0: "gc_percent st =
      fl (fl (of_nat (count_list dna (CHR ''G'') + count_list dna (CHR ''C''))
              / of_nat (if dna \<noteq> [] then ?L else 1)) * 100)"
    and atp0: "at_percent st =
      fl (fl (of_nat (count_list dna (CHR ''A'') + count_list dna (CHR ''T''))
              / of_nat (if dna \<noteq> [] then ?L else 1)) * 100)"
    and da: "mw_da st = fl (fl (of_nat ?L) * 330)"
    and kda: "mw_kda st = fl (mw_da st / 1000)"
    using stats_unfold [of dna] by simp
  have cnts: "count_list dna c = dict_get (counts st) c 0" for c
    by (simp add: cnt dict_get_Counter)
  let ?gc = "dict_get (counts st) (CHR ''G'') 0 + dict_get (counts st) (CHR ''C'') 0"
  let ?at = "dict_get (counts st) (CHR ''A'') 0 + dict_get (counts st) (CHR ''T'') 0"
  let ?a = "of_nat ?gc / of_nat ?L :: rat" and ?b = "of_nat ?at / of_nat ?L :: rat"
  note gcp = gcp0 [unfolded cnts] and atp = atp0 [unfolded cnts]
  have counts_sum: "dict_get (counts st) (CHR ''A'') 0 + dict_get (counts st) (CHR ''T'') 0
       + dict_get (counts st) (CHR ''C'') 0 + dict_get (counts st) (CHR ''G'') 0 = ?L"
    using count_bases [OF assms] by (simp only: cnts)
  then have sum: "?gc + ?at = ?L"
    by simp
  have percent: "dna \<noteq> [] \<longrightarrow>
          gc_percent st = fl (fl ?a * 100) \<and> at_percent st = fl (fl ?b * 100)
          \<and> ?a * 100 + ?b * 100 = 100
          \<and> \<bar>gc_percent st + at_percent st - 100\<bar> \<le> 1 / 2 ^ 44
          \<and> \<bar>float_add (gc_percent st) (at_percent st) - 100\<bar> \<le> 1 / 2 ^ 44"
  proof
    assume ne: "dna \<noteq> []"
    then have L: "(of_nat ?L :: rat) \<noteq> 0" by simp
    have "?a + ?b = of_nat (?gc + ?at) / of_nat ?L"
      by (simp only: of_nat_add add_divide_distrib)
    also have "\<dots> = 1"
      using L by (simp only: sum) simp
    finally have ab: "?a + ?b = 1" .
    have a0: "0 \<le> ?a" and b0: "0 \<le> ?b"
      by simp_all
    have g: "gc_percent st = fl (fl ?a * 100)" and t: "at_percent st = fl (fl ?b * 100)"
      using ne gcp atp by simp_all
    have "?a * 100 + ?b * 100 = (?a + ?b) * 100"
      by (simp only: distrib_right)
    then have exact: "?a * 100 + ?b * 100 = 100"
      by (simp only: ab mult_1_left)
    from percent_sum_bound [OF a0 b0 ab] g t exact
    show "gc_percent st = fl (fl ?a * 100) \<and> at_percent st = fl (fl ?b * 100)
          \<and> ?a * 100 + ?b * 100 = 100
          \<and> \<bar>gc_percent st + at_percent st - 100\<bar> \<le> 1 / 2 ^ 44
          \<and> \<bar>float_add (gc_percent st) (at_percent st) - 100\<bar> \<le> 1 / 2 ^ 44"
      by (simp only: float_add_def)
  qed
  have mw: "mw_da st = float_mul (float_of_int ?L) AVG_NT_DA"
    by (simp add: da float_mul_def float_of_int_def AVG_NT_DA_def)
  have mwk: "float_truediv (mw_da st) 1000 = Inr (mw_kda st)"
    by (simp add: kda float_truediv_def)
  have exact_da: "?L * 330 < 2 ^ 53 \<longrightarrow> mw_da st = of_nat ?L * 330"
  proof
    assume small: "?L * 330 < 2 ^ 53"
    then have "?L < 2 ^ 53" by simp
    then have "fl (of_nat ?L) = of_nat ?L"
      by (rule fl_of_nat_exact)
    moreover have "fl (of_nat (?L * 330)) = of_nat (?L * 330)"
      using small by (rule fl_of_nat_exact)
    ultimately show "mw_da st = of_nat ?L * 330"
      by (simp add: da)
  qed
  have empty: "dna = [] \<longrightarrow> mw_da st = 0 \<and> mw_kda st = 0"
    by (simp add: da kda fl_def)
  have link: "\<forall>c. dict_get (counts st) c 0 = count_list dna c"
    by (simp add: cnt dict_get_Counter)
  show ?thesis
    by (rule exI [of _ st]) (intro conjI st tot counts_sum percent mw mwk exact_da empty link)
qed

text \<open>
  Claim C5, as stated, asks for \<open>gc_percent + at_percent = 100\<close> exactly. On
  \<open>GAA\<close> the two percentages are the floats 33.33333333333333 and 66.66666666666666,
  and their sum is 99.99999999999999, in exact and in float arithmetic.
\<close>

theorem percent_sum_counterexample:
  "set ''GAA'' \<subseteq> {CHR ''A'', CHR ''T'', CHR ''C'', CHR ''G''} \<and> ''GAA'' \<noteq> []
   \<and> map_sum id gc_percent (base_counts_and_stats ''GAA'') =
       Inr (2345624805922133 / 70368744177664)
   \<and> map_sum id at_percent (base_counts_and_stats ''GAA'') =
       Inr (2345624805922133 / 35184372088832)
   \<and> float_add (2345624805922133 / 70368744177664) (2345624805922133 / 35184372088832) =
       7036874417766399 / 70368744177664
   \<and> (7036874417766399 / 70368744177664 :: rat) \<noteq> 100
   \<and> (2345624805922133 / 70368744177664 + 2345624805922133 / 35184372088832 :: rat) \<noteq> 100"
proof (intro conjI)
  show "set ''GAA'' \<subseteq> {CHR ''A'', CHR ''T'', CHR ''C'', CHR ''G''}"
    by simp
  show "''GAA'' \<noteq> []"
    by simp
  show "map_sum id gc_percent (base_counts_and_stats ''GAA'') =
       Inr (2345624805922133 / 70368744177664)"
    by code_simp
  show "map_sum id at_percent (base_counts_and_stats ''GAA'') =
       Inr (2345624805922133 / 35184372088832)"
    by code_simp
  show "float_add (2345624805922133 / 70368744177664) (2345624805922133 / 35184372088832) =
       7036874417766399 / 70368744177664"
    by code_simp
  show "(7036874417766399 / 70368744177664 :: rat) \<noteq> 100"
    by simp
  show "(2345624805922133 / 70368744177664 + 2345624805922133 / 35184372088832 :: rat) \<noteq> 100"
    by simp
qed

text \<open>The sum can also exceed 100: on \<open>GGAAAAAAAAA\<close> the percentages are
  18.181818181818183 and 81.81818181818183, and their float sum is 100.00000000000001.\<close>

lemma percent_sum_above_100:
  "map_sum id (\<lambda>st. float_add (gc_percent st) (at_percent st))
     (base_counts_and_stats ''GGAAAAAAAAA'') = Inr (7036874417766401 / 70368744177664)
   \<and> (100 :: rat) < 7036874417766401 / 70368744177664"
  by (rule conjI) (code_simp, simp)

theorem stats_composition_witness:
  "set ''GAA'' \<subseteq> {CHR ''A'', CHR ''T'', CHR ''C'', CHR ''G''}
   \<and> (\<exists>st. base_counts_and_stats ''GAA'' = Inr st
         \<and> total st = 3
         \<and> dict_get (counts st) (CHR ''A'') 0 + dict_get (counts st) (CHR ''T'') 0
           + dict_get (counts st) (CHR ''C'') 0 + dict_get (counts st) (CHR ''G'') 0 = 3
         \<and> \<bar>gc_percent st + at_percent st - 100\<bar> \<le> 1 / 2 ^ 44
         \<and> \<bar>float_add (gc_percent st) (at_percent st) - 100\<bar> \<le> 1 / 2 ^ 44
         \<and> mw_da st = 990)"
proof -
  have sub: "set ''GAA'' \<subseteq> {CHR ''A'', CHR ''T'', CHR ''C'', CHR ''G''}"
    by simp
  have ne: "''GAA'' \<noteq> []" and small: "length ''GAA'' * 330 < 2 ^ 53"
    by simp_all
  from stats_composition [OF sub] obtain st where
    st: "base_counts_and_stats ''GAA'' = Inr st"
    and tot: "total st = length ''GAA''"
    and sum: "dict_get (counts st) (CHR ''A'') 0 + dict_get (counts st) (CHR ''T'') 0
           + dict_get (counts st) (CHR ''C'') 0 + dict_get (counts st) (CHR ''G'') 0
           = length ''GAA''"
    and pct: "''GAA'' \<noteq> [] \<longrightarrow>
          gc_percent st =
            fl (fl (of_nat (dict_get (counts st) (CHR ''G'') 0 + dict_get (counts st) (CHR ''C'') 0)
                    / of_nat (length ''GAA'')) * 100)
          \<and> at_percent st =
            fl (fl (of_nat (dict_get (counts st) (CHR ''A'') 0 + dict_get (counts st) (CHR ''T'') 0)
                    / of_nat (length ''GAA'')) * 100)
          \<and> of_nat (dict_get (counts st) (CHR ''G'') 0 + dict_get (counts st) (CHR ''C'') 0)
              / of_nat (length ''GAA'') * 100
            + of_nat (dict_get (counts st) (CHR ''A'') 0 + dict_get (counts st) (CHR ''T'') 0)
              / of_nat (length ''GAA'') * 100 = (100 :: rat)
          \<and> \<bar>gc_percent st + at_percent st - 100\<bar> \<le> 1 / 2 ^ 44
          \<and> \<bar>float_add (gc_percent st) (at_percent st) - 100\<bar> \<le> 1 / 2 ^ 44"
    and da: "length ''GAA'' * 330 < 2 ^ 53 \<longrightarrow> mw_da st = of_nat (length ''GAA'') * 330"
    by (elim exE conjE)
  note p = pct [THEN mp, OF ne, THEN conjunct2, THEN conjunct2, THEN conjunct2]
  have b: "\<bar>gc_percent st + at_percent st - 100\<bar> \<le> 1 / 2 ^ 44"
    "\<bar>float_add (gc_percent st) (at_percent st) - 100\<bar> \<le> 1 / 2 ^ 44"
    by (rule p [THEN conjunct1], rule p [THEN conjunct2])
  from da [THEN mp, OF small] have da': "mw_da st = 990"
    by simp
  from tot have tot': "total st = 3" by simp
  from sum have sum': "dict_get (counts st) (CHR ''A'') 0 + dict_get (counts st) (CHR ''T'') 0
           + dict_get (counts st) (CHR ''C'') 0 + dict_get (counts st) (CHR ''G'') 0 = 3"
    by simp
  show ?thesis
    by (rule conjI [OF sub]) (rule exI [of _ st], intro conjI st tot' sum' b da')
qed

text \<open>
  Claim C6. \<open>base_counts_and_stats\<close> always returns a value, whose counts are the
  numbers of occurrences in the sequence. When the GC count is
  positive, \<open>at_gc_ratio\<close> is the float quotient of the AT count by the GC count; it
  is \<open>float('inf')\<close> exactly when the GC count is zero, which includes the empty
  sequence.
\<close>

theorem at_gc_ratio_spec:
  "\<exists>st. base_counts_and_stats dna = Inr st
     \<and> (0 < dict_get (counts st) (CHR ''G'') 0 + dict_get (counts st) (CHR ''C'') 0 \<longrightarrow>
          Inr (at_gc_ratio st) =
            map_sum id Finite
              (int_truediv
                 (dict_get (counts st) (CHR ''A'') 0 + dict_get (counts st) (CHR ''T'') 0)
                 (dict_get (counts st) (CHR ''G'') 0 + dict_get (counts st) (CHR ''C'') 0))
          \<and> at_gc_ratio st =
            Finite (fl (of_nat (dict_get (counts st) (CHR ''A'') 0
                                + dict_get (counts st) (CHR ''T'') 0)
                        / of_nat (dict_get (counts st) (CHR ''G'') 0
                                  + dict_get (counts st) (CHR ''C'') 0))))
     \<and> (at_gc_ratio st = PosInf \<longleftrightarrow>
          dict_get (counts st) (CHR ''G'') 0 + dict_get (counts st) (CHR ''C'') 0 = 0)
     \<and> (dna = [] \<longrightarrow> at_gc_ratio st = PosInf)
     \<and> (\<forall>c. dict_get (counts st) c 0 = count_list dna c)"
proof -
  obtain st where st: "base_counts_and_stats dna = Inr st"
    and cnt: "counts st = Counter dna"
    and r0: "at_gc_ratio st =
            (if 0 < count_list dna (CHR ''G'') + count_list dna (CHR ''C'')
             then Finite (fl (of_nat (count_list dna (CHR ''A'') + count_list dna (CHR ''T''))
                              / of_nat (count_list dna (CHR ''G'') + count_list dna (CHR ''C''))))
             else PosInf)"
    using stats_unfold [of dna] by simp
  have cnts: "count_list dna c = dict_get (counts st) c 0" for c
    by (simp add: cnt dict_get_Counter)
  note r = r0 [unfolded cnts]
  let ?gc = "dict_get (counts st) (CHR ''G'') 0 + dict_get (counts st) (CHR ''C'') 0"
  let ?at = "dict_get (counts st) (CHR ''A'') 0 + dict_get (counts st) (CHR ''T'') 0"
  have pos: "0 < ?gc \<longrightarrow>
          Inr (at_gc_ratio st) = map_sum id Finite (int_truediv ?at ?gc)
          \<and> at_gc_ratio st = Finite (fl (of_nat ?at / of_nat ?gc))"
    using r by (simp add: int_truediv_def)
  have inf: "at_gc_ratio st = PosInf \<longleftrightarrow> ?gc = 0"
    using r by (simp split: if_splits)
  have "dict_get (counts st) c 0 = 0" if "dna = []" for c
    using that cnts [of c] by simp
  then have empty: "dna = [] \<longrightarrow> at_gc_ratio st = PosInf"
    using inf by simp
  have link: "\<forall>c. dict_get (counts st) c 0 = count_list dna c"
    by (simp add: cnt dict_get_Counter)
  show ?thesis
    by (rule exI [of _ st]) (intro conjI st pos inf empty link)
qed

theorem at_gc_ratio_spec_witness:
  "(\<exists>st. base_counts_and_stats ''GAA'' = Inr st
         \<and> 0 < dict_get (counts st) (CHR ''G'') 0 + dict_get (counts st) (CHR ''C'') 0
         \<and> at_gc_ratio st = Finite 2)
   \<and> (\<exists>st. base_counts_and_stats ''AATT'' = Inr st
         \<and> dict_get (counts st) (CHR ''G'') 0 + dict_get (counts st) (CHR ''C'') 0 = 0
         \<and> at_gc_ratio st = PosInf)"
proof (rule conjI)
  have ev: "map_sum id counts (base_counts_and_stats ''GAA'') =
     Inr [(CHR ''G'', 1), (CHR ''A'', 2)]"
    by code_simp
  from at_gc_ratio_spec [of "''GAA''"] obtain st where
    st: "base_counts_and_stats ''GAA'' = Inr st"
    and pos: "0 < dict_get (counts st) (CHR ''G'') 0 + dict_get (counts st) (CHR ''C'') 0 \<longrightarrow>
          Inr (at_gc_ratio st) =
            map_sum id Finite
              (int_truediv
                 (dict_get (counts st) (CHR ''A'') 0 + dict_get (counts st) (CHR ''T'') 0)
                 (dict_get (counts st) (CHR ''G'') 0 + dict_get (counts st) (CHR ''C'') 0))
          \<and> at_gc_ratio st =
            Finite (fl (of_nat (dict_get (counts st) (CHR ''A'') 0
                                + dict_get (counts st) (CHR ''T'') 0)
                        / of_nat (dict_get (counts st) (CHR ''G'') 0
                                  + dict_get (counts st) (CHR ''C'') 0)))"
    by (elim exE conjE)
  from st ev have c: "counts st = [(CHR ''G'', 1), (CHR ''A'', 2)]"
    by auto
  have gc: "0 < dict_get (counts st) (CHR ''G'') 0 + dict_get (counts st) (CHR ''C'') 0"
    by (simp add: c dict_get_def)
  have at: "dict_get (counts st) (CHR ''A'') 0 + dict_get (counts st) (CHR ''T'') 0 = 2"
    and gc1: "dict_get (counts st) (CHR ''G'') 0 + dict_get (counts st) (CHR ''C'') 0 = 1"
    by (simp_all add: c dict_get_def)
  have "fl 2 = 2"
    by code_simp
  with pos [THEN mp, OF gc, THEN conjunct2] have "at_gc_ratio st = Finite 2"
    by (simp only: at gc1) simp
  with st gc show "\<exists>st. base_counts_and_stats ''GAA'' = Inr st
         \<and> 0 < dict_get (counts st) (CHR ''G'') 0 + dict_get (counts st) (CHR ''C'') 0
         \<and> at_gc_ratio st = Finite 2"
    by (intro exI [of _ st] conjI)
next
  have ev: "map_sum id counts (base_counts_and_stats ''AATT'') =
     Inr [(CHR ''A'', 2), (CHR ''T'', 2)]"
    by code_simp
  from at_gc_ratio_spec [of "''AATT''"] obtain st where
    st: "base_counts_and_stats ''AATT'' = Inr st"
    and inf: "at_gc_ratio st = PosInf \<longleftrightarrow>
          dict_get (counts st) (CHR ''G'') 0 + dict_get (counts st) (CHR ''C'') 0 = 0"
    by (elim exE conjE)
  from st ev have c: "counts st = [(CHR ''A'', 2), (CHR ''T'', 2)]"
    by auto
  have gc: "dict_get (counts st) (CHR ''G'') 0 + dict_get (counts st) (CHR ''C'') 0 = 0"
    by (simp add: c dict_get_def)
  with inf have "at_gc_ratio st = PosInf"
    by (rule iffD2)
  with st gc show "\<exists>st. base_counts_and_stats ''AATT'' = Inr st
         \<and> dict_get (counts st) (CHR ''G'') 0 + dict_get (counts st) (CHR ''C'') 0 = 0
         \<and> at_gc_ratio st = PosInf"
    by (intro exI [of _ st] conjI)
qed

section \<open>The empty sequence\<close>

text \<open>
  Claim C7. On the empty sequence \<open>base_counts_and_stats\<close> returns \<open>total = 0\<close>,
  \<open>gc_percent = 0\<close> (the divisor is 1) and \<open>at_gc_ratio = float('inf')\<close>;
  \<open>find_motifs\<close> returns the empty list, for the fixed table and for every table
  without an empty motif; and \<open>find_orfs_all_frames\<close> returns the empty list.
\<close>

theorem empty_sequence_results:
  "base_counts_and_stats [] =
     Inr \<lparr>counts = [], total = 0, gc_percent = 0, at_percent = 0,
          at_gc_ratio = PosInf, mw_da = 0, mw_kda = 0\<rparr>
   \<and> find_motifs [] DNA_MEANINGS = []
   \<and> ([] \<notin> fst ` set motifs \<longrightarrow> find_motifs [] motifs = [])
   \<and> find_orfs_all_frames [] = []"
proof (intro conjI impI)
  show "base_counts_and_stats [] =
     Inr \<lparr>counts = [], total = 0, gc_percent = 0, at_percent = 0,
          at_gc_ratio = PosInf, mw_da = 0, mw_kda = 0\<rparr>"
    by code_simp
  show "find_motifs [] DNA_MEANINGS = []"
    by code_simp
  show "find_orfs_all_frames [] = []"
    by code_simp
next
  assume ne: "[] \<notin> fst ` set motifs"
  have "set (found_motifs [] motifs) = {}"
    unfolding set_found_motifs using ne by force
  then show "find_motifs [] motifs = []"
    by (simp add: find_motifs_def)
qed

theorem empty_sequence_results_witness:
  "[] \<notin> fst ` set [(''AA'', ''x''), (''GAATTC'', ''EcoRI'')]
   \<and> find_motifs [] [(''AA'', ''x''), (''GAATTC'', ''EcoRI'')] = []"
proof -
  have ne: "[] \<notin> fst ` set [(''AA'', ''x''), (''GAATTC'', ''EcoRI'')]"
    by simp
  note t = empty_sequence_results [of "[(''AA'', ''x''), (''GAATTC'', ''EcoRI'')]"]
  from ne t [THEN conjunct2, THEN conjunct2, THEN conjunct1, THEN mp, OF ne]
  show ?thesis by (rule conjI)
qed

end
